theory Spec2Isabelle
  imports Main "HOL-Library.Word" "HOL-Library.Sublist"
begin

section \<open>Go library functions used by the tracer\<close>

text \<open>
  Go strings are byte sequences; \<^typ>\<open>string\<close> is a list of 8-bit characters.
  The functions of this section are the ones of Go's \<^verbatim>\<open>strings\<close>,
  \<^verbatim>\<open>strconv\<close> and \<^verbatim>\<open>path/filepath\<close> packages that the
  tracer calls, written out so that the tracer's code can be evaluated.
\<close>

text \<open>\<^verbatim>\<open>strings.Index(s, sub)\<close>: the byte index of the first occurrence of
  \<open>sub\<close> in \<open>s\<close>, or \<open>-1\<close>. The first argument of the helper is the index of
  the position that is being looked at.\<close>

fun index_from :: "nat \<Rightarrow> string \<Rightarrow> string \<Rightarrow> int" where
  "index_from i [] sub = (if sub = [] then int i else - 1)"
| "index_from i (c # cs) sub =
     (if prefix sub (c # cs) then int i else index_from (Suc i) cs sub)"

definition strings_Index :: "string \<Rightarrow> string \<Rightarrow> int" where
  "strings_Index s sub = index_from 0 s sub"

text \<open>\<^verbatim>\<open>strings.LastIndex(s, sub)\<close>: the byte index of the last occurrence, or
  \<open>-1\<close>.\<close>

fun last_index_from :: "nat \<Rightarrow> string \<Rightarrow> string \<Rightarrow> int" where
  "last_index_from i [] sub = (if sub = [] then int i else - 1)"
| "last_index_from i (c # cs) sub =
     (let r = last_index_from (Suc i) cs sub
      in if r \<noteq> - 1 then r else if prefix sub (c # cs) then int i else - 1)"

definition strings_LastIndex :: "string \<Rightarrow> string \<Rightarrow> int" where
  "strings_LastIndex s sub = last_index_from 0 s sub"

definition strings_HasPrefix :: "string \<Rightarrow> string \<Rightarrow> bool" where
  "strings_HasPrefix s p = prefix p s"

definition strings_HasSuffix :: "string \<Rightarrow> string \<Rightarrow> bool" where
  "strings_HasSuffix s p = suffix p s"

text \<open>\<^verbatim>\<open>strings.Count(s, sub)\<close> for a separator of one byte, the only way the
  tracer calls it (with the newline).\<close>

definition strings_Count :: "string \<Rightarrow> char \<Rightarrow> nat" where
  "strings_Count s c = length (filter (\<lambda>x. x = c) s)"

definition LF :: char where
  "LF = CHR 0x0A"

definition CR :: char where
  "CR = CHR 0x0D"

text \<open>\<^verbatim>\<open>strings.ReplaceAll(s, "\r\n", "\n")\<close>, left to right over
  non-overlapping occurrences.\<close>

fun ReplaceAll_crlf :: "string \<Rightarrow> string" where
  "ReplaceAll_crlf (c1 # c2 # cs) =
     (if c1 = CR \<and> c2 = LF then LF # ReplaceAll_crlf cs
      else c1 # ReplaceAll_crlf (c2 # cs))"
| "ReplaceAll_crlf cs = cs"

text \<open>\<^verbatim>\<open>filepath.ToSlash\<close>: every path separator of the platform becomes a
  slash. The separator is a parameter.\<close>

definition ToSlash :: "char \<Rightarrow> string \<Rightarrow> string" where
  "ToSlash sep p =
     (if sep = CHR ''/'' then p else map (\<lambda>c. if c = sep then CHR ''/'' else c) p)"

text \<open>Errors are values. \<open>ErrWrap msg e\<close> is \<^verbatim>\<open>fmt.Errorf(msg + ": %w", e)\<close>;
  \<open>ErrVals msg vs\<close> is an \<^verbatim>\<open>Errorf\<close> whose message formats the values
  \<open>vs\<close>; \<open>Panic\<close> is a run-time panic (nil dereference, index out of range);
  \<open>External\<close> is an error value made by the debugger, the operating system or a
  library.\<close>

datatype error =
    Err string
  | ErrVals string "string list"
  | ErrWrap string error
  | ErrWrapVals string "string list" error
  | ErrExitStatus int
  | ErrSyntax
  | ErrRange
  | Panic string
  | External string

text \<open>\<^verbatim>\<open>strconv.ParseInt(s, 10, 64)\<close> and \<^verbatim>\<open>strconv.Atoi(s)\<close> (where
  \<^verbatim>\<open>int\<close> has 64 bits): an optional sign, then one decimal digit or more, and the
  value must fit 64 signed bits.\<close>

definition digit_of :: "char \<Rightarrow> int option" where
  "digit_of c =
     (let n = of_char c :: int in if 48 \<le> n \<and> n \<le> 57 then Some (n - 48) else None)"

fun parse_digits :: "int \<Rightarrow> string \<Rightarrow> int option" where
  "parse_digits acc [] = Some acc"
| "parse_digits acc (c # cs) =
     (case digit_of c of None \<Rightarrow> None | Some d \<Rightarrow> parse_digits (10 * acc + d) cs)"

definition strconv_ParseInt :: "string \<Rightarrow> error + int" where
  "strconv_ParseInt s =
     (case s of
        [] \<Rightarrow> Inl ErrSyntax
      | c # cs \<Rightarrow>
          (let neg = (c = CHR ''-'');
               ds = (if c = CHR ''+'' \<or> c = CHR ''-'' then cs else s)
           in if ds = [] then Inl ErrSyntax
              else (case parse_digits 0 ds of
                      None \<Rightarrow> Inl ErrSyntax
                    | Some n \<Rightarrow>
                        if \<not> neg \<and> 2 ^ 63 \<le> n then Inl ErrRange
                        else if neg \<and> 2 ^ 63 < n then Inl ErrRange
                        else Inr (if neg then - n else n))))"

definition strconv_Atoi :: "string \<Rightarrow> error + int" where
  "strconv_Atoi s = strconv_ParseInt s"

section \<open>The result model (tracer/result.go)\<close>

text \<open>\<^verbatim>\<open>EventServerType\<close> and \<^verbatim>\<open>EventClientCommandType\<close> are the protocol's
  enumerations \<^verbatim>\<open>enums.EventType\<close> and \<^verbatim>\<open>enums.CommandType\<close>, both
  \<^verbatim>\<open>int32\<close>.\<close>

type_synonym EventServerType = "32 word"

type_synonym EventClientCommandType = "32 word"

record EventServer =
  ID :: "64 word"
  Type :: EventServerType

record EventClient =
  Commands :: "EventClientCommandType list"

record EventCode =
  Package :: string
  File :: string
  Line :: int
  Coroutine :: string

text \<open>\<^verbatim>\<open>Event\<close> holds three pointers, of which the tracer sets exactly one.\<close>

record Event =
  Server :: "EventServer option"
  Client :: "EventClient option"
  Code :: "EventCode option"

record Result =
  Events :: "Event list"

text \<open>The tables \<^verbatim>\<open>enums.EventType_name\<close>, \<^verbatim>\<open>enums.EventType_value\<close> (and the
  ones of \<^verbatim>\<open>CommandType\<close>) belong to the protocol library; they are parameters
  here. \<^verbatim>\<open>String()\<close> of a generated enumeration is the name of the number in the
  name table, or the number in decimal.\<close>

type_synonym name_table = "32 word \<rightharpoonup> string"

type_synonym value_table = "string \<rightharpoonup> 32 word"

fun nat_digits :: "nat \<Rightarrow> nat \<Rightarrow> string" where
  "nat_digits 0 n = []"
| "nat_digits (Suc k) n =
     (if n < 10 then [char_of (48 + n)]
      else nat_digits k (n div 10) @ [char_of (48 + n mod 10)])"

definition strconv_Itoa :: "int \<Rightarrow> string" where
  "strconv_Itoa i =
     (if i < 0 then CHR ''-'' # nat_digits 20 (nat (- i)) else nat_digits 20 (nat i))"

definition enum_String :: "name_table \<Rightarrow> 32 word \<Rightarrow> string" where
  "enum_String names x = (case names x of Some s \<Rightarrow> s | None \<Rightarrow> strconv_Itoa (sint x))"

definition EventServerType_String :: "name_table \<Rightarrow> EventServerType \<Rightarrow> string" where
  "EventServerType_String names e = enum_String names e"

definition EventServerType_MarshalText ::
  "name_table \<Rightarrow> EventServerType \<Rightarrow> string \<times> error option" where
  "EventServerType_MarshalText names e = (EventServerType_String names e, None)"

text \<open>\<^verbatim>\<open>UnmarshalText\<close> overwrites the receiver with the table's entry for the
  text (the zero value when the map has none) and returns \<^verbatim>\<open>nil\<close>. The model
  returns the receiver's new value and the error.\<close>

definition EventServerType_UnmarshalText ::
  "value_table \<Rightarrow> string \<Rightarrow> EventServerType \<times> error option" where
  "EventServerType_UnmarshalText vals text =
     ((case vals text of Some v \<Rightarrow> v | None \<Rightarrow> 0), None)"

definition EventClientCommandType_String ::
  "name_table \<Rightarrow> EventClientCommandType \<Rightarrow> string" where
  "EventClientCommandType_String names e = enum_String names e"

definition EventClientCommandType_MarshalText ::
  "name_table \<Rightarrow> EventClientCommandType \<Rightarrow> string \<times> error option" where
  "EventClientCommandType_MarshalText names e = (EventClientCommandType_String names e, None)"

definition EventClientCommandType_UnmarshalText ::
  "value_table \<Rightarrow> string \<Rightarrow> EventClientCommandType \<times> error option" where
  "EventClientCommandType_UnmarshalText vals text =
     ((case vals text of Some v \<Rightarrow> v | None \<Rightarrow> 0), None)"

section \<open>Configuration (the tracer's constructor)\<close>

text \<open>A compiled regular expression is used through \<^verbatim>\<open>MatchString\<close> only.\<close>

type_synonym Regexp = "string \<Rightarrow> bool"

datatype Logger = DefaultLogger | CallerLogger

record ClientOptions =
  HostPort :: string
  Namespace :: string

record Execution =
  ExecutionID :: string
  RunID :: string

record Config =
  ClientOptions :: ClientOptions
  Log :: "Logger option"
  WorkflowFuncs :: "string list"
  Execution :: "Execution option"
  HistoryFile :: string
  RootDir :: string
  RetainTempDir :: bool
  ExcludeFuncs :: "Regexp list"
  ExcludeFiles :: "Regexp list"
  IncludeTemporalInternal :: bool

record Tracer = Config +
  fnPkg :: string
  fn :: string

text \<open>\<^verbatim>\<open>New\<close> takes the configuration and returns a tracer or an error. It
  reads and writes nothing else: no file system, process or debugger is among its
  arguments or results.\<close>

definition New :: "Config \<Rightarrow> error + Tracer" where
  "New config =
     (if Execution config = None \<and> HistoryFile config = [] then
        Inl (Err ''must have existing execution or history file'')
      else if Execution config \<noteq> None \<and> HistoryFile config \<noteq> [] then
        Inl (Err ''cannot have both execution and history file'')
      else
        (let log = (case Log config of None \<Rightarrow> Some DefaultLogger | Some l \<Rightarrow> Some l)
         in if length (WorkflowFuncs config) \<noteq> 1 then
              Inl (Err ''single workflow function required'')
            else
              (let f = WorkflowFuncs config ! 0;
                   lastDot = strings_LastIndex f ''.''
               in if lastDot = - 1 then Inl (Err ''workflow function missing dot'')
                  else Inr (Config.extend (config\<lparr>Log := log\<rparr>)
                              (Tracer.fields (take (nat lastDot) f)
                                             (drop (nat lastDot + 1) f))))))"

section \<open>The debugger and the platform\<close>

text \<open>The tracer drives a debugger of the Delve library. Its answers are inputs of the
  tracer, so the debugger is a parameter: a state of type \<open>'d\<close> and the operations the
  tracer calls, each returning what the library returns there (an error is \<open>Inl\<close>).
  The platform's file reader, regular-expression compiler, path separator and the
  directory \<^verbatim>\<open>filepath.Join(runtime.GOROOT(), "src")\<close> are parameters too.\<close>

datatype DebuggerCommand = Continue | Step | StepOut | Halt

record api_Breakpoint =
  BpID :: int
  BpFunctionName :: string
  BpFile :: string
  BpLine :: int

text \<open>\<open>Function_Name\<close> is the result of \<^verbatim>\<open>Function.Name()\<close> of the thread.\<close>

record Thread =
  ThFile :: string
  ThLine :: int
  Function_Name :: string
  GoroutineID :: int
  Breakpoint :: "api_Breakpoint option"

record DebuggerState =
  Exited :: bool
  ExitStatus :: int
  CurrentThread :: "Thread option"
  NextInProgress :: bool

datatype Variable = Variable (Name: string) (Value: string) (Children: "Variable list")

record 'd Env =
  DebuggerNew :: "error + 'd"
  Command :: "DebuggerCommand \<Rightarrow> 'd \<Rightarrow> (error + DebuggerState) \<times> 'd"
  CancelNext :: "'d \<Rightarrow> error option \<times> 'd"
  CreateBreakpoint :: "api_Breakpoint \<Rightarrow> 'd \<Rightarrow> (error + api_Breakpoint) \<times> 'd"
  Detach :: "'d \<Rightarrow> error option \<times> 'd"
  FunctionArguments :: "int \<Rightarrow> 'd \<Rightarrow> error + Variable list"
  LocalVariables :: "int \<Rightarrow> 'd \<Rightarrow> error + Variable list"
  CurrentPackage :: "'d \<Rightarrow> string"
  Sources :: "'d \<Rightarrow> string list"
  ReadFile :: "string \<Rightarrow> error + string"
  RegexpCompile :: "string \<Rightarrow> error + Regexp"
  Separator :: char
  GoRootSrc :: string

section \<open>The trace session (tracer/trace.go)\<close>

text \<open>A breakpoint's handler is \<^verbatim>\<open>nil\<close> or one of three methods of the
  session.\<close>

datatype handler = H_onProcessEvent | H_onReplayCommands | H_populateCoroutineName

record breakpoint =
  bp :: api_Breakpoint
  handler :: "handler option"

record 'd trace =
  tracer :: Tracer
  result :: Result
  debug :: 'd
  state :: "DebuggerState option"
  sourceCache :: "string \<rightharpoonup> string"
  packageFiles :: "string \<rightharpoonup> string"
  breakpoints :: "int \<rightharpoonup> breakpoint"
  coroutineNames :: "int \<rightharpoonup> string"

text \<open>Reading a Go map of strings at a missing key gives the empty string.\<close>

definition map_get :: "('k \<rightharpoonup> string) \<Rightarrow> 'k \<Rightarrow> string" where
  "map_get m k = (case m k of None \<Rightarrow> [] | Some v \<Rightarrow> v)"

definition append_event :: "Event \<Rightarrow> 'd trace \<Rightarrow> 'd trace" where
  "append_event e t = t\<lparr>result := (result t)\<lparr>Events := Events (result t) @ [e]\<rparr>\<rparr>"

subsection \<open>Placing breakpoints\<close>

text \<open>The last lines of \<^verbatim>\<open>addFileLineBreakpoint\<close> and the whole of
  \<^verbatim>\<open>addFuncBreakpoint\<close>: ask the debugger for the breakpoint and enter it in the
  registry under the identifier that the debugger gave it.\<close>

definition create_and_register ::
  "'d Env \<Rightarrow> api_Breakpoint \<Rightarrow> handler option \<Rightarrow> 'd trace \<Rightarrow> 'd trace \<times> error option" where
  "create_and_register E req h t =
     (case CreateBreakpoint E req (debug t) of
        (Inl e, d') \<Rightarrow> (t\<lparr>debug := d'\<rparr>, Some e)
      | (Inr b, d') \<Rightarrow>
          (t\<lparr>debug := d',
             breakpoints := (breakpoints t)(BpID b \<mapsto> \<lparr>bp = b, handler = h\<rparr>)\<rparr>, None))"

definition addFuncBreakpoint ::
  "'d Env \<Rightarrow> string \<Rightarrow> handler option \<Rightarrow> 'd trace \<Rightarrow> 'd trace \<times> error option" where
  "addFuncBreakpoint E fn_name h t =
     create_and_register E \<lparr>BpID = 0, BpFunctionName = fn_name, BpFile = [], BpLine = 0\<rparr> h t"

text \<open>The loop of \<^verbatim>\<open>addFileLineBreakpoint\<close> over the source files of the
  binary; \<open>file\<close> is the loop's variable of that name, empty until a path matches.\<close>

fun find_file :: "Regexp \<Rightarrow> string \<Rightarrow> string \<Rightarrow> string list \<Rightarrow> error + string" where
  "find_file fileRegexp fileRegex file [] = Inr file"
| "find_file fileRegexp fileRegex file (maybeFile # rest) =
     (if fileRegexp maybeFile then
        (if file \<noteq> [] then
           Inl (ErrVals ''both %v and %v match %v'' [file, maybeFile, fileRegex])
         else find_file fileRegexp fileRegex maybeFile rest)
      else find_file fileRegexp fileRegex file rest)"

text \<open>"Get source lines": the cached text of the file, or, when the cache has none
  (or an empty one), the file's content with line endings normalised, which is then
  cached.\<close>

definition get_source :: "'d Env \<Rightarrow> string \<Rightarrow> 'd trace \<Rightarrow> error + (string \<times> 'd trace)" where
  "get_source E file t =
     (let source = map_get (sourceCache t) file
      in if source = [] then
           (case ReadFile E file of
              Inl e \<Rightarrow> Inl (ErrWrapVals ''failed reading %v'' [file] e)
            | Inr b \<Rightarrow>
                (let source' = ReplaceAll_crlf b
                 in Inr (source', t\<lparr>sourceCache := (sourceCache t)(file \<mapsto> source')\<rparr>)))
         else Inr (source, t))"

definition addFileLineBreakpoint ::
  "'d Env \<Rightarrow> string \<Rightarrow> string \<Rightarrow> handler option \<Rightarrow> 'd trace \<Rightarrow> 'd trace \<times> error option" where
  "addFileLineBreakpoint E fileRegex codeToMatch h t =
     (case RegexpCompile E fileRegex of
        Inl e \<Rightarrow> (t, Some (ErrWrap ''invalid file regex'' e))
      | Inr fileRegexp \<Rightarrow>
          (case find_file fileRegexp fileRegex [] (Sources E (debug t)) of
             Inl e \<Rightarrow> (t, Some e)
           | Inr file \<Rightarrow>
               if file = [] then
                 (t, Some (ErrVals ''unable to find file matching %v'' [fileRegex]))
               else
                 (case get_source E file t of
                    Inl e \<Rightarrow> (t, Some e)
                  | Inr (source, t1) \<Rightarrow>
                      (let codeIndex = strings_Index source codeToMatch
                       in if codeIndex = - 1 then
                            (t1, Some (ErrVals ''cannot find matching code on %v'' [file]))
                          else if strings_LastIndex source codeToMatch \<noteq> codeIndex then
                            (t1, Some (ErrVals ''code found twice in %v'' [file]))
                          else
                            (let line =
                               int (strings_Count
                                      (take (nat codeIndex + length codeToMatch) source) LF) + 1
                             in create_and_register E
                                  \<lparr>BpID = 0, BpFunctionName = [], BpFile = file, BpLine = line\<rparr>
                                  h t1)))))"

subsection \<open>Observation handlers\<close>

text \<open>\<^verbatim>\<open>t.state.CurrentThread\<close>; dereferencing a nil pointer panics.\<close>

definition current_thread :: "'d trace \<Rightarrow> error + Thread" where
  "current_thread t =
     (case state t of
        None \<Rightarrow> Inl (Panic ''nil pointer dereference'')
      | Some st \<Rightarrow>
          (case CurrentThread st of
             None \<Rightarrow> Inl (Panic ''nil pointer dereference'')
           | Some th \<Rightarrow> Inr th))"

text \<open>\<^verbatim>\<open>str[beginParens+1 : len(str)-1]\<close> panics when the bounds are out of
  order.\<close>

definition intInTrailingParens :: "string \<Rightarrow> error + int" where
  "intInTrailingParens str =
     (let beginParens = strings_Index str ''(''
      in if beginParens < 0 \<or> \<not> strings_HasSuffix str '')'' then
           Inl (Err ''expected int in parens at the end'')
         else if length str - 1 < nat beginParens + 1 then
           Inl (Panic ''slice bounds out of range'')
         else strconv_Atoi
                (take (length str - 1 - (nat beginParens + 1)) (drop (nat beginParens + 1) str)))"

text \<open>The inner loop of \<^verbatim>\<open>onProcessEvent\<close>, over the fields of the event.\<close>

fun onProcessEvent_children :: "EventServer \<Rightarrow> Variable list \<Rightarrow> error + EventServer" where
  "onProcessEvent_children event [] = Inr event"
| "onProcessEvent_children event (child # rest) =
     (if Name child = ''EventId'' then
        (case strconv_ParseInt (Value child) of
           Inl e \<Rightarrow> Inl (ErrWrapVals ''invalid event ID %v'' [Value child] e)
         | Inr n \<Rightarrow> onProcessEvent_children (event\<lparr>ID := word_of_int n\<rparr>) rest)
      else if Name child = ''EventType'' then
        (case intInTrailingParens (Value child) of
           Inl e \<Rightarrow> Inl (ErrWrapVals ''invalid event type %q'' [Value child] e)
         | Inr i \<Rightarrow> onProcessEvent_children (event\<lparr>Type := word_of_int i\<rparr>) rest)
      else onProcessEvent_children event rest)"

text \<open>The outer loop, over the arguments of the frame; \<^verbatim>\<open>arg.Children[0]\<close>
  panics on an argument without children.\<close>

fun onProcessEvent_args :: "EventServer \<Rightarrow> Variable list \<Rightarrow> error + EventServer" where
  "onProcessEvent_args event [] = Inr event"
| "onProcessEvent_args event (arg # rest) =
     (if Name arg = ''event'' then
        (case Children arg of
           [] \<Rightarrow> Inl (Panic ''index out of range'')
         | c0 # _ \<Rightarrow>
             (case onProcessEvent_children event (Children c0) of
                Inl e \<Rightarrow> Inl e
              | Inr event' \<Rightarrow> onProcessEvent_args event' rest))
      else onProcessEvent_args event rest)"

definition onProcessEvent :: "'d Env \<Rightarrow> 'd trace \<Rightarrow> 'd trace \<times> error option" where
  "onProcessEvent E t =
     (case current_thread t of
        Inl e \<Rightarrow> (t, Some e)
      | Inr th \<Rightarrow>
          (case FunctionArguments E (GoroutineID th) (debug t) of
             Inl e \<Rightarrow> (t, Some (ErrWrap ''failed loading vars'' e))
           | Inr vars \<Rightarrow>
               (case onProcessEvent_args \<lparr>ID = 0, Type = 0\<rparr> vars of
                  Inl e \<Rightarrow> (t, Some e)
                | Inr event \<Rightarrow>
                    (append_event \<lparr>Server = Some event, Client = None, Code = None\<rparr> t,
                     None))))"

fun onReplayCommands_children ::
  "EventClientCommandType list \<Rightarrow> Variable list \<Rightarrow> error + EventClientCommandType list" where
  "onReplayCommands_children commands [] = Inr commands"
| "onReplayCommands_children commands (command # rest) =
     (case Children command of
        [] \<Rightarrow> Inl (Panic ''index out of range'')
      | c0 # _ \<Rightarrow>
          (case Children c0 of
             [] \<Rightarrow> Inl (Panic ''index out of range'')
           | c00 # _ \<Rightarrow>
               (let val = Value c00
                in case intInTrailingParens val of
                     Inl e \<Rightarrow> Inl (ErrWrapVals ''invalid command type %q'' [val] e)
                   | Inr i \<Rightarrow>
                       onReplayCommands_children (commands @ [word_of_int i]) rest)))"

fun onReplayCommands_args ::
  "EventClientCommandType list \<Rightarrow> Variable list \<Rightarrow> error + EventClientCommandType list" where
  "onReplayCommands_args commands [] = Inr commands"
| "onReplayCommands_args commands (arg # rest) =
     (if Name arg = ''eventCommands'' then
        (case onReplayCommands_children commands (Children arg) of
           Inl e \<Rightarrow> Inl e
         | Inr commands' \<Rightarrow> onReplayCommands_args commands' rest)
      else onReplayCommands_args commands rest)"

definition onReplayCommands :: "'d Env \<Rightarrow> 'd trace \<Rightarrow> 'd trace \<times> error option" where
  "onReplayCommands E t =
     (case current_thread t of
        Inl e \<Rightarrow> (t, Some e)
      | Inr th \<Rightarrow>
          (case LocalVariables E (GoroutineID th) (debug t) of
             Inl e \<Rightarrow> (t, Some (ErrWrap ''failed loading vars'' e))
           | Inr vars \<Rightarrow>
               (case onReplayCommands_args [] vars of
                  Inl e \<Rightarrow> (t, Some e)
                | Inr commands \<Rightarrow>
                    if length commands > 0 then
                      (append_event
                         \<lparr>Server = None, Client = Some \<lparr>Commands = commands\<rparr>, Code = None\<rparr> t,
                       None)
                    else (t, None))))"

text \<open>The loops of \<^verbatim>\<open>populateCoroutineName\<close>: the value of the first field
  called \<open>name\<close> of the first argument called \<open>crt\<close> that has one.\<close>

fun populate_children :: "Variable list \<Rightarrow> string option" where
  "populate_children [] = None"
| "populate_children (child # rest) =
     (if Name child = ''name'' then Some (Value child) else populate_children rest)"

fun populate_args :: "Variable list \<Rightarrow> error + string option" where
  "populate_args [] = Inr None"
| "populate_args (arg # rest) =
     (if Name arg = ''crt'' then
        (case Children arg of
           [] \<Rightarrow> Inl (Panic ''index out of range'')
         | c0 # _ \<Rightarrow>
             (case populate_children (Children c0) of
                Some v \<Rightarrow> Inr (Some v)
              | None \<Rightarrow> populate_args rest))
      else populate_args rest)"

definition populateCoroutineName :: "'d Env \<Rightarrow> 'd trace \<Rightarrow> 'd trace \<times> error option" where
  "populateCoroutineName E t =
     (case current_thread t of
        Inl e \<Rightarrow> (t, Some e)
      | Inr th \<Rightarrow>
          (case FunctionArguments E (GoroutineID th) (debug t) of
             Inl e \<Rightarrow> (t, Some (ErrWrap ''failed loading vars'' e))
           | Inr vars \<Rightarrow>
               (case populate_args vars of
                  Inl e \<Rightarrow> (t, Some e)
                | Inr None \<Rightarrow> (t, None)
                | Inr (Some v) \<Rightarrow>
                    (t\<lparr>coroutineNames := (coroutineNames t)(GoroutineID th \<mapsto> v)\<rparr>, None))))"

definition call_handler :: "'d Env \<Rightarrow> handler \<Rightarrow> 'd trace \<Rightarrow> 'd trace \<times> error option" where
  "call_handler E h t =
     (case h of
        H_onProcessEvent \<Rightarrow> onProcessEvent E t
      | H_onReplayCommands \<Rightarrow> onReplayCommands E t
      | H_populateCoroutineName \<Rightarrow> populateCoroutineName E t)"

subsection \<open>The stepping loop\<close>

text \<open>The body of the loop of \<^verbatim>\<open>trace.run\<close> is written as its consecutive
  blocks. Each block returns the session and the error with which \<^verbatim>\<open>run\<close>
  returns there, if it does. Only a debugger command assigns \<^verbatim>\<open>t.state\<close>, so
  the thread and the state read at the top of the body are the ones the later blocks
  read. A failed command is taken to return no state with its error.\<close>

text \<open>"If we have hit a breakpoint, capture it": the registry is read at the
  identifier of the breakpoint (a missing entry is a nil pointer, whose handler cannot be
  read) and the handler, if set, is run.\<close>

definition hit_breakpoint :: "'d Env \<Rightarrow> Thread \<Rightarrow> 'd trace \<Rightarrow> 'd trace \<times> error option" where
  "hit_breakpoint E th t =
     (case Breakpoint th of
        None \<Rightarrow> (t, None)
      | Some b \<Rightarrow>
          (case breakpoints t (BpID b) of
             None \<Rightarrow> (t, Some (Panic ''nil pointer dereference''))
           | Some registered \<Rightarrow>
               (case handler registered of
                  None \<Rightarrow> (t, None)
                | Some h \<Rightarrow> call_handler E h t)))"

text \<open>"If there is a next in progress [...] we just cancel all next's."\<close>

definition cancel_next :: "'d Env \<Rightarrow> DebuggerState \<Rightarrow> 'd trace \<Rightarrow> 'd trace \<times> error option" where
  "cancel_next E st t =
     (if NextInProgress st then
        (case CancelNext E (debug t) of
           (Some e, d') \<Rightarrow> (t\<lparr>debug := d'\<rparr>, Some (ErrWrap ''failed cancelling next'' e))
         | (None, d') \<Rightarrow> (t\<lparr>debug := d'\<rparr>, None))
      else (t, None))"

definition goStdOrTemporal :: "'d Env \<Rightarrow> Thread \<Rightarrow> bool" where
  "goStdOrTemporal E th =
     (strings_HasPrefix (ToSlash (Separator E) (ThFile th))
                        (ToSlash (Separator E) (GoRootSrc E)) \<or>
      strings_HasPrefix (Function_Name th) ''go.temporal.io/sdk/'' \<or>
      strings_HasPrefix (Function_Name th) ''go.uber.org/atomic.'' \<or>
      strings_HasPrefix (Function_Name th) ''runtime.'' \<or>
      Function_Name th = ''main.main'')"

text \<open>\<^verbatim>\<open>t.state, err = t.debug.Command(...)\<close>, with the message that wraps the
  error.\<close>

definition do_command ::
  "'d Env \<Rightarrow> DebuggerCommand \<Rightarrow> string \<Rightarrow> 'd trace \<Rightarrow> 'd trace \<times> error option" where
  "do_command E c msg t =
     (case Command E c (debug t) of
        (Inl e, d') \<Rightarrow> (t\<lparr>debug := d', state := None\<rparr>, Some (ErrWrap msg e))
      | (Inr st, d') \<Rightarrow> (t\<lparr>debug := d', state := Some st\<rparr>, None))"

text \<open>The step out of library code (a plain step in \<^verbatim>\<open>runtime.goexit\<close>).\<close>

definition step_out :: "'d Env \<Rightarrow> Thread \<Rightarrow> 'd trace \<Rightarrow> 'd trace \<times> error option" where
  "step_out E th t =
     (if strings_HasPrefix (Function_Name th) ''runtime.goexit'' then
        do_command E Step ''failed stepping out'' t
      else do_command E StepOut ''failed stepping out'' t)"

text \<open>"This is a line that represents an event if not Go stdlib or temporal".\<close>

definition record_code :: "'d Env \<Rightarrow> Thread \<Rightarrow> 'd trace \<Rightarrow> 'd trace" where
  "record_code E th t =
     (if ThFile th \<noteq> [] \<and> \<not> goStdOrTemporal E th then
        append_event
          \<lparr>Server = None, Client = None,
           Code = Some \<lparr>Package = CurrentPackage E (debug t), File = ThFile th,
                        Line = ThLine th,
                        Coroutine = map_get (coroutineNames t) (GoroutineID th)\<rparr>\<rparr> t
      else t)"

definition run_body :: "'d Env \<Rightarrow> 'd trace \<Rightarrow> 'd trace \<times> error option" where
  "run_body E t =
     (case state t of
        None \<Rightarrow> (t, Some (Panic ''nil pointer dereference''))
      | Some st \<Rightarrow>
          (case CurrentThread st of
             None \<Rightarrow> (t, Some (Panic ''nil pointer dereference''))
           | Some th \<Rightarrow>
               (case hit_breakpoint E th t of
                  (t1, Some e) \<Rightarrow> (t1, Some e)
                | (t1, None) \<Rightarrow>
                    (case cancel_next E st t1 of
                       (t2, Some e) \<Rightarrow> (t2, Some e)
                     | (t2, None) \<Rightarrow>
                         if goStdOrTemporal E th then step_out E th t2
                         else do_command E Step ''failed stepping'' (record_code E th t2)))))"

text \<open>The loop runs while the process has not exited; it may run forever, and then
  \<open>run_loop\<close> is \<open>None\<close>. Its result is the session at the exit of the loop, with the
  error if the body returned one.\<close>

partial_function (option) run_loop :: "'d Env \<Rightarrow> 'd trace \<Rightarrow> ('d trace \<times> error option) option" where
  "run_loop E t =
     (case state t of
        None \<Rightarrow> Some (t, Some (Panic ''nil pointer dereference''))
      | Some st \<Rightarrow>
          if Exited st then Some (t, None)
          else (case run_body E t of
                  (t', Some e) \<Rightarrow> Some (t', Some e)
                | (t', None) \<Rightarrow> run_loop E t'))"

declare run_loop.simps [code]

text \<open>The first \<open>n\<close> turns of the same loop: the session after them, or the session at
  which the loop was left earlier, by an exit (no error) or by an error of the body.\<close>

fun loop_turns :: "nat \<Rightarrow> 'd Env \<Rightarrow> 'd trace \<Rightarrow> 'd trace \<times> error option" where
  "loop_turns 0 E t = (t, None)"
| "loop_turns (Suc n) E t =
     (case state t of
        None \<Rightarrow> (t, Some (Panic ''nil pointer dereference''))
      | Some st \<Rightarrow>
          if Exited st then (t, None)
          else (case run_body E t of
                  (t', Some e) \<Rightarrow> (t', Some e)
                | (t', None) \<Rightarrow> loop_turns n E t'))"

text \<open>"If there was a failure, fail": the check after the loop.\<close>

definition exit_check :: "'d trace \<Rightarrow> error option" where
  "exit_check t =
     (case state t of
        None \<Rightarrow> Some (Panic ''nil pointer dereference'')
      | Some st \<Rightarrow>
          if Exited st \<and> ExitStatus st \<noteq> 0 then Some (ErrExitStatus (ExitStatus st))
          else None)"

definition run :: "'d Env \<Rightarrow> 'd trace \<Rightarrow> ('d trace \<times> error option) option" where
  "run E t =
     (case do_command E Continue ''failed starting execution'' t of
        (t0, Some e) \<Rightarrow> Some (t0, Some e)
      | (t0, None) \<Rightarrow>
          (case run_loop E t0 of
             None \<Rightarrow> None
           | Some (t', Some e) \<Rightarrow> Some (t', Some e)
           | Some (t', None) \<Rightarrow> Some (t', exit_check t')))"

subsection \<open>Setting up and tearing down the session\<close>

definition TAB :: char where
  "TAB = CHR 0x09"

definition BSL :: char where
  "BSL = CHR 0x5C"

definition matchInternalPkg :: string where
  "matchInternalPkg =
     ''.*/go'' @ [BSL] @ ''.temporal'' @ [BSL] @ ''.io/sdk.*/internal/''"

definition matchInternalEventHandlers :: string where
  "matchInternalEventHandlers = matchInternalPkg @ ''internal_event_handlers'' @ [BSL] @ ''.go''"

definition matchInternalTaskHandlers :: string where
  "matchInternalTaskHandlers = matchInternalPkg @ ''internal_task_handlers'' @ [BSL] @ ''.go''"

definition matchInternalWorkflow :: string where
  "matchInternalWorkflow = matchInternalPkg @ ''internal_workflow'' @ [BSL] @ ''.go''"

text \<open>\<^verbatim>\<open>close\<close>: halt and detach; a failure of either is logged only.\<close>

definition trace_close :: "'d Env \<Rightarrow> 'd trace \<Rightarrow> 'd trace" where
  "trace_close E t =
     (let d1 = snd (Command E Halt (debug t));
          d2 = snd (Detach E d1)
      in t\<lparr>debug := d2\<rparr>)"

text \<open>One step of the chain \<^verbatim>\<open>if err == nil { err = ... }\<close>.\<close>

definition if_no_error ::
  "('d trace \<Rightarrow> 'd trace \<times> error option) \<Rightarrow> 'd trace \<times> error option \<Rightarrow> 'd trace \<times> error option" where
  "if_no_error f r = (case r of (t, None) \<Rightarrow> f t | (t, Some e) \<Rightarrow> (t, Some e))"

text \<open>A session as \<^verbatim>\<open>newTrace\<close> starts it, before any breakpoint is placed.\<close>

definition fresh_trace :: "Tracer \<Rightarrow> 'd \<Rightarrow> 'd trace" where
  "fresh_trace tr d =
     \<lparr>tracer = tr, result = \<lparr>Events = []\<rparr>, debug = d, state = None,
      sourceCache = Map.empty, packageFiles = Map.empty,
      breakpoints = Map.empty, coroutineNames = Map.empty\<rparr>"

text \<open>\<^verbatim>\<open>newTrace\<close> starts the debugger and places the five breakpoints. When a
  placement fails, the session is closed and the caller gets the error alone, so the
  closed session is not part of the result.\<close>

definition newTrace :: "'d Env \<Rightarrow> Tracer \<Rightarrow> error + 'd trace" where
  "newTrace E tr =
     (case DebuggerNew E of
        Inl e \<Rightarrow> Inl (ErrWrap ''failed creating debugger'' e)
      | Inr d \<Rightarrow>
          (let t = fresh_trace tr d;
               r1 = addFuncBreakpoint E (fnPkg tr @ ''.'' @ fn tr) None t;
               r2 = if_no_error
                      (addFileLineBreakpoint E matchInternalEventHandlers
                         (TAB # ''if event == nil {'') (Some H_onProcessEvent)) r1;
               r3 = if_no_error
                      (addFileLineBreakpoint E matchInternalTaskHandlers
                         ''if len(eventCommands) > 0 && !skipReplayCheck {''
                         (Some H_onReplayCommands)) r2;
               r4 = if_no_error
                      (addFileLineBreakpoint E matchInternalWorkflow
                         (TAB # TAB # ''f(spawned)'') (Some H_populateCoroutineName)) r3;
               r5 = if_no_error
                      (addFileLineBreakpoint E matchInternalWorkflow
                         (TAB # ''s.blocked.Swap(false)'') None) r4
           in case r5 of
                (t5, Some e) \<Rightarrow> Inl e
              | (t5, None) \<Rightarrow> Inr t5))"

text \<open>\<^verbatim>\<open>Tracer.Trace\<close>. Creating the temporary directory, writing and building
  the replay program are the work of the platform and the compiler: \<open>prepared\<close> is the
  error of that part, if it failed. The result is a pair as in the source: the pointer
  to the result (\<open>None\<close> is \<^verbatim>\<open>nil\<close>) and the error.\<close>

definition Trace ::
  "'d Env \<Rightarrow> error option \<Rightarrow> Tracer \<Rightarrow> (Result option \<times> error option) option" where
  "Trace E prepared tr =
     (case prepared of
        Some e \<Rightarrow> Some (None, Some e)
      | None \<Rightarrow>
          (case newTrace E tr of
             Inl e \<Rightarrow> Some (None, Some e)
           | Inr t \<Rightarrow>
               (case run E t of
                  None \<Rightarrow> None
                | Some (t', err) \<Rightarrow> Some (Some (result (trace_close E t')), err))))"

subsection \<open>The earlier revision of the loop (kept in src/tracer/log.go)\<close>

text \<open>The earlier revision of \<^verbatim>\<open>trace.run\<close> gives every breakpoint a flag
  \<^verbatim>\<open>forStepping\<close> ("if true, this cancels next and prevents a step out") and
  treats a stop with a step in progress in this block: "We want to 'cancel next' if the
  breakpoint is for stepping (i.e. resume stepping here), or 'continue' if it is not."
  \<open>bp\<close> is the registered breakpoint that was hit, if any. The block ends in one of
  three ways: \<^verbatim>\<open>run\<close> returns an error, the loop restarts
  (\<^verbatim>\<open>continue\<close>), or the body goes on.\<close>

record breakpoint_rev1 = breakpoint +
  forStepping :: bool

datatype flow = Return error | Restart | GoOn

definition next_in_progress_rev1 ::
  "'d Env \<Rightarrow> breakpoint_rev1 option \<Rightarrow> DebuggerState \<Rightarrow> 'd trace \<Rightarrow> 'd trace \<times> flow" where
  "next_in_progress_rev1 E hit st t =
     (if NextInProgress st then
        (if (case hit of None \<Rightarrow> True | Some b \<Rightarrow> \<not> forStepping b) then
           (case do_command E Continue ''failed continuing while next in progress'' t of
              (t', Some e) \<Rightarrow> (t', Return e)
            | (t', None) \<Rightarrow> (t', Restart))
         else
           (case CancelNext E (debug t) of
              (Some e, d') \<Rightarrow> (t\<lparr>debug := d'\<rparr>, Return (ErrWrap ''failed cancelling next'' e))
            | (None, d') \<Rightarrow> (t\<lparr>debug := d'\<rparr>, GoOn)))
      else (t, GoOn))"

section \<open>A scripted debugger\<close>

text \<open>A debugger that answers the stepping commands from a list, for running the
  tracer on concrete inputs. Each answer comes with the frame that the debugger shows
  at that stop. Every request is logged. When the list is used up, a command fails.\<close>

datatype request =
    ReqCommand DebuggerCommand
  | ReqCancelNext
  | ReqCreateBreakpoint api_Breakpoint
  | ReqDetach

record frame =
  frame_args :: "error + Variable list"
  frame_locals :: "error + Variable list"
  frame_package :: string

record scripted =
  answers :: "((error + DebuggerState) \<times> frame) list"
  shown :: frame
  binary_sources :: "string list"
  next_id :: int
  requests :: "request list"

definition no_frame :: frame where
  "no_frame = \<lparr>frame_args = Inr [], frame_locals = Inr [], frame_package = []\<rparr>"

definition scripted_Command ::
  "DebuggerCommand \<Rightarrow> scripted \<Rightarrow> (error + DebuggerState) \<times> scripted" where
  "scripted_Command c d =
     (case answers d of
        [] \<Rightarrow> (Inl (External ''no answer left''), d\<lparr>requests := requests d @ [ReqCommand c]\<rparr>)
      | (a, f) # rest \<Rightarrow>
          (a, d\<lparr>answers := rest, shown := f, requests := requests d @ [ReqCommand c]\<rparr>))"

definition scripted_Env ::
  "(string \<Rightarrow> error + Regexp) \<Rightarrow> (string \<Rightarrow> error + string) \<Rightarrow> scripted \<Rightarrow> scripted Env" where
  "scripted_Env compile read_file d0 =
     \<lparr>DebuggerNew = Inr d0,
      Command = scripted_Command,
      CancelNext = (\<lambda>d. (None, d\<lparr>requests := requests d @ [ReqCancelNext]\<rparr>)),
      CreateBreakpoint =
        (\<lambda>req d. (Inr (req\<lparr>BpID := next_id d\<rparr>),
                   d\<lparr>next_id := next_id d + 1,
                     requests := requests d @ [ReqCreateBreakpoint req]\<rparr>)),
      Detach = (\<lambda>d. (None, d\<lparr>requests := requests d @ [ReqDetach]\<rparr>)),
      FunctionArguments = (\<lambda>g d. frame_args (shown d)),
      LocalVariables = (\<lambda>g d. frame_locals (shown d)),
      CurrentPackage = (\<lambda>d. frame_package (shown d)),
      Sources = binary_sources,
      ReadFile = read_file,
      RegexpCompile = compile,
      Separator = CHR ''/'',
      GoRootSrc = ''/usr/local/go/src''\<rparr>"

definition scripted_init :: "((error + DebuggerState) \<times> frame) list \<Rightarrow> string list \<Rightarrow> scripted" where
  "scripted_init as srcs =
     \<lparr>answers = as, shown = no_frame, binary_sources = srcs, next_id = 1, requests = []\<rparr>"

section \<open>Occurrences of a fragment\<close>

text \<open>The fragment \<open>code\<close> occurs in \<open>source\<close> at the byte index \<open>i\<close>. This is the
  notion of the specification, for comparison with what \<^verbatim>\<open>strings.Index\<close> and
  \<^verbatim>\<open>strings.LastIndex\<close> find.\<close>

definition occurs_at :: "string \<Rightarrow> string \<Rightarrow> nat \<Rightarrow> bool" where
  "occurs_at source code i \<longleftrightarrow> i \<le> length source \<and> prefix code (drop i source)"

section \<open>Concrete inputs\<close>

definition example_Config :: Config where
  "example_Config =
     \<lparr>ClientOptions = \<lparr>HostPort = ''localhost:7233'', Namespace = ''default''\<rparr>,
      Log = None, WorkflowFuncs = [''example.com/pkg.MyWorkflow''],
      Execution = None, HistoryFile = ''history.json'', RootDir = ''.'',
      RetainTempDir = False, ExcludeFuncs = [], ExcludeFiles = [],
      IncludeTemporalInternal = False\<rparr>"

definition example_names :: name_table where
  "example_names = [0 \<mapsto> ''Unspecified'', 1 \<mapsto> ''WorkflowExecutionStarted'']"

definition example_values :: value_table where
  "example_values = [''Unspecified'' \<mapsto> 0, ''WorkflowExecutionStarted'' \<mapsto> 1]"

definition sdk_dir :: string where
  "sdk_dir = ''/home/u/go/pkg/mod/go.temporal.io/sdk@v1.12.0/internal/''"

definition example_compile :: "string \<Rightarrow> error + Regexp" where
  "example_compile p =
     (if p = matchInternalEventHandlers then
        Inr (\<lambda>path. path = sdk_dir @ ''internal_event_handlers.go'')
      else if p = matchInternalTaskHandlers then
        Inr (\<lambda>path. path = sdk_dir @ ''internal_task_handlers.go'')
      else if p = matchInternalWorkflow then
        Inr (\<lambda>path. path = sdk_dir @ ''internal_workflow.go'')
      else Inl (External ''unsupported pattern''))"

definition example_read_file :: "string \<Rightarrow> error + string" where
  "example_read_file path =
     (if path = sdk_dir @ ''internal_event_handlers.go'' then
        Inr (''package internal'' @ [CR, LF] @ ''func f() {'' @ [CR, LF, TAB] @
             ''if event == nil {'' @ [CR, LF] @ ''}'')
      else if path = sdk_dir @ ''internal_task_handlers.go'' then
        Inr (''package internal'' @ [LF, TAB] @
             ''if len(eventCommands) > 0 && !skipReplayCheck {'' @ [LF])
      else if path = sdk_dir @ ''internal_workflow.go'' then
        Inr (''package internal'' @ [LF, TAB] @ ''s.blocked.Swap(false)'' @ [LF, LF, TAB, TAB] @
             ''f(spawned)'' @ [LF])
      else Inl (External ''no such file''))"

definition example_sources :: "string list" where
  "example_sources =
     [''/home/u/app/workflow.go'', sdk_dir @ ''internal_event_handlers.go'',
      sdk_dir @ ''internal_task_handlers.go'', sdk_dir @ ''internal_workflow.go'',
      ''/usr/local/go/src/runtime/proc.go'']"

definition stop_at :: "string \<Rightarrow> int \<Rightarrow> string \<Rightarrow> int \<Rightarrow> int option \<Rightarrow> bool \<Rightarrow> DebuggerState" where
  "stop_at file line func gid hit nip =
     \<lparr>Exited = False, ExitStatus = 0,
      CurrentThread = Some \<lparr>ThFile = file, ThLine = line, Function_Name = func,
        GoroutineID = gid,
        Breakpoint = map_option (\<lambda>i. \<lparr>BpID = i, BpFunctionName = [], BpFile = file, BpLine = line\<rparr>) hit\<rparr>,
      NextInProgress = nip\<rparr>"

definition exited :: "int \<Rightarrow> DebuggerState" where
  "exited status = \<lparr>Exited = True, ExitStatus = status, CurrentThread = None, NextInProgress = False\<rparr>"

definition leaf :: "string \<Rightarrow> string \<Rightarrow> Variable" where
  "leaf n v = Variable n v []"

definition naming_stop :: DebuggerState where
  "naming_stop =
     stop_at (sdk_dir @ ''internal_workflow.go'') 4
       ''go.temporal.io/sdk/internal.(*dispatcherImpl).newNamedCoroutine.func1'' 7 (Some 4) False"

definition naming_frame :: "string \<Rightarrow> frame" where
  "naming_frame nm =
     \<lparr>frame_args = Inr [Variable ''crt'' [] [Variable [] [] [leaf ''name'' nm]]],
      frame_locals = Inr [], frame_package = ''go.temporal.io/sdk/internal''\<rparr>"

definition event_stop :: "bool \<Rightarrow> DebuggerState" where
  "event_stop nip =
     stop_at (sdk_dir @ ''internal_event_handlers.go'') 3
       ''go.temporal.io/sdk/internal.(*workflowExecutionEventHandlerImpl).ProcessEvent''
       1 (Some 2) nip"

definition event_frame :: "Variable list \<Rightarrow> frame" where
  "event_frame fs =
     \<lparr>frame_args = Inr [Variable ''event'' [] [Variable [] [] fs]],
      frame_locals = Inr [], frame_package = ''go.temporal.io/sdk/internal''\<rparr>"

definition user_stop :: "int \<Rightarrow> int option \<Rightarrow> bool \<Rightarrow> DebuggerState" where
  "user_stop line hit nip =
     stop_at ''/home/u/app/workflow.go'' line ''example.com/pkg.MyWorkflow'' 7 hit nip"

definition user_frame :: frame where
  "user_frame = \<lparr>frame_args = Inr [], frame_locals = Inr [], frame_package = ''example.com/pkg''\<rparr>"

definition commands_stop :: DebuggerState where
  "commands_stop =
     stop_at (sdk_dir @ ''internal_task_handlers.go'') 2
       ''go.temporal.io/sdk/internal.(*workflowTaskHandlerImpl).ProcessWorkflowTask'' 1 (Some 3) False"

definition commands_frame :: "Variable list \<Rightarrow> frame" where
  "commands_frame cs =
     \<lparr>frame_args = Inr [], frame_locals = Inr [Variable ''eventCommands'' [] cs],
      frame_package = ''go.temporal.io/sdk/internal''\<rparr>"

definition command_var :: "string \<Rightarrow> Variable" where
  "command_var v = Variable [] [] [Variable [] [] [leaf ''CommandType'' v]]"

definition example_answers :: "((error + DebuggerState) \<times> frame) list" where
  "example_answers =
     [(Inr naming_stop, naming_frame ''root''),
      (Inr (event_stop False),
       event_frame [leaf ''EventId'' ''1'', leaf ''EventType'' ''WorkflowExecutionStarted (1)'']),
      (Inr (user_stop 12 (Some 1) True), user_frame),
      (Inr (user_stop 13 None False), user_frame),
      (Inr commands_stop,
       commands_frame [command_var ''ScheduleActivityTask (1)'', command_var ''StartTimer (5)'']),
      (Inr (exited 2), no_frame)]"

definition example_Env :: "scripted Env" where
  "example_Env = scripted_Env example_compile example_read_file
                   (scripted_init example_answers example_sources)"

definition example_Tracer :: Tracer where
  "example_Tracer = Config.extend example_Config (Tracer.fields ''example.com/pkg'' ''MyWorkflow'')"

text \<open>A session stopped at \<open>st\<close> while the debugger shows the frame \<open>f\<close>.\<close>

definition registered :: "int \<Rightarrow> string \<Rightarrow> string \<Rightarrow> int \<Rightarrow> handler option \<Rightarrow> breakpoint" where
  "registered i func file line h =
     \<lparr>bp = \<lparr>BpID = i, BpFunctionName = func, BpFile = file, BpLine = line\<rparr>, handler = h\<rparr>"

text \<open>The registry as \<^verbatim>\<open>newTrace\<close> fills it when the debugger numbers the
  breakpoints from 1.\<close>

definition example_registry :: "int \<rightharpoonup> breakpoint" where
  "example_registry =
     [1 \<mapsto> registered 1 ''example.com/pkg.MyWorkflow'' [] 0 None,
      2 \<mapsto> registered 2 [] (sdk_dir @ ''internal_event_handlers.go'') 3 (Some H_onProcessEvent),
      3 \<mapsto> registered 3 [] (sdk_dir @ ''internal_task_handlers.go'') 2 (Some H_onReplayCommands),
      4 \<mapsto> registered 4 [] (sdk_dir @ ''internal_workflow.go'') 4 (Some H_populateCoroutineName),
      5 \<mapsto> registered 5 [] (sdk_dir @ ''internal_workflow.go'') 2 None]"

definition example_session :: "DebuggerState \<Rightarrow> frame \<Rightarrow> scripted trace" where
  "example_session st f =
     (fresh_trace example_Tracer ((scripted_init [] example_sources)\<lparr>shown := f\<rparr>))
       \<lparr>state := Some st, breakpoints := example_registry\<rparr>"

text \<open>A frame that has neither an \<open>event\<close> nor a \<open>crt\<close> argument.\<close>

definition other_frame :: frame where
  "other_frame =
     \<lparr>frame_args = Inr [leaf ''weh'' ''0xc0000a2000'', leaf ''ctx'' ''0xc0000b4010''],
      frame_locals = Inr [leaf ''err'' ''nil''],
      frame_package = ''go.temporal.io/sdk/internal''\<rparr>"

definition failing_frame :: frame where
  "failing_frame =
     \<lparr>frame_args = Inl (External ''could not find goroutine''),
      frame_locals = Inl (External ''could not find goroutine''),
      frame_package = []\<rparr>"

definition example_Events :: "Event list" where
  "example_Events =
     [\<lparr>Server = Some \<lparr>ID = 1, Type = 1\<rparr>, Client = None, Code = None\<rparr>,
      \<lparr>Server = None, Client = None,
       Code = Some \<lparr>Package = ''example.com/pkg'', File = ''/home/u/app/workflow.go'',
                    Line = 12, Coroutine = ''root''\<rparr>\<rparr>,
      \<lparr>Server = None, Client = None,
       Code = Some \<lparr>Package = ''example.com/pkg'', File = ''/home/u/app/workflow.go'',
                    Line = 13, Coroutine = ''root''\<rparr>\<rparr>,
      \<lparr>Server = None, Client = Some \<lparr>Commands = [1, 5]\<rparr>, Code = None\<rparr>]"

text \<open>A session that already holds an event, before a run of one step.\<close>

definition prior_event :: Event where
  "prior_event = \<lparr>Server = Some \<lparr>ID = 9, Type = 4\<rparr>, Client = None, Code = None\<rparr>"

definition short_session :: "scripted trace" where
  "short_session =
     (fresh_trace example_Tracer
        (scripted_init [(Inr (user_stop 12 None False), user_frame), (Inr (exited 0), no_frame)]
           example_sources))
       \<lparr>result := \<lparr>Events = [prior_event]\<rparr>\<rparr>"

text \<open>A debugger that shows, for every unit, a spawn frame with the name of the unit.\<close>

definition unit_name :: "int \<Rightarrow> string" where
  "unit_name g = (if g = 7 then ''root'' else ''unit'')"

definition naming_Env :: "scripted Env" where
  "naming_Env =
     example_Env\<lparr>FunctionArguments := (\<lambda>g d. frame_args (naming_frame (unit_name g)))\<rparr>"

text \<open>Sessions in which unit 7 has been named: one stopped in the workflow, one stopped
  at the naming breakpoint once more, with the exit of the process as the next answer.\<close>

definition named_user_session :: "scripted trace" where
  "named_user_session =
     (example_session (user_stop 13 None False) user_frame)\<lparr>coroutineNames := [7 \<mapsto> ''root'']\<rparr>"

definition named_naming_session :: "scripted trace" where
  "named_naming_session =
     (example_session naming_stop (naming_frame ''root''))
       \<lparr>coroutineNames := [7 \<mapsto> ''root''],
        debug := (scripted_init [(Inr (exited 0), no_frame)] example_sources)
                   \<lparr>shown := naming_frame ''root''\<rparr>\<rparr>"

text \<open>A session stopped at \<open>st\<close>, with the exit of the process as the debugger's
  next answer.\<close>

definition last_stop_session :: "DebuggerState \<Rightarrow> frame \<Rightarrow> scripted trace" where
  "last_stop_session st f =
     (example_session st f)
       \<lparr>debug := (scripted_init [(Inr (exited 0), no_frame)] example_sources)\<lparr>shown := f\<rparr>\<rparr>"

definition started_event_frame :: frame where
  "started_event_frame =
     event_frame [leaf ''EventId'' ''1'', leaf ''EventType'' ''WorkflowExecutionStarted (1)'']"

text \<open>Breakpoints as the earlier revision registers them: the one of the event handler
  is not for stepping, the one of the workflow function is.\<close>

definition event_breakpoint_rev1 :: breakpoint_rev1 where
  "event_breakpoint_rev1 =
     \<lparr>bp = \<lparr>BpID = 2, BpFunctionName = [], BpFile = sdk_dir @ ''internal_event_handlers.go'',
             BpLine = 3\<rparr>,
      handler = Some H_onProcessEvent, forStepping = False\<rparr>"

definition entry_breakpoint_rev1 :: breakpoint_rev1 where
  "entry_breakpoint_rev1 =
     \<lparr>bp = \<lparr>BpID = 1, BpFunctionName = ''example.com/pkg.MyWorkflow'', BpFile = [], BpLine = 0\<rparr>,
      handler = None, forStepping = True\<rparr>"

text \<open>A configuration whose caller excludes the function \<open>helper\<close> and its file,
  and a stop in that function.\<close>

definition excluding_Tracer :: Tracer where
  "excluding_Tracer =
     example_Tracer\<lparr>ExcludeFuncs := [\<lambda>f. f = ''example.com/pkg.helper''],
                    ExcludeFiles := [\<lambda>p. p = ''/home/u/app/helper.go'']\<rparr>"

definition helper_stop :: DebuggerState where
  "helper_stop = stop_at ''/home/u/app/helper.go'' 7 ''example.com/pkg.helper'' 7 None False"

definition excluded_session :: "scripted trace" where
  "excluded_session = (last_stop_session helper_stop user_frame)\<lparr>tracer := excluding_Tracer\<rparr>"

text \<open>A pattern that matches every path that ends in the file name, a binary with two
  such files, and a file in which a fragment occurs twice.\<close>

definition loose_compile :: "string \<Rightarrow> error + Regexp" where
  "loose_compile p = Inr (\<lambda>path. suffix ''internal_workflow.go'' path)"

definition vendored_sources :: "string list" where
  "vendored_sources =
     [''/home/u/app/workflow.go'', sdk_dir @ ''internal_workflow.go'',
      ''/home/u/app/vendor/go.temporal.io/sdk/internal/internal_workflow.go'']"

definition twice_read_file :: "string \<Rightarrow> error + string" where
  "twice_read_file path = Inr (''f(spawned)'' @ [LF] @ ''f(spawned)'' @ [LF])"

definition event_handlers_go :: string where
  "event_handlers_go = sdk_dir @ ''internal_event_handlers.go''"

definition event_handlers_text :: string where
  "event_handlers_text =
     ''package internal'' @ [LF] @ ''func f() {'' @ [LF, TAB] @ ''if event == nil {'' @ [LF] @ ''}''"

definition unplaced_session :: "string list \<Rightarrow> scripted trace" where
  "unplaced_session srcs = fresh_trace example_Tracer (scripted_init [] srcs)"

text \<open>A configuration that names an execution, the tracer that \<^verbatim>\<open>New\<close> makes of
  it, and a session of that tracer stopped at \<open>st\<close>.\<close>

definition execution_Config :: Config where
  "execution_Config =
     example_Config\<lparr>Execution := Some \<lparr>ExecutionID = ''order-17'', RunID = ''3f6c''\<rparr>,
                    HistoryFile := []\<rparr>"

definition execution_Tracer :: Tracer where
  "execution_Tracer =
     Config.extend (execution_Config\<lparr>Log := Some DefaultLogger\<rparr>)
       (Tracer.fields ''example.com/pkg'' ''MyWorkflow'')"

definition execution_session :: "DebuggerState \<Rightarrow> frame \<Rightarrow> scripted trace" where
  "execution_session st f = (example_session st f)\<lparr>tracer := execution_Tracer\<rparr>"

text \<open>A spawn frame whose \<open>crt\<close> argument has no \<open>name\<close> field.\<close>

definition unnamed_frame :: frame where
  "unnamed_frame =
     \<lparr>frame_args = Inr [Variable ''crt'' [] [Variable [] [] [leaf ''id'' ''3'']]],
      frame_locals = Inr [], frame_package = ''go.temporal.io/sdk/internal''\<rparr>"

text \<open>A debugger that stops at the event handler, in the workflow and then at the
  command handler, where the type of the second command has no number in parentheses.\<close>

definition unparsed_command_frame :: frame where
  "unparsed_command_frame =
     commands_frame [command_var ''ScheduleActivityTask (1)'', command_var ''StartTimer'']"

definition unparsed_command_Env :: "scripted Env" where
  "unparsed_command_Env =
     scripted_Env example_compile example_read_file
       (scripted_init [(Inr (event_stop False), started_event_frame),
                       (Inr (user_stop 12 None False), user_frame),
                       (Inr commands_stop, unparsed_command_frame)] example_sources)"

definition unparsed_Events :: "Event list" where
  "unparsed_Events =
     [\<lparr>Server = Some \<lparr>ID = 1, Type = 1\<rparr>, Client = None, Code = None\<rparr>,
      \<lparr>Server = None, Client = None,
       Code = Some \<lparr>Package = ''example.com/pkg'', File = ''/home/u/app/workflow.go'',
                    Line = 12, Coroutine = []\<rparr>\<rparr>]"

text \<open>The sessions that \<^verbatim>\<open>newTrace\<close> returns for the tracer of the execution, and
  the same sessions after the first \<^verbatim>\<open>Continue\<close> of \<^verbatim>\<open>run\<close>.\<close>

definition execution_new :: "scripted trace" where
  "execution_new = projr (newTrace example_Env execution_Tracer)"

definition execution_started :: "scripted trace" where
  "execution_started =
     fst (do_command example_Env Continue ''failed starting execution'' execution_new)"

definition unparsed_new :: "scripted trace" where
  "unparsed_new = projr (newTrace unparsed_command_Env execution_Tracer)"

definition unparsed_started :: "scripted trace" where
  "unparsed_started =
     fst (do_command unparsed_command_Env Continue ''failed starting execution'' unparsed_new)"

section \<open>Configuration is validated before anything is started\<close>

lemma last_index_from_absent:
  "c \<notin> set s \<Longrightarrow> last_index_from i s [c] = - 1"
  by (induction s arbitrary: i) (auto simp: Let_def)

text \<open>
  Claim C3. \<^verbatim>\<open>New\<close> returns an error for every configuration in which both the
  execution and the history file are set, for every one in which neither is set, and for
  every one whose single workflow function has no dot. \<^verbatim>\<open>New\<close> is a function of
  the configuration alone, so nothing has been created when it returns: the temporary
  directory, the build and the debugger belong to \<^verbatim>\<open>Trace\<close>, which needs the
  tracer that \<^verbatim>\<open>New\<close> did not return.
\<close>

theorem New_rejects:
  "(Execution config = None \<and> HistoryFile config = [] \<longrightarrow>
      New config = Inl (Err ''must have existing execution or history file'')) \<and>
   (Execution config \<noteq> None \<and> HistoryFile config \<noteq> [] \<longrightarrow>
      New config = Inl (Err ''cannot have both execution and history file'')) \<and>
   (WorkflowFuncs config = [f] \<and> CHR ''.'' \<notin> set f \<longrightarrow> (\<exists>e. New config = Inl e))"
  by (auto simp: New_def Let_def strings_LastIndex_def last_index_from_absent)

theorem New_rejects_witness:
  "New (example_Config\<lparr>HistoryFile := []\<rparr>) =
     Inl (Err ''must have existing execution or history file'') \<and>
   New (example_Config\<lparr>Execution := Some \<lparr>ExecutionID = ''wf'', RunID = []\<rparr>\<rparr>) =
     Inl (Err ''cannot have both execution and history file'') \<and>
   (\<exists>e. New (example_Config\<lparr>WorkflowFuncs := [''MyWorkflow'']\<rparr>) = Inl e)"
  using New_rejects [of "example_Config\<lparr>HistoryFile := []\<rparr>" "[]"]
        New_rejects [of "example_Config\<lparr>Execution := Some \<lparr>ExecutionID = ''wf'', RunID = []\<rparr>\<rparr>" "[]"]
        New_rejects [of "example_Config\<lparr>WorkflowFuncs := [''MyWorkflow'']\<rparr>" "''MyWorkflow''"]
  by (simp add: example_Config_def)

text \<open>A configuration with one identity source and a qualified function is accepted.\<close>

lemma New_accepts_example:
  "\<exists>t. New example_Config = Inr t \<and> fnPkg t = ''example.com/pkg'' \<and> fn t = ''MyWorkflow''"
  by (simp add: New_def example_Config_def strings_LastIndex_def Let_def
      Config.extend_def Tracer.fields_def)

section \<open>Text encoding of the enumerations\<close>

text \<open>
  Claim C10. For an enumeration value that has a name in the protocol's name table,
  \<^verbatim>\<open>UnmarshalText\<close> of the output of \<^verbatim>\<open>MarshalText\<close> gives the value back,
  for \<^verbatim>\<open>EventServerType\<close> and for \<^verbatim>\<open>EventClientCommandType\<close>, where the
  value table maps every name of the name table back to its number. For every text
  \<^verbatim>\<open>UnmarshalText\<close> returns no error, and a text that the value table does not
  have gives the zero value.
\<close>

theorem enum_text_roundtrip:
  "((\<forall>x n. names x = Some n \<longrightarrow> vals n = Some x) \<and> names v = Some s \<longrightarrow>
      EventServerType_UnmarshalText vals (fst (EventServerType_MarshalText names v)) =
        (v, None)) \<and>
   ((\<forall>x n. cnames x = Some n \<longrightarrow> cvals n = Some x) \<and> cnames c = Some s' \<longrightarrow>
      EventClientCommandType_UnmarshalText cvals
        (fst (EventClientCommandType_MarshalText cnames c)) = (c, None)) \<and>
   snd (EventServerType_UnmarshalText vals text) = None \<and>
   snd (EventClientCommandType_UnmarshalText cvals text) = None \<and>
   (vals text = None \<longrightarrow> fst (EventServerType_UnmarshalText vals text) = 0) \<and>
   (cvals text = None \<longrightarrow> fst (EventClientCommandType_UnmarshalText cvals text) = 0)"
  by (auto simp: EventServerType_UnmarshalText_def EventServerType_MarshalText_def
      EventServerType_String_def EventClientCommandType_UnmarshalText_def
      EventClientCommandType_MarshalText_def EventClientCommandType_String_def enum_String_def)

theorem enum_text_roundtrip_witness:
  "EventServerType_UnmarshalText example_values
     (fst (EventServerType_MarshalText example_names 1)) = (1, None) \<and>
   EventClientCommandType_UnmarshalText example_values
     (fst (EventClientCommandType_MarshalText example_names 1)) = (1, None) \<and>
   EventServerType_UnmarshalText example_values ''NoSuchName'' = (0, None) \<and>
   EventClientCommandType_UnmarshalText example_values ''NoSuchName'' = (0, None)"
proof -
  have tables: "\<forall>x n. example_names x = Some n \<longrightarrow> example_values n = Some x"
    by (simp add: example_names_def example_values_def)
  have named: "example_names 1 = Some ''WorkflowExecutionStarted''"
    by (simp add: example_names_def)
  have absent: "example_values ''NoSuchName'' = None"
    by (simp add: example_values_def)
  show ?thesis
    using enum_text_roundtrip [of example_names example_values 1 "''WorkflowExecutionStarted''"
        example_names example_values 1 "''WorkflowExecutionStarted''" "''NoSuchName''"]
      tables named absent
    by (simp add: prod_eq_iff)
qed

section \<open>What the handlers and the loop change\<close>

lemma append_event_simps [simp]:
  "Events (result (append_event e t)) = Events (result t) @ [e]"
  "state (append_event e t) = state t"
  "debug (append_event e t) = debug t"
  "coroutineNames (append_event e t) = coroutineNames t"
  "breakpoints (append_event e t) = breakpoints t"
  by (simp_all add: append_event_def)

lemma onProcessEvent_failure: "onProcessEvent E t = (t', Some e) \<Longrightarrow> t' = t"
  by (auto simp: onProcessEvent_def split: sum.splits)

lemma onProcessEvent_success:
  "onProcessEvent E t = (t', None) \<Longrightarrow>
     \<exists>ev. t' = append_event \<lparr>Server = Some ev, Client = None, Code = None\<rparr> t"
  by (auto simp: onProcessEvent_def split: sum.splits)

lemma onReplayCommands_failure: "onReplayCommands E t = (t', Some e) \<Longrightarrow> t' = t"
  by (auto simp: onReplayCommands_def split: sum.splits if_splits)

lemma onReplayCommands_success:
  "onReplayCommands E t = (t', None) \<Longrightarrow>
     t' = t \<or>
     (\<exists>cs. cs \<noteq> [] \<and>
        t' = append_event \<lparr>Server = None, Client = Some \<lparr>Commands = cs\<rparr>, Code = None\<rparr> t)"
  by (auto simp: onReplayCommands_def split: sum.splits if_splits)

lemma populateCoroutineName_failure: "populateCoroutineName E t = (t', Some e) \<Longrightarrow> t' = t"
  by (auto simp: populateCoroutineName_def split: sum.splits option.splits)

lemma populateCoroutineName_success:
  "populateCoroutineName E t = (t', None) \<Longrightarrow>
     t' = t \<or>
     (\<exists>th v. current_thread t = Inr th \<and>
        t' = t\<lparr>coroutineNames := (coroutineNames t)(GoroutineID th \<mapsto> v)\<rparr>)"
  by (auto simp: populateCoroutineName_def split: sum.splits option.splits)

text \<open>What a handler may change: it appends at most one event and may name the current unit.\<close>

lemma call_handler_frame:
  assumes "call_handler E h t = (t', r)"
  shows "state t' = state t \<and> debug t' = debug t \<and> breakpoints t' = breakpoints t"
  using assms
  by (cases h; cases r)
     (auto simp: call_handler_def dest!: onProcessEvent_failure onProcessEvent_success
        onReplayCommands_failure onReplayCommands_success
        populateCoroutineName_failure populateCoroutineName_success)

lemma call_handler_events:
  assumes "call_handler E h t = (t', r)"
  shows "\<exists>new. Events (result t') = Events (result t) @ new \<and> length new \<le> 1 \<and>
           (\<forall>e \<in> set new. Code e = None \<and> (\<forall>c. Client e = Some c \<longrightarrow> Commands c \<noteq> []))"
  using assms
  by (cases h; cases r)
     (auto simp: call_handler_def dest!: onProcessEvent_failure onProcessEvent_success
        onReplayCommands_failure onReplayCommands_success
        populateCoroutineName_failure populateCoroutineName_success)


lemma hit_breakpoint_frame:
  assumes "hit_breakpoint E th t = (t', r)"
  shows "state t' = state t \<and> debug t' = debug t \<and> breakpoints t' = breakpoints t"
  using assms
  by (auto simp: hit_breakpoint_def split: option.splits dest: call_handler_frame)

lemma hit_breakpoint_events:
  assumes "hit_breakpoint E th t = (t', r)"
  shows "\<exists>new. Events (result t') = Events (result t) @ new \<and> length new \<le> 1 \<and>
           (\<forall>e \<in> set new. Code e = None \<and> (\<forall>c. Client e = Some c \<longrightarrow> Commands c \<noteq> []))"
  using assms
  by (auto simp: hit_breakpoint_def split: option.splits dest: call_handler_events)

lemma cancel_next_frame:
  assumes "cancel_next E st t = (t', r)"
  shows "result t' = result t \<and> state t' = state t \<and> coroutineNames t' = coroutineNames t \<and>
         breakpoints t' = breakpoints t"
  using assms by (auto simp: cancel_next_def split: if_splits prod.splits option.splits)

lemma do_command_frame:
  assumes "do_command E c msg t = (t', r)"
  shows "result t' = result t \<and> coroutineNames t' = coroutineNames t \<and>
         breakpoints t' = breakpoints t"
  using assms by (auto simp: do_command_def split: prod.splits sum.splits)

lemma step_out_frame:
  assumes "step_out E th t = (t', r)"
  shows "result t' = result t \<and> coroutineNames t' = coroutineNames t \<and>
         breakpoints t' = breakpoints t"
  using assms by (auto simp: step_out_def split: if_splits dest: do_command_frame)

lemma record_code_events:
  "\<exists>new. Events (result (record_code E th t)) = Events (result t) @ new \<and> length new \<le> 1 \<and>
         (\<forall>e \<in> set new. Client e = None \<and> Server e = None)"
  by (simp add: record_code_def)

lemma record_code_frame [simp]:
  "coroutineNames (record_code E th t) = coroutineNames t"
  "breakpoints (record_code E th t) = breakpoints t"
  "state (record_code E th t) = state t"
  "debug (record_code E th t) = debug t"
  by (simp_all add: record_code_def)

text \<open>The pieces of one turn of the loop that ends without an error or with one.\<close>

lemma run_body_cases:
  assumes "run_body E t = (t', r)"
  obtains (panic) "t' = t" "r \<noteq> None"
  | (turn) st th t1 r1 t2 r2 where "state t = Some st" "CurrentThread st = Some th"
      "hit_breakpoint E th t = (t1, r1)"
      "r1 \<noteq> None \<Longrightarrow> t' = t1 \<and> r = r1"
      "r1 = None \<Longrightarrow> cancel_next E st t1 = (t2, r2)"
      "r1 = None \<Longrightarrow> r2 \<noteq> None \<Longrightarrow> t' = t2 \<and> r = r2"
      "r1 = None \<Longrightarrow> r2 = None \<Longrightarrow> goStdOrTemporal E th \<Longrightarrow> step_out E th t2 = (t', r)"
      "r1 = None \<Longrightarrow> r2 = None \<Longrightarrow> \<not> goStdOrTemporal E th \<Longrightarrow>
         do_command E Step ''failed stepping'' (record_code E th t2) = (t', r)"
proof (cases "state t")
  case None
  with assms have "t' = t" "r \<noteq> None" by (auto simp: run_body_def)
  then show ?thesis by (rule panic)
next
  case (Some st)
  note st = this
  show ?thesis
  proof (cases "CurrentThread st")
    case None
    with assms st have "t' = t" "r \<noteq> None" by (auto simp: run_body_def)
    then show ?thesis by (rule panic)
  next
    case (Some th)
    obtain t1 r1 where hb: "hit_breakpoint E th t = (t1, r1)"
      by (cases "hit_breakpoint E th t")
    obtain t2 r2 where cn: "cancel_next E st t1 = (t2, r2)"
      by (cases "cancel_next E st t1")
    show ?thesis
      using assms st Some hb cn
      by (intro turn [of st th t1 r1 t2 r2])
         (auto simp: run_body_def split: option.splits if_splits)
  qed
qed

lemma run_body_events:
  assumes "run_body E t = (t', r)"
  shows "\<exists>new. Events (result t') = Events (result t) @ new \<and> length new \<le> 2 \<and>
           (\<forall>e \<in> set new. \<forall>c. Client e = Some c \<longrightarrow> Commands c \<noteq> [])"
  using assms
proof (cases rule: run_body_cases)
  case panic
  then show ?thesis by simp
next
  case (turn st th t1 r1 t2 r2)
  from hit_breakpoint_events [OF turn(3)] obtain new1 where
    new1: "Events (result t1) = Events (result t) @ new1" "length new1 \<le> 1"
      "\<forall>e \<in> set new1. \<forall>c. Client e = Some c \<longrightarrow> Commands c \<noteq> []"
    by blast
  show ?thesis
  proof (cases r1)
    case (Some e)
    with turn(4) new1 show ?thesis by auto
  next
    case None
    note r1 = this
    from cancel_next_frame [OF turn(5) [OF r1]] have t2: "result t2 = result t1" by simp
    show ?thesis
    proof (cases r2)
      case (Some e)
      with turn(6) r1 t2 new1 show ?thesis by auto
    next
      case None
      note r2 = this
      show ?thesis
      proof (cases "goStdOrTemporal E th")
        case True
        from step_out_frame [OF turn(7) [OF r1 r2 True]] t2 new1 show ?thesis by auto
      next
        case False
        from record_code_events [of E th t2] obtain new2 where
          new2: "Events (result (record_code E th t2)) = Events (result t2) @ new2"
            "length new2 \<le> 1" "\<forall>e \<in> set new2. Client e = None"
          by blast
        from do_command_frame [OF turn(8) [OF r1 r2 False]]
        have "Events (result t') = Events (result t) @ (new1 @ new2)"
          using new2 t2 new1 by simp
        moreover have "length (new1 @ new2) \<le> 2"
          using new1 new2 by simp
        moreover have "\<forall>e \<in> set (new1 @ new2). \<forall>c. Client e = Some c \<longrightarrow> Commands c \<noteq> []"
          using new1 new2 by auto
        ultimately show ?thesis by blast
      qed
    qed
  qed
qed

text \<open>A property that every turn of the loop keeps holds when the loop is left.\<close>

lemma run_loop_invariant:
  assumes run: "run_loop E t = Some (t', r)"
    and init: "P t"
    and step: "\<And>t t1 r. P t \<Longrightarrow> run_body E t = (t1, r) \<Longrightarrow> P t1"
  shows "P t'"
proof -
  have "E' = E \<longrightarrow> P t \<longrightarrow> P (fst y)" if "run_loop E' t = Some y" for E' t y
  proof (rule run_loop.raw_induct
      [where P = "\<lambda>E' t y. E' = E \<longrightarrow> P t \<longrightarrow> P (fst y)", OF _ that], goal_cases)
    case (1 f E' t y)
    show ?case
    proof (intro impI)
      assume E: "E' = E" and P: "P t"
      obtain t1 r1 where body: "run_body E t = (t1, r1)"
        by (cases "run_body E t")
      have P1: "P t1"
        using step [OF P body] .
      show "P (fst y)"
      proof (cases "state t")
        case None
        with 1(2) P show ?thesis by auto
      next
        case (Some st)
        show ?thesis
        proof (cases "Exited st")
          case True
          with 1(2) Some P show ?thesis by auto
        next
          case False
          show ?thesis
          proof (cases r1)
            case None
            with 1(2) Some False body E have "f E t1 = Some y" by simp
            with 1(1) P1 show ?thesis by (cases y) auto
          next
            case (Some e)
            with 1(2) \<open>state t = Some st\<close> False body E have "y = (t1, Some e)" by simp
            with P1 show ?thesis by simp
          qed
        qed
      qed
    qed
  qed
  from this [OF run] init show ?thesis by simp
qed

lemma create_and_register_result [simp]:
  "result (fst (create_and_register E req h t)) = result t"
  by (auto simp: create_and_register_def split: prod.splits sum.splits)

lemma get_source_result:
  "get_source E file t = Inr (source, t') \<Longrightarrow> result t' = result t"
  by (auto simp: get_source_def Let_def split: if_splits sum.splits)

lemma addFileLineBreakpoint_result [simp]:
  "result (fst (addFileLineBreakpoint E fileRegex codeToMatch h t)) = result t"
proof (cases "RegexpCompile E fileRegex")
  case (Inl e)
  then show ?thesis by (simp add: addFileLineBreakpoint_def)
next
  case (Inr fileRegexp)
  note re = this
  show ?thesis
  proof (cases "find_file fileRegexp fileRegex [] (Sources E (debug t))")
    case (Inl e)
    with re show ?thesis by (simp add: addFileLineBreakpoint_def)
  next
    case (Inr path)
    note path = this
    show ?thesis
    proof (cases "get_source E path t")
      case (Inl e)
      with re path show ?thesis by (simp add: addFileLineBreakpoint_def)
    next
      case (Inr p)
      obtain source t1 where p: "p = (source, t1)" by (cases p)
      from get_source_result [of E path t source t1] Inr p have "result t1 = result t" by simp
      with re path Inr p show ?thesis
        by (simp add: addFileLineBreakpoint_def Let_def)
    qed
  qed
qed

lemma addFuncBreakpoint_result [simp]:
  "result (fst (addFuncBreakpoint E fn_name h t)) = result t"
  by (simp add: addFuncBreakpoint_def)

lemma if_no_error_result:
  assumes "\<And>t. result (fst (f t)) = result t"
  shows "result (fst (if_no_error f r0)) = result (fst r0)"
  using assms by (cases r0) (auto simp: if_no_error_def split: option.splits)

lemma newTrace_events:
  assumes "newTrace E tr = Inr t"
  shows "Events (result t) = []"
proof -
  from assms obtain d where d: "DebuggerNew E = Inr d"
    by (auto simp: newTrace_def split: sum.splits)
  define r1 where "r1 = addFuncBreakpoint E (fnPkg tr @ ''.'' @ fn tr) None (fresh_trace tr d)"
  define r2 where "r2 = if_no_error
                      (addFileLineBreakpoint E matchInternalEventHandlers
                         (TAB # ''if event == nil {'') (Some H_onProcessEvent)) r1"
  define r3 where "r3 = if_no_error
                      (addFileLineBreakpoint E matchInternalTaskHandlers
                         ''if len(eventCommands) > 0 && !skipReplayCheck {''
                         (Some H_onReplayCommands)) r2"
  define r4 where "r4 = if_no_error
                      (addFileLineBreakpoint E matchInternalWorkflow
                         (TAB # TAB # ''f(spawned)'') (Some H_populateCoroutineName)) r3"
  define r5 where "r5 = if_no_error
                      (addFileLineBreakpoint E matchInternalWorkflow
                         (TAB # ''s.blocked.Swap(false)'') None) r4"
  have e1: "result (fst r1) = result (fresh_trace tr d)"
    unfolding r1_def by simp
  have e2: "result (fst r2) = result (fst r1)"
    unfolding r2_def by (rule if_no_error_result) simp
  have e3: "result (fst r3) = result (fst r2)"
    unfolding r3_def by (rule if_no_error_result) simp
  have e4: "result (fst r4) = result (fst r3)"
    unfolding r4_def by (rule if_no_error_result) simp
  have e5: "result (fst r5) = result (fst r4)"
    unfolding r5_def by (rule if_no_error_result) simp
  have "newTrace E tr = (case r5 of (t5, Some e) \<Rightarrow> Inl e | (t5, None) \<Rightarrow> Inr t5)"
    unfolding newTrace_def r5_def r4_def r3_def r2_def r1_def Let_def by (simp add: d)
  with assms have "t = fst r5"
    by (cases r5) (auto split: option.splits)
  with e1 e2 e3 e4 e5 show ?thesis
    by (simp add: fresh_trace_def)
qed

lemma run_events:
  assumes "run E t = Some (t', r)"
  shows "\<forall>e \<in> set (Events (result t)). \<forall>c. Client e = Some c \<longrightarrow> Commands c \<noteq> [] \<Longrightarrow>
         \<forall>e \<in> set (Events (result t')). \<forall>c. Client e = Some c \<longrightarrow> Commands c \<noteq> []"
proof -
  assume init: "\<forall>e \<in> set (Events (result t)). \<forall>c. Client e = Some c \<longrightarrow> Commands c \<noteq> []"
  let ?P = "\<lambda>t. \<forall>e \<in> set (Events (result t)). \<forall>c. Client e = Some c \<longrightarrow> Commands c \<noteq> []"
  obtain t0 r0 where c: "do_command E Continue ''failed starting execution'' t = (t0, r0)"
    by (cases "do_command E Continue ''failed starting execution'' t")
  from do_command_frame [OF c] init have P0: "?P t0" by simp
  show ?thesis
  proof (cases r0)
    case (Some e)
    with assms c P0 show ?thesis by (simp add: run_def)
  next
    case None
    with assms c obtain r' where loop: "run_loop E t0 = Some (t', r')"
      by (auto simp: run_def split: option.splits)
    show ?thesis
    proof (rule run_loop_invariant [OF loop, where P = ?P])
      show "?P t0" by (rule P0)
    next
      fix t t1 r
      assume "?P t" and "run_body E t = (t1, r)"
      with run_body_events [of E t t1 r] show "?P t1" by auto
    qed
  qed
qed

section \<open>A traced run\<close>

lemmas example_defs = example_session_def commands_stop_def commands_frame_def command_var_def
  last_stop_session_def started_event_frame_def
  example_registry_def registered_def other_frame_def
  naming_stop_def naming_frame_def event_stop_def event_frame_def user_stop_def user_frame_def
  failing_frame_def stop_at_def fresh_trace_def scripted_init_def example_Env_def scripted_Env_def
  leaf_def current_thread_def


text \<open>The scripted run: a unit is named, an event is dispatched, two lines of the
  workflow are stepped, a batch of two commands is sent, and the process exits with
  status 2.\<close>

lemma example_run_full:
  "(case newTrace example_Env example_Tracer of
      Inl e \<Rightarrow> None
    | Inr t \<Rightarrow> map_option (\<lambda>(t', r). (state t', result t', r)) (run example_Env t)) =
   Some (Some (exited 2), \<lparr>Events = example_Events\<rparr>, Some (ErrExitStatus 2))"
  by code_simp

lemma trace_close_result [simp]: "result (trace_close E t) = result t"
  by (simp add: trace_close_def Let_def)

lemma example_run:
  "Trace example_Env None example_Tracer =
     Some (Some \<lparr>Events = example_Events\<rparr>, Some (ErrExitStatus 2))"
  using example_run_full
  by (auto simp: Trace_def split: sum.splits option.splits)

text \<open>A run of one step from a session that already holds an event.\<close>

lemma short_run:
  "map_option (\<lambda>(t, r). (state t, Events (result t), r)) (run example_Env short_session) =
     Some (Some (exited 0),
           [prior_event,
            \<lparr>Server = None, Client = None,
             Code = Some \<lparr>Package = ''example.com/pkg'', File = ''/home/u/app/workflow.go'',
                          Line = 12, Coroutine = []\<rparr>\<rparr>], None)"
  by code_simp

section \<open>Command batches\<close>

text \<open>
  Claim C9. At the breakpoint of the command handler, a command batch is appended to the
  result exactly when the list of commands that the handler read is not empty (and
  nothing is appended when reading fails); so every command batch of every result that
  \<^verbatim>\<open>Trace\<close> returns has at least one command.
\<close>

theorem command_batch_nonempty:
  "(current_thread t = Inr th \<and> LocalVariables E (GoroutineID th) (debug t) = Inr vars \<and>
    onReplayCommands_args [] vars = Inr commands \<longrightarrow>
      onReplayCommands E t =
        (if commands \<noteq> [] then
           append_event \<lparr>Server = None, Client = Some \<lparr>Commands = commands\<rparr>, Code = None\<rparr> t
         else t, None)) \<and>
   (onReplayCommands E t = (t', Some e) \<longrightarrow> t' = t) \<and>
   (Trace E prepared tr = Some (Some res, err) \<longrightarrow>
      (\<forall>ev \<in> set (Events res). \<forall>c. Client ev = Some c \<longrightarrow> Commands c \<noteq> []))"
proof (intro conjI impI)
  assume "current_thread t = Inr th \<and> LocalVariables E (GoroutineID th) (debug t) = Inr vars \<and>
    onReplayCommands_args [] vars = Inr commands"
  then show "onReplayCommands E t =
        (if commands \<noteq> [] then
           append_event \<lparr>Server = None, Client = Some \<lparr>Commands = commands\<rparr>, Code = None\<rparr> t
         else t, None)"
    by (simp add: onReplayCommands_def)
next
  assume "onReplayCommands E t = (t', Some e)"
  then show "t' = t" by (rule onReplayCommands_failure)
next
  assume tr: "Trace E prepared tr = Some (Some res, err)"
  then obtain t0 where new: "newTrace E tr = Inr t0"
    by (auto simp: Trace_def split: option.splits sum.splits)
  with tr obtain t1 where run: "run E t0 = Some (t1, err)" and res: "res = result (trace_close E t1)"
    by (auto simp: Trace_def split: option.splits sum.splits)
  have "\<forall>e \<in> set (Events (result t1)). \<forall>c. Client e = Some c \<longrightarrow> Commands c \<noteq> []"
    using run_events [OF run] newTrace_events [OF new] by simp
  then show "\<forall>ev \<in> set (Events res). \<forall>c. Client ev = Some c \<longrightarrow> Commands c \<noteq> []"
    by (simp add: res trace_close_def Let_def)
qed

theorem command_batch_nonempty_witness:
  "onReplayCommands example_Env
     (example_session commands_stop
        (commands_frame [command_var ''ScheduleActivityTask (1)'', command_var ''StartTimer (5)''])) =
     (append_event \<lparr>Server = None, Client = Some \<lparr>Commands = [1, 5]\<rparr>, Code = None\<rparr>
        (example_session commands_stop
           (commands_frame [command_var ''ScheduleActivityTask (1)'', command_var ''StartTimer (5)''])),
      None) \<and>
   onReplayCommands example_Env (example_session commands_stop (commands_frame [])) =
     (example_session commands_stop (commands_frame []), None) \<and>
   fst (onReplayCommands example_Env (example_session commands_stop failing_frame)) =
     example_session commands_stop failing_frame \<and>
   map_option Commands (Client (example_Events ! 3)) = Some [1, 5] \<and>
   Commands (the (Client (example_Events ! 3))) \<noteq> []"
proof -
  let ?vs = "[command_var ''ScheduleActivityTask (1)'', command_var ''StartTimer (5)'']"
  let ?th = "\<lparr>ThFile = sdk_dir @ ''internal_task_handlers.go'', ThLine = 2,
        Function_Name = ''go.temporal.io/sdk/internal.(*workflowTaskHandlerImpl).ProcessWorkflowTask'',
        GoroutineID = 1,
        Breakpoint = Some \<lparr>BpID = 3, BpFunctionName = [],
          BpFile = sdk_dir @ ''internal_task_handlers.go'', BpLine = 2\<rparr>\<rparr>"
  have th: "current_thread (example_session commands_stop f) = Inr ?th" for f
    by (simp add: example_defs)
  have vars: "LocalVariables example_Env (GoroutineID ?th)
                (debug (example_session commands_stop (commands_frame cs))) =
              Inr [Variable ''eventCommands'' [] cs]" for cs
    by (simp add: example_defs)
  have two: "onReplayCommands_args [] [Variable ''eventCommands'' [] ?vs] = Inr [1, 5]"
    by (simp add: command_var_def leaf_def intInTrailingParens_def strings_Index_def
        strings_HasSuffix_def suffix_to_prefix strconv_Atoi_def strconv_ParseInt_def
        digit_of_def Let_def)
  have none: "onReplayCommands_args [] [Variable ''eventCommands'' [] []] = Inr []"
    by simp
  have fails: "onReplayCommands example_Env (example_session commands_stop failing_frame) =
                 (example_session commands_stop failing_frame,
                  Some (ErrWrap ''failed loading vars'' (External ''could not find goroutine'')))"
    by (simp add: onReplayCommands_def th) (simp add: example_defs)
  have run: "Trace example_Env None example_Tracer =
               Some (Some \<lparr>Events = example_Events\<rparr>, Some (ErrExitStatus 2))"
    by (rule example_run)
  have third: "example_Events ! 3 \<in> set example_Events"
    "Client (example_Events ! 3) = Some \<lparr>Commands = [1, 5]\<rparr>"
    by (simp_all add: example_Events_def)
  have all: "\<forall>ev \<in> set example_Events. \<forall>c. Client ev = Some c \<longrightarrow> Commands c \<noteq> []"
    using command_batch_nonempty [of "example_session commands_stop (commands_frame ?vs)" ?th
        example_Env "[Variable ''eventCommands'' [] ?vs]" "[1, 5]"
        "example_session commands_stop failing_frame"
        "ErrWrap ''failed loading vars'' (External ''could not find goroutine'')"
        None example_Tracer "\<lparr>Events = example_Events\<rparr>" "Some (ErrExitStatus 2)"] run
    by simp
  have batch: "Commands (the (Client (example_Events ! 3))) \<noteq> []"
    using all third by auto
  have a1: "onReplayCommands example_Env (example_session commands_stop (commands_frame ?vs)) =
     (append_event \<lparr>Server = None, Client = Some \<lparr>Commands = [1, 5]\<rparr>, Code = None\<rparr>
        (example_session commands_stop (commands_frame ?vs)), None)"
    using command_batch_nonempty [of "example_session commands_stop (commands_frame ?vs)" ?th
        example_Env "[Variable ''eventCommands'' [] ?vs]" "[1, 5]", THEN conjunct1]
      th vars two
    by simp
  have a2: "onReplayCommands example_Env (example_session commands_stop (commands_frame [])) =
     (example_session commands_stop (commands_frame []), None)"
    using command_batch_nonempty [of "example_session commands_stop (commands_frame [])" ?th
        example_Env "[Variable ''eventCommands'' [] []]" "[]", THEN conjunct1]
      th vars none
    by simp
  have a3: "fst (onReplayCommands example_Env (example_session commands_stop failing_frame)) =
     example_session commands_stop failing_frame"
    using command_batch_nonempty [of "example_session commands_stop failing_frame" ?th
        example_Env "[]" "[]" "example_session commands_stop failing_frame"
        "ErrWrap ''failed loading vars'' (External ''could not find goroutine'')",
        THEN conjunct2, THEN conjunct1] fails
    by simp
  from a1 a2 a3 third(2) batch show ?thesis by simp
qed

section \<open>The order of the events\<close>

lemma run_body_prefix:
  "run_body E t = (t', r) \<Longrightarrow> prefix (Events (result t)) (Events (result t'))"
  using run_body_events [of E t t' r] by auto

lemma run_prefix:
  assumes "run E t = Some (t', r)"
  shows "prefix (Events (result t)) (Events (result t'))"
proof -
  obtain t0 r0 where c: "do_command E Continue ''failed starting execution'' t = (t0, r0)"
    by (cases "do_command E Continue ''failed starting execution'' t")
  from do_command_frame [OF c] have t0: "result t0 = result t" by simp
  show ?thesis
  proof (cases r0)
    case (Some e)
    with assms c t0 show ?thesis by (simp add: run_def)
  next
    case None
    with assms c obtain r' where loop: "run_loop E t0 = Some (t', r')"
      by (auto simp: run_def split: option.splits)
    have "prefix (Events (result t)) (Events (result t'))"
    proof (rule run_loop_invariant [OF loop, where P = "\<lambda>s. prefix (Events (result t)) (Events (result s))"])
      show "prefix (Events (result t)) (Events (result t0))" by (simp add: t0)
    next
      fix s s1 r
      assume "prefix (Events (result t)) (Events (result s))" and "run_body E s = (s1, r)"
      then show "prefix (Events (result t)) (Events (result s1))"
        using run_body_prefix [of E s s1 r] by (meson prefix_order.trans)
    qed
    then show ?thesis .
  qed
qed

text \<open>
  Claim C8, as stated, fails: not every handler invocation appends exactly one event. The
  handler that names a unit returns without an error at its breakpoint and the result
  has as many events as before.
\<close>

theorem naming_appends_no_event:
  "snd (call_handler example_Env H_populateCoroutineName
          (example_session naming_stop (naming_frame ''root''))) = None \<and>
   length (Events (result (fst (call_handler example_Env H_populateCoroutineName
          (example_session naming_stop (naming_frame ''root'')))))) \<noteq>
   length (Events (result (example_session naming_stop (naming_frame ''root'')))) + 1"
  by (simp add: call_handler_def populateCoroutineName_def example_defs)

text \<open>
  Claim C8, amended. The events of the result only grow at the end, in the order of the
  observations: a handler invocation appends at most one event (the event handler
  exactly one when it returns no error, the naming handler none), a code step appends
  exactly one, whatever the result already holds, and the events that a turn of the loop
  or a whole run starts with are a prefix of the events it ends with; nothing is sorted,
  merged or dropped.
\<close>

theorem events_append_only:
  "(call_handler E h t = (t', r) \<longrightarrow>
      (\<exists>new. Events (result t') = Events (result t) @ new \<and> length new \<le> 1)) \<and>
   (onProcessEvent E t = (t', None) \<longrightarrow>
      (\<exists>ev. Events (result t') =
             Events (result t) @ [\<lparr>Server = Some ev, Client = None, Code = None\<rparr>])) \<and>
   (populateCoroutineName E t = (t', r) \<longrightarrow> Events (result t') = Events (result t)) \<and>
   (ThFile th \<noteq> [] \<and> \<not> goStdOrTemporal E th \<longrightarrow>
      Events (result (record_code E th t)) =
        Events (result t) @
          [\<lparr>Server = None, Client = None,
            Code = Some \<lparr>Package = CurrentPackage E (debug t), File = ThFile th,
                         Line = ThLine th,
                         Coroutine = map_get (coroutineNames t) (GoroutineID th)\<rparr>\<rparr>]) \<and>
   (run_body E t = (t', r) \<longrightarrow> prefix (Events (result t)) (Events (result t'))) \<and>
   (run E t = Some (t', r) \<longrightarrow> prefix (Events (result t)) (Events (result t')))"
proof (intro conjI impI)
  assume "call_handler E h t = (t', r)"
  from call_handler_events [OF this]
  show "\<exists>new. Events (result t') = Events (result t) @ new \<and> length new \<le> 1" by blast
next
  assume "onProcessEvent E t = (t', None)"
  from onProcessEvent_success [OF this]
  show "\<exists>ev. Events (result t') =
             Events (result t) @ [\<lparr>Server = Some ev, Client = None, Code = None\<rparr>]" by auto
next
  assume "populateCoroutineName E t = (t', r)"
  then show "Events (result t') = Events (result t)"
    by (cases r) (auto dest: populateCoroutineName_failure populateCoroutineName_success)
next
  assume "ThFile th \<noteq> [] \<and> \<not> goStdOrTemporal E th"
  then show "Events (result (record_code E th t)) =
        Events (result t) @
          [\<lparr>Server = None, Client = None,
            Code = Some \<lparr>Package = CurrentPackage E (debug t), File = ThFile th,
                         Line = ThLine th,
                         Coroutine = map_get (coroutineNames t) (GoroutineID th)\<rparr>\<rparr>]"
    by (simp add: record_code_def)
next
  assume "run_body E t = (t', r)"
  then show "prefix (Events (result t)) (Events (result t'))" by (rule run_body_prefix)
next
  assume "run E t = Some (t', r)"
  then show "prefix (Events (result t)) (Events (result t'))" by (rule run_prefix)
qed

theorem events_append_only_witness:
  "length (Events (result (fst (call_handler example_Env H_onReplayCommands
      (example_session commands_stop (commands_frame [command_var ''StartTimer (5)'']))))))
     \<le> length (Events (result
           (example_session commands_stop (commands_frame [command_var ''StartTimer (5)''])))) + 1 \<and>
   Events (result (fst (onProcessEvent example_Env
      (example_session (event_stop False) (event_frame [leaf ''EventId'' ''1''])))))
     = [\<lparr>Server = Some \<lparr>ID = 1, Type = 0\<rparr>, Client = None, Code = None\<rparr>] \<and>
   Events (result (fst (populateCoroutineName example_Env
      (example_session naming_stop (naming_frame ''root''))))) = [] \<and>
   Events (result (record_code example_Env (the (CurrentThread (user_stop 12 None False)))
      (example_session (user_stop 12 None False) user_frame)))
     = [\<lparr>Server = None, Client = None,
         Code = Some \<lparr>Package = ''example.com/pkg'', File = ''/home/u/app/workflow.go'',
                      Line = 12, Coroutine = []\<rparr>\<rparr>] \<and>
   prefix (Events (result (example_session (user_stop 12 None False) user_frame)))
     (Events (result (fst (run_body example_Env
        (example_session (user_stop 12 None False) user_frame))))) \<and>
   prefix [prior_event] (Events (result (fst (the (run example_Env short_session)))))"
proof -
  let ?E = example_Env
  let ?c = "example_session commands_stop (commands_frame [command_var ''StartTimer (5)''])"
  let ?e = "example_session (event_stop False) (event_frame [leaf ''EventId'' ''1''])"
  let ?n = "example_session naming_stop (naming_frame ''root'')"
  let ?u = "example_session (user_stop 12 None False) user_frame"
  let ?th = "the (CurrentThread (user_stop 12 None False))"
  have h1: "call_handler ?E H_onReplayCommands ?c =
              (fst (call_handler ?E H_onReplayCommands ?c), snd (call_handler ?E H_onReplayCommands ?c))"
    by simp
  have h2: "onProcessEvent ?E ?e =
              (append_event \<lparr>Server = Some \<lparr>ID = 1, Type = 0\<rparr>, Client = None, Code = None\<rparr> ?e, None)"
    by (simp add: onProcessEvent_def example_defs strconv_ParseInt_def digit_of_def)
  have h3: "populateCoroutineName ?E ?n =
              (fst (populateCoroutineName ?E ?n), snd (populateCoroutineName ?E ?n))"
    by simp
  have h4: "ThFile ?th \<noteq> [] \<and> \<not> goStdOrTemporal ?E ?th"
    by (simp add: example_defs goStdOrTemporal_def strings_HasPrefix_def ToSlash_def)
  have h5: "run_body ?E ?u = (fst (run_body ?E ?u), snd (run_body ?E ?u))"
    by simp
  from short_run obtain t' where h6: "run ?E short_session = Some (t', None)"
    by (cases "run ?E short_session") auto
  have e0: "Events (result ?e) = []" "Events (result ?n) = []" "Events (result ?u) = []"
    "Events (result short_session) = [prior_event]"
    by (simp_all add: example_defs short_session_def)
  have v4: "CurrentPackage ?E (debug ?u) = ''example.com/pkg''" "ThFile ?th = ''/home/u/app/workflow.go''"
    "ThLine ?th = 12" "map_get (coroutineNames ?u) (GoroutineID ?th) = []"
    by (simp_all add: example_defs map_get_def)
  note c2 = conjunct2
  have a1: "length (Events (result (fst (call_handler ?E H_onReplayCommands ?c))))
              \<le> length (Events (result ?c)) + 1"
    using events_append_only [of ?E H_onReplayCommands ?c "fst (call_handler ?E H_onReplayCommands ?c)"
        "snd (call_handler ?E H_onReplayCommands ?c)", THEN conjunct1] h1
    by auto
  have a2: "Events (result (fst (onProcessEvent ?E ?e))) =
              [\<lparr>Server = Some \<lparr>ID = 1, Type = 0\<rparr>, Client = None, Code = None\<rparr>]"
    using events_append_only [of ?E H_onProcessEvent ?e
        "append_event \<lparr>Server = Some \<lparr>ID = 1, Type = 0\<rparr>, Client = None, Code = None\<rparr> ?e" None,
        THEN c2, THEN conjunct1] h2 e0
    by simp
  have a3: "Events (result (fst (populateCoroutineName ?E ?n))) = []"
    using events_append_only [of ?E H_populateCoroutineName ?n "fst (populateCoroutineName ?E ?n)"
        "snd (populateCoroutineName ?E ?n)", THEN c2, THEN c2, THEN conjunct1] h3 e0
    by simp
  have a4: "Events (result (record_code ?E ?th ?u)) =
              [\<lparr>Server = None, Client = None,
                Code = Some \<lparr>Package = ''example.com/pkg'', File = ''/home/u/app/workflow.go'',
                             Line = 12, Coroutine = []\<rparr>\<rparr>]"
    using events_append_only [of ?E H_onProcessEvent ?u ?u None ?th,
        THEN c2, THEN c2, THEN c2, THEN conjunct1] h4 e0 v4
    by simp
  have a5: "prefix (Events (result ?u)) (Events (result (fst (run_body ?E ?u))))"
    using events_append_only [of ?E H_onProcessEvent ?u "fst (run_body ?E ?u)" "snd (run_body ?E ?u)",
        THEN c2, THEN c2, THEN c2, THEN c2, THEN conjunct1] h5
    by simp
  have a6: "prefix [prior_event] (Events (result (fst (the (run ?E short_session)))))"
    using events_append_only [of ?E H_onProcessEvent short_session t' None,
        THEN c2, THEN c2, THEN c2, THEN c2, THEN c2] h6 e0
    by simp
  from a1 a2 a3 a4 a5 a6 show ?thesis by blast
qed

section \<open>Leaving the loop\<close>

lemma run_loop_induct:
  assumes run: "run_loop E t = Some y"
    and nil: "\<And>t. state t = None \<Longrightarrow> R t (t, Some (Panic ''nil pointer dereference''))"
    and exit: "\<And>t st. state t = Some st \<Longrightarrow> Exited st \<Longrightarrow> R t (t, None)"
    and err: "\<And>t st t1 e. state t = Some st \<Longrightarrow> \<not> Exited st \<Longrightarrow>
                run_body E t = (t1, Some e) \<Longrightarrow> R t (t1, Some e)"
    and step: "\<And>t st t1 y. state t = Some st \<Longrightarrow> \<not> Exited st \<Longrightarrow>
                run_body E t = (t1, None) \<Longrightarrow> R t1 y \<Longrightarrow> R t y"
  shows "R t y"
proof -
  have "E' = E \<longrightarrow> R t y" if "run_loop E' t = Some y" for E' t y
  proof (rule run_loop.raw_induct [where P = "\<lambda>E' t y. E' = E \<longrightarrow> R t y", OF _ that], goal_cases)
    case (1 f E' t y)
    show ?case
    proof (intro impI)
      assume E: "E' = E"
      obtain t1 r1 where body: "run_body E t = (t1, r1)"
        by (cases "run_body E t")
      show "R t y"
      proof (cases "state t")
        case None
        with 1(2) nil [OF None] show ?thesis by auto
      next
        case (Some st)
        show ?thesis
        proof (cases "Exited st")
          case True
          with 1(2) Some exit [OF Some True] show ?thesis by auto
        next
          case False
          show ?thesis
          proof (cases r1)
            case None
            with 1(2) Some False body E have "f E t1 = Some y" by simp
            with 1(1) have "R t1 y" by (cases y) auto
            with step [OF Some False] body None show ?thesis by simp
          next
            case (Some e)
            with 1(2) \<open>state t = Some st\<close> False body E have "y = (t1, Some e)" by simp
            with err [OF \<open>state t = Some st\<close> False] body Some show ?thesis by simp
          qed
        qed
      qed
    qed
  qed
  from this [OF run] show ?thesis by simp
qed

lemma do_command_error_state: "do_command E c msg t = (t', Some e) \<Longrightarrow> state t' = None"
  by (auto simp: do_command_def split: prod.splits sum.splits)

lemma run_body_error_state:
  assumes "run_body E t = (t', Some e)"
  shows "state t' = None \<or> state t' = state t"
  using assms
proof (cases rule: run_body_cases)
  case panic
  then show ?thesis by simp
next
  case (turn st th t1 r1 t2 r2)
  note hb = hit_breakpoint_frame [OF turn(3)]
  show ?thesis
  proof (cases r1)
    case (Some e1)
    with turn(4) hb show ?thesis by simp
  next
    case None
    note r1 = this
    note cn = cancel_next_frame [OF turn(5) [OF r1]]
    show ?thesis
    proof (cases r2)
      case (Some e2)
      with turn(6) r1 cn hb show ?thesis by simp
    next
      case None
      note r2 = this
      show ?thesis
      proof (cases "goStdOrTemporal E th")
        case True
        from turn(7) [OF r1 r2 True] show ?thesis
          by (auto simp: step_out_def split: if_splits dest: do_command_error_state)
      next
        case False
        from turn(8) [OF r1 r2 False] show ?thesis
          by (auto dest: do_command_error_state)
      qed
    qed
  qed
qed

text \<open>The loop is left without an error exactly in a state where the process has exited.\<close>

lemma run_loop_exit:
  assumes "run_loop E t = Some (t', r)"
  shows "(r = None) = (\<exists>st. state t' = Some st \<and> Exited st)"
proof -
  have "(snd y = None) = (\<exists>st. state (fst y) = Some st \<and> Exited st)"
    if "run_loop E t = Some y" for y
    using that
  proof (induction rule: run_loop_induct [consumes 1])
    case (1 t)
    then show ?case by simp
  next
    case (2 t st)
    then show ?case by simp
  next
    case (3 t st t1 e)
    with run_body_error_state [OF 3(3)] show ?case by auto
  next
    case (4 t st t1 y)
    then show ?case by simp
  qed
  from this [OF assms] show ?thesis by simp
qed

lemma run_loop_prefix:
  assumes "run_loop E t = Some (t', r)"
  shows "prefix (Events (result t)) (Events (result t'))"
proof (rule run_loop_invariant [OF assms, where P = "\<lambda>s. prefix (Events (result t)) (Events (result s))"])
  show "prefix (Events (result t)) (Events (result t))" by simp
next
  fix s s1 r
  assume "prefix (Events (result t)) (Events (result s))" and "run_body E s = (s1, r)"
  then show "prefix (Events (result t)) (Events (result s1))"
    using run_body_prefix [of E s s1 r] by (meson prefix_order.trans)
qed

lemma run_exit_status:
  assumes "run E t = Some (t', r)" and "state t' = Some st" and "Exited st"
  shows "r = (if ExitStatus st \<noteq> 0 then Some (ErrExitStatus (ExitStatus st)) else None)"
proof -
  obtain t0 r0 where c: "do_command E Continue ''failed starting execution'' t = (t0, r0)"
    by (cases "do_command E Continue ''failed starting execution'' t")
  show ?thesis
  proof (cases r0)
    case (Some e)
    with c have "state t0 = None" by (auto dest: do_command_error_state)
    moreover from Some assms(1) c have "t' = t0" by (simp add: run_def)
    ultimately show ?thesis using assms(2) by simp
  next
    case None
    with assms(1) c obtain r' where loop: "run_loop E t0 = Some (t', r')"
      and r: "r = (case r' of Some e \<Rightarrow> Some e | None \<Rightarrow> exit_check t')"
      by (auto simp: run_def split: option.splits)
    from run_loop_exit [OF loop] assms(2,3) have "r' = None" by simp
    with r assms(2,3) show ?thesis by (simp add: exit_check_def)
  qed
qed

lemma run_via_loop:
  assumes "run E t = Some (t', r)" and "state t' \<noteq> None"
  shows "\<exists>s r'. run_loop E s = Some (t', r') \<and> result s = result t"
proof -
  obtain t0 r0 where c: "do_command E Continue ''failed starting execution'' t = (t0, r0)"
    by (cases "do_command E Continue ''failed starting execution'' t")
  show ?thesis
  proof (cases r0)
    case (Some e)
    with c have "state t0 = None" by (auto dest: do_command_error_state)
    moreover from Some assms(1) c have "t' = t0" by (simp add: run_def)
    ultimately show ?thesis using assms(2) by simp
  next
    case None
    with assms(1) c obtain r' where "run_loop E t0 = Some (t', r')"
      by (auto simp: run_def split: option.splits)
    with do_command_frame [OF c] show ?thesis by auto
  qed
qed

subsection \<open>The loop, turn by turn\<close>

lemma loop_turns_exited: "state t = Some st \<Longrightarrow> Exited st \<Longrightarrow> loop_turns n E t = (t, None)"
  by (cases n) simp_all

lemma loop_turns_error:
  "loop_turns n E t = (t', Some e) \<Longrightarrow> run_loop E t = Some (t', Some e)"
proof (induction n arbitrary: t)
  case 0
  then show ?case by simp
next
  case (Suc n)
  then show ?case
    by (subst run_loop.simps) (auto split: option.splits if_splits prod.splits)
qed

lemma loop_turns_continue:
  "loop_turns n E t = (t', None) \<Longrightarrow> run_loop E t = run_loop E t'"
proof (induction n arbitrary: t)
  case 0
  then show ?case by simp
next
  case (Suc n)
  show ?case
  proof (cases "state t")
    case None
    with Suc.prems show ?thesis by simp
  next
    case (Some st)
    show ?thesis
    proof (cases "Exited st")
      case True
      with Some Suc.prems show ?thesis by simp
    next
      case False
      obtain t1 r1 where body: "run_body E t = (t1, r1)"
        by (cases "run_body E t")
      with Some False Suc.prems have r1: "r1 = None" and turns: "loop_turns n E t1 = (t', None)"
        by (auto split: option.splits)
      from Some False body r1 have "run_loop E t = run_loop E t1"
        by (subst run_loop.simps) simp
      with Suc.IH [OF turns] show ?thesis by simp
    qed
  qed
qed

lemma loop_turns_exit:
  assumes "loop_turns n E t = (t', None)" and "state t' = Some st" and "Exited st"
  shows "run_loop E t = Some (t', None)"
proof -
  from assms(2,3) have "run_loop E t' = Some (t', None)"
    by (subst run_loop.simps) simp
  with loop_turns_continue [OF assms(1)] show ?thesis by simp
qed

lemma loop_turns_prefix:
  "loop_turns n E t = (t', r) \<Longrightarrow> prefix (Events (result t)) (Events (result t'))"
proof (induction n arbitrary: t)
  case 0
  then show ?case by simp
next
  case (Suc n)
  show ?case
  proof (cases "state t")
    case None
    with Suc.prems show ?thesis by simp
  next
    case (Some st)
    show ?thesis
    proof (cases "Exited st")
      case True
      with Some Suc.prems show ?thesis by simp
    next
      case False
      obtain t1 r1 where body: "run_body E t = (t1, r1)"
        by (cases "run_body E t")
      note p = run_body_prefix [OF body]
      show ?thesis
      proof (cases r1)
        case None
        with Some False body Suc.prems have "loop_turns n E t1 = (t', r)" by simp
        from Suc.IH [OF this] p show ?thesis by (meson prefix_order.trans)
      next
        case (Some e)
        with \<open>state t = Some st\<close> False body Suc.prems have "t' = t1" by simp
        with p show ?thesis by simp
      qed
    qed
  qed
qed

lemma loop_turns_add:
  "loop_turns (m + k) E t =
     (case loop_turns m E t of
        (s, None) \<Rightarrow> loop_turns k E s
      | (s, Some e) \<Rightarrow> (s, Some e))"
proof (induction m arbitrary: t)
  case 0
  then show ?case by simp
next
  case (Suc m)
  then show ?case
    by (auto simp: loop_turns_exited split: option.splits prod.splits)
qed

lemma loop_turns_later:
  assumes "m \<le> n" and "loop_turns m E t = (s, None)" and "loop_turns n E t = (t', r)"
  shows "prefix (Events (result s)) (Events (result t'))"
proof -
  from assms(1) obtain k where "n = m + k" by (auto simp: le_iff_add)
  with assms(2,3) have "loop_turns k E s = (t', r)" by (simp add: loop_turns_add)
  then show ?thesis by (rule loop_turns_prefix)
qed

lemma run_loop_turns:
  assumes "run_loop E t = Some (t', r)"
  shows "\<exists>n. loop_turns n E t = (t', r)"
proof -
  have "\<exists>n. loop_turns n E t = y" if "run_loop E t = Some y" for y
    using that
  proof (induction rule: run_loop_induct [consumes 1])
    case (1 t)
    then have "loop_turns (Suc 0) E t = (t, Some (Panic ''nil pointer dereference''))" by simp
    then show ?case by blast
  next
    case (2 t st)
    then have "loop_turns (Suc 0) E t = (t, None)" by simp
    then show ?case by blast
  next
    case (3 t st t1 e)
    then have "loop_turns (Suc 0) E t = (t1, Some e)" by simp
    then show ?case by blast
  next
    case (4 t st t1 y)
    then obtain n where "loop_turns n E t1 = y" by blast
    with 4 have "loop_turns (Suc n) E t = y" by simp
    then show ?case by blast
  qed
  from this [OF assms] show ?thesis .
qed

text \<open>The loop with fuel and the loop agree: the loop returns exactly what some number
  of turns reaches with an error or at an exit.\<close>

lemma run_loop_iff_turns:
  "run_loop E t = Some (t', r) \<longleftrightarrow>
     (\<exists>n. loop_turns n E t = (t', r) \<and> (r \<noteq> None \<or> (\<exists>st. state t' = Some st \<and> Exited st)))"
proof
  assume loop: "run_loop E t = Some (t', r)"
  from run_loop_turns [OF loop] obtain n where "loop_turns n E t = (t', r)" ..
  moreover from run_loop_exit [OF loop] have "r \<noteq> None \<or> (\<exists>st. state t' = Some st \<and> Exited st)"
    by blast
  ultimately show "\<exists>n. loop_turns n E t = (t', r) \<and>
      (r \<noteq> None \<or> (\<exists>st. state t' = Some st \<and> Exited st))"
    by blast
next
  assume "\<exists>n. loop_turns n E t = (t', r) \<and>
      (r \<noteq> None \<or> (\<exists>st. state t' = Some st \<and> Exited st))"
  then obtain n where n: "loop_turns n E t = (t', r)"
    and stop: "r \<noteq> None \<or> (\<exists>st. state t' = Some st \<and> Exited st)"
    by blast
  show "run_loop E t = Some (t', r)"
  proof (cases r)
    case (Some e)
    with n show ?thesis by (simp add: loop_turns_error)
  next
    case None
    with stop obtain st where "state t' = Some st" "Exited st" by blast
    with n None show ?thesis by (simp add: loop_turns_exit)
  qed
qed

lemma run_exits:
  assumes "do_command E Continue ''failed starting execution'' t = (t0, None)"
    and "loop_turns n E t0 = (t', None)" and "state t' = Some st" and "Exited st"
  shows "run E t = Some (t', exit_check t')"
  using assms(1) loop_turns_exit [OF assms(2-4)] by (simp add: run_def)

lemma execution_run_turns:
  "(case newTrace example_Env execution_Tracer of
      Inl e \<Rightarrow> None
    | Inr t \<Rightarrow>
        (case do_command example_Env Continue ''failed starting execution'' t of
           (t0, r0) \<Rightarrow>
             (case loop_turns 3 example_Env t0 of
                (s, r3) \<Rightarrow>
                  (case loop_turns 5 example_Env t0 of
                     (t', r5) \<Rightarrow> Some (r0, r3, result s, r5, state t', result t'))))) =
   Some (None, None, \<lparr>Events = take 2 example_Events\<rparr>, None, Some (exited 2),
         \<lparr>Events = example_Events\<rparr>)"
  by code_simp


lemma execution_Tracer_New: "New execution_Config = Inr execution_Tracer"
  by (simp add: New_def execution_Config_def execution_Tracer_def example_Config_def
      strings_LastIndex_def Let_def Config.extend_def Tracer.fields_def)

text \<open>
  Claim C6. The loop is left, with no error, at a session whose process has exited.
  When the session reaches, after some number of turns of the loop, an exit of the process
  with a status other than zero, \<^verbatim>\<open>run\<close> returns, and what it returns is
  the exit-status error; \<^verbatim>\<open>Trace\<close> then returns the result of the session as
  it is at the exit, not \<^verbatim>\<open>nil\<close>, together with that error. The events that the
  session holds after any earlier turn of the loop are a prefix of the events at the exit,
  so every event observed before the exit is in the result. The last three parts say the
  same of any run that returns.
\<close>

theorem exit_status_error_keeps_result:
  "(state t = Some st \<and> Exited st \<longrightarrow> run_loop E t = Some (t, None)) \<and>
   (do_command E Continue ''failed starting execution'' t = (ts, None) \<and>
    loop_turns n E ts = (t', None) \<and> state t' = Some st \<and> Exited st \<and> ExitStatus st \<noteq> 0 \<longrightarrow>
      run E t = Some (t', Some (ErrExitStatus (ExitStatus st)))) \<and>
   (newTrace E tr = Inr t \<and> do_command E Continue ''failed starting execution'' t = (ts, None) \<and>
    loop_turns n E ts = (t', None) \<and> state t' = Some st \<and> Exited st \<and> ExitStatus st \<noteq> 0 \<longrightarrow>
      Trace E None tr = Some (Some (result t'), Some (ErrExitStatus (ExitStatus st)))) \<and>
   (m \<le> n \<and> loop_turns m E ts = (s, None) \<and> loop_turns n E ts = (t', r') \<longrightarrow>
      prefix (Events (result s)) (Events (result t'))) \<and>
   (run E t = Some (t', r) \<and> state t' = Some st \<and> Exited st \<and> ExitStatus st \<noteq> 0 \<longrightarrow>
      r = Some (ErrExitStatus (ExitStatus st))) \<and>
   (newTrace E tr = Inr t \<and> run E t = Some (t', r) \<and> state t' = Some st \<and> Exited st \<and>
    ExitStatus st \<noteq> 0 \<longrightarrow>
      Trace E None tr = Some (Some (result t'), Some (ErrExitStatus (ExitStatus st)))) \<and>
   (run_loop E s = Some (t', r') \<longrightarrow> prefix (Events (result s)) (Events (result t')))"
proof (intro conjI impI)
  assume "state t = Some st \<and> Exited st"
  then show "run_loop E t = Some (t, None)"
    by (subst run_loop.simps) simp
next
  assume "do_command E Continue ''failed starting execution'' t = (ts, None) \<and>
    loop_turns n E ts = (t', None) \<and> state t' = Some st \<and> Exited st \<and> ExitStatus st \<noteq> 0"
  then show "run E t = Some (t', Some (ErrExitStatus (ExitStatus st)))"
    using run_exits [of E t ts n t' st] by (simp add: exit_check_def)
next
  assume "newTrace E tr = Inr t \<and>
    do_command E Continue ''failed starting execution'' t = (ts, None) \<and>
    loop_turns n E ts = (t', None) \<and> state t' = Some st \<and> Exited st \<and> ExitStatus st \<noteq> 0"
  then show "Trace E None tr = Some (Some (result t'), Some (ErrExitStatus (ExitStatus st)))"
    using run_exits [of E t ts n t' st] by (simp add: exit_check_def Trace_def)
next
  assume "m \<le> n \<and> loop_turns m E ts = (s, None) \<and> loop_turns n E ts = (t', r')"
  then show "prefix (Events (result s)) (Events (result t'))"
    using loop_turns_later [of m n E ts s t' r'] by simp
next
  assume "run E t = Some (t', r) \<and> state t' = Some st \<and> Exited st \<and> ExitStatus st \<noteq> 0"
  then show "r = Some (ErrExitStatus (ExitStatus st))"
    using run_exit_status [of E t t' r st] by simp
next
  assume a: "newTrace E tr = Inr t \<and> run E t = Some (t', r) \<and> state t' = Some st \<and> Exited st \<and>
    ExitStatus st \<noteq> 0"
  then have "r = Some (ErrExitStatus (ExitStatus st))"
    using run_exit_status [of E t t' r st] by simp
  with a show "Trace E None tr = Some (Some (result t'), Some (ErrExitStatus (ExitStatus st)))"
    by (simp add: Trace_def)
next
  assume "run_loop E s = Some (t', r')"
  then show "prefix (Events (result s)) (Events (result t'))" by (rule run_loop_prefix)
qed

theorem exit_status_error_keeps_result_witness:
  "New execution_Config = Inr execution_Tracer \<and>
   newTrace example_Env execution_Tracer = Inr execution_new \<and>
   run_loop example_Env (execution_session (exited 2) no_frame) =
     Some (execution_session (exited 2) no_frame, None) \<and>
   map_option snd (run example_Env execution_new) = Some (Some (ErrExitStatus 2)) \<and>
   Trace example_Env None execution_Tracer =
     Some (Some \<lparr>Events = example_Events\<rparr>, Some (ErrExitStatus 2)) \<and>
   Events (result (fst (loop_turns 3 example_Env execution_started))) = take 2 example_Events \<and>
   prefix (Events (result (fst (loop_turns 3 example_Env execution_started))))
          (Events (result (fst (loop_turns 5 example_Env execution_started))))"
proof -
  let ?E = example_Env
  let ?x = "execution_session (exited 2) no_frame"
  note c2 = conjunct2
  note claim = exit_status_error_keeps_result
  have new: "newTrace ?E execution_Tracer = Inr execution_new"
    using execution_run_turns
    by (cases "newTrace ?E execution_Tracer") (simp_all add: execution_new_def)
  obtain r0 where start0: "do_command ?E Continue ''failed starting execution'' execution_new =
      (execution_started, r0)"
    by (cases "do_command ?E Continue ''failed starting execution'' execution_new")
       (simp add: execution_started_def)
  obtain s3 r3 where t3: "loop_turns 3 ?E execution_started = (s3, r3)"
    by (cases "loop_turns 3 ?E execution_started")
  obtain s5 r5 where t5: "loop_turns 5 ?E execution_started = (s5, r5)"
    by (cases "loop_turns 5 ?E execution_started")
  from execution_run_turns new start0 t3 t5
  have vals: "r0 = None" "r3 = None" "result s3 = \<lparr>Events = take 2 example_Events\<rparr>" "r5 = None"
    "state s5 = Some (exited 2)" "result s5 = \<lparr>Events = example_Events\<rparr>"
    by simp_all
  have ex: "Exited (exited 2)" "ExitStatus (exited 2) \<noteq> 0" "ExitStatus (exited 2) = 2"
    by (simp_all add: exited_def)
  have stx: "state ?x = Some (exited 2)"
    by (simp add: execution_session_def example_session_def)
  have a1: "run_loop ?E ?x = Some (?x, None)"
    using claim [where t = ?x and st = "exited 2" and E = ?E, THEN conjunct1] stx ex by simp
  have run: "run ?E execution_new = Some (s5, Some (ErrExitStatus 2))"
    using claim [where t = execution_new and ts = execution_started and n = 5 and t' = s5
        and st = "exited 2" and E = ?E, THEN c2, THEN conjunct1] start0 t5 vals ex
    by simp
  then have a2: "map_option snd (run ?E execution_new) = Some (Some (ErrExitStatus 2))"
    by simp
  have a3: "Trace ?E None execution_Tracer =
              Some (Some \<lparr>Events = example_Events\<rparr>, Some (ErrExitStatus 2))"
    using claim [where t = execution_new and ts = execution_started and n = 5 and t' = s5
        and st = "exited 2" and E = ?E and tr = execution_Tracer,
        THEN c2, THEN c2, THEN conjunct1] new start0 t5 vals ex
    by simp
  have a4: "prefix (Events (result s3)) (Events (result s5))"
    using claim [where m = 3 and n = 5 and ts = execution_started and s = s3 and t' = s5
        and r' = r5 and E = ?E, THEN c2, THEN c2, THEN c2, THEN conjunct1] t3 t5 vals
    by simp
  have a5: "Some (ErrExitStatus 2) = Some (ErrExitStatus (ExitStatus (exited 2)))"
    using claim [where t = execution_new and t' = s5 and r = "Some (ErrExitStatus 2)"
        and st = "exited 2" and E = ?E, THEN c2, THEN c2, THEN c2, THEN c2, THEN conjunct1]
      run vals ex
    by simp
  have a6: "Trace ?E None execution_Tracer =
              Some (Some (result s5), Some (ErrExitStatus (ExitStatus (exited 2))))"
    using claim [where t = execution_new and t' = s5 and r = "Some (ErrExitStatus 2)"
        and st = "exited 2" and E = ?E and tr = execution_Tracer,
        THEN c2, THEN c2, THEN c2, THEN c2, THEN c2, THEN conjunct1]
      new run vals ex
    by simp
  have a7: "prefix (Events (result ?x)) (Events (result ?x))"
    using claim [where s = ?x and t' = ?x and r' = None and E = ?E,
        THEN c2, THEN c2, THEN c2, THEN c2, THEN c2, THEN c2] a1
    by simp
  from execution_Tracer_New new a1 a2 a3 a4 t3 t5 vals show ?thesis by simp
qed

section \<open>Errors of the handlers\<close>

lemma onProcessEvent_children_absent:
  "\<forall>c \<in> set fs. Name c \<noteq> ''EventId'' \<and> Name c \<noteq> ''EventType'' \<Longrightarrow>
     onProcessEvent_children ev fs = Inr ev"
  by (induction fs) auto

lemma onProcessEvent_children_append:
  "onProcessEvent_children ev (xs @ ys) =
     (case onProcessEvent_children ev xs of
        Inl e \<Rightarrow> Inl e
      | Inr ev' \<Rightarrow> onProcessEvent_children ev' ys)"
  by (induction xs arbitrary: ev) (auto split: sum.splits)

lemma onProcessEvent_args_append:
  "onProcessEvent_args ev (xs @ ys) =
     (case onProcessEvent_args ev xs of
        Inl e \<Rightarrow> Inl e
      | Inr ev' \<Rightarrow> onProcessEvent_args ev' ys)"
  by (induction xs arbitrary: ev) (auto split: sum.splits list.splits)

lemma onReplayCommands_children_append:
  "onReplayCommands_children cs (xs @ ys) =
     (case onReplayCommands_children cs xs of
        Inl e \<Rightarrow> Inl e
      | Inr cs' \<Rightarrow> onReplayCommands_children cs' ys)"
  by (induction xs arbitrary: cs) (auto simp: Let_def split: sum.splits list.splits)

lemma onReplayCommands_args_append:
  "onReplayCommands_args cs (xs @ ys) =
     (case onReplayCommands_args cs xs of
        Inl e \<Rightarrow> Inl e
      | Inr cs' \<Rightarrow> onReplayCommands_args cs' ys)"
  by (induction xs arbitrary: cs) (auto split: sum.splits)

lemma populate_children_absent:
  "\<forall>c \<in> set cs. Name c \<noteq> ''name'' \<Longrightarrow> populate_children cs = None"
  by (induction cs) auto

lemma populate_args_no_name:
  "\<forall>a \<in> set vars. Name a = ''crt'' \<longrightarrow>
     (case Children a of [] \<Rightarrow> False | holder # _ \<Rightarrow> \<forall>c \<in> set (Children holder). Name c \<noteq> ''name'')
   \<Longrightarrow> populate_args vars = Inr None"
  by (induction vars) (auto simp: populate_children_absent split: list.splits)

lemma onProcessEvent_args_no_fields:
  "\<forall>a \<in> set vars. Name a = ''event'' \<longrightarrow>
     (case Children a of [] \<Rightarrow> False
      | holder # _ \<Rightarrow> \<forall>c \<in> set (Children holder). Name c \<noteq> ''EventId'' \<and> Name c \<noteq> ''EventType'')
   \<Longrightarrow> onProcessEvent_args ev vars = Inr ev"
  by (induction vars) (auto simp: onProcessEvent_children_absent split: list.splits)

lemma onProcessEvent_children_no_id:
  "\<forall>c \<in> set fs. Name c \<noteq> ''EventId'' \<Longrightarrow> onProcessEvent_children ev fs = Inr ev' \<Longrightarrow>
     ID ev' = ID ev"
  by (induction fs arbitrary: ev) (auto split: sum.splits if_splits)

lemma onProcessEvent_children_no_type:
  "\<forall>c \<in> set fs. Name c \<noteq> ''EventType'' \<Longrightarrow> onProcessEvent_children ev fs = Inr ev' \<Longrightarrow>
     Type ev' = Type ev"
  by (induction fs arbitrary: ev) (auto split: sum.splits if_splits)

lemma onProcessEvent_args_no_id:
  "\<forall>a \<in> set vars. Name a = ''event'' \<longrightarrow>
     (case Children a of [] \<Rightarrow> False | holder # _ \<Rightarrow> \<forall>c \<in> set (Children holder). Name c \<noteq> ''EventId'')
   \<Longrightarrow> onProcessEvent_args ev vars = Inr ev' \<Longrightarrow> ID ev' = ID ev"
  by (induction vars arbitrary: ev)
     (auto split: sum.splits if_splits list.splits dest: onProcessEvent_children_no_id)

lemma onProcessEvent_args_no_type:
  "\<forall>a \<in> set vars. Name a = ''event'' \<longrightarrow>
     (case Children a of [] \<Rightarrow> False | holder # _ \<Rightarrow> \<forall>c \<in> set (Children holder). Name c \<noteq> ''EventType'')
   \<Longrightarrow> onProcessEvent_args ev vars = Inr ev' \<Longrightarrow> Type ev' = Type ev"
  by (induction vars arbitrary: ev)
     (auto split: sum.splits if_splits list.splits dest: onProcessEvent_children_no_type)

lemma event_field_error:
  assumes "onProcessEvent_args ev0 pre = Inr eva" and "Name arg = ''event''"
    and "Children arg = holder # others" and "Children holder = fpre @ child # frest"
    and "onProcessEvent_children eva fpre = Inr evb"
    and "onProcessEvent_children evb (child # frest) = Inl err"
  shows "onProcessEvent_args ev0 (pre @ arg # post) = Inl err"
  using assms by (simp add: onProcessEvent_args_append onProcessEvent_children_append)

lemma command_type_error:
  assumes "onReplayCommands_args [] pre = Inr csa" and "Name arg = ''eventCommands''"
    and "Children arg = cpre @ command # crest"
    and "onReplayCommands_children csa cpre = Inr csb"
    and "Children command = holder # others" and "Children holder = kind # kinds"
    and "intInTrailingParens (Value kind) = Inl e"
  shows "onReplayCommands_args [] (pre @ arg # post) =
           Inl (ErrWrapVals ''invalid command type %q'' [Value kind] e)"
  using assms
  by (simp add: onReplayCommands_args_append onReplayCommands_children_append Let_def)

lemma hit_breakpoint_error_aborts:
  assumes "state t = Some st" and "\<not> Exited st" and "CurrentThread st = Some th"
    and "hit_breakpoint E th t = (t1, Some e)"
  shows "run_loop E t = Some (t1, Some e)"
proof -
  from assms have "run_body E t = (t1, Some e)"
    by (simp add: run_body_def)
  with assms(1,2) show ?thesis
    by (subst run_loop.simps) simp
qed

lemma handler_error_aborts:
  assumes "state t = Some st" and "\<not> Exited st" and "CurrentThread st = Some th"
    and "Breakpoint th = Some b" and "breakpoints t (BpID b) = Some reg"
    and "handler reg = Some h" and "call_handler E h t = (t', Some e)"
  shows "run_loop E t = Some (t', Some e)"
proof -
  from assms(4-7) have "hit_breakpoint E th t = (t', Some e)"
    by (simp add: hit_breakpoint_def)
  with assms(1-3) show ?thesis by (rule hit_breakpoint_error_aborts)
qed


lemma call_handler_failure: "call_handler E h t = (t', Some e) \<Longrightarrow> t' = t"
  by (cases h)
     (auto simp: call_handler_def dest: onProcessEvent_failure onReplayCommands_failure
        populateCoroutineName_failure)

lemma run_aborts:
  assumes "do_command E Continue ''failed starting execution'' ti = (ts, None)"
    and "loop_turns n E ts = (t, None)" and "run_loop E t = Some (t', Some e)"
  shows "run E ti = Some (t', Some e)"
  using assms(1,3) loop_turns_continue [OF assms(2)] by (simp add: run_def)

lemma unparsed_run_turns:
  "(case newTrace unparsed_command_Env execution_Tracer of
      Inl e \<Rightarrow> None
    | Inr t \<Rightarrow>
        (case do_command unparsed_command_Env Continue ''failed starting execution'' t of
           (ts, r0) \<Rightarrow>
             (case loop_turns 2 unparsed_command_Env ts of
                (s, r1) \<Rightarrow>
                  Some (r0, r1, state s, map_option handler (breakpoints s 3),
                        snd (call_handler unparsed_command_Env H_onReplayCommands s),
                        result s)))) =
   Some (None, None, Some commands_stop, Some (Some H_onReplayCommands),
         Some (ErrWrapVals ''invalid command type %q'' [''StartTimer'']
                 (Err ''expected int in parens at the end'')),
         \<lparr>Events = unparsed_Events\<rparr>)"
  by code_simp

text \<open>
  Claim C5, as stated, fails: at the breakpoint of the event handler, with a frame that
  has no \<open>event\<close> argument, the handler returns no error and records an event with
  the identifier 0 and the type 0.
\<close>

theorem missing_field_is_no_error:
  "onProcessEvent example_Env (example_session (event_stop False) other_frame) =
     (append_event \<lparr>Server = Some \<lparr>ID = 0, Type = 0\<rparr>, Client = None, Code = None\<rparr>
        (example_session (event_stop False) other_frame), None)"
  by (simp add: onProcessEvent_def example_defs)

text \<open>
  Claim C5, amended. A handler returns an error, and leaves the session as it is, when
  the debugger cannot load the variables of the frame, and when an identifier or a type
  of the event, or the type of a command, that it finds in the frame does not parse. An
  error of the handler of the breakpoint that was hit ends the loop at once with that
  error: \<^verbatim>\<open>run\<close> returns it, and \<^verbatim>\<open>Trace\<close> returns it with the result
  as it was before the stop. When the expected argument or field is absent there is no
  error: with no \<open>event\<close> argument, or with one that has neither field, the event
  handler records an event whose identifier and type are zero, and with no \<open>crt\<close>
  argument, or with one that has no \<open>name\<close> field, the naming handler leaves the
  session as it is. When only one of the two fields of the event is absent, the handler,
  if it returns no error, records an event in which that one is zero.
\<close>

theorem handler_hard_errors:
  "(current_thread t = Inr th \<and> FunctionArguments E (GoroutineID th) (debug t) = Inl e \<longrightarrow>
      onProcessEvent E t = (t, Some (ErrWrap ''failed loading vars'' e)) \<and>
      populateCoroutineName E t = (t, Some (ErrWrap ''failed loading vars'' e))) \<and>
   (current_thread t = Inr th \<and> LocalVariables E (GoroutineID th) (debug t) = Inl e \<longrightarrow>
      onReplayCommands E t = (t, Some (ErrWrap ''failed loading vars'' e))) \<and>
   (current_thread t = Inr th \<and>
    FunctionArguments E (GoroutineID th) (debug t) = Inr (pre @ arg # post) \<and>
    onProcessEvent_args \<lparr>ID = 0, Type = 0\<rparr> pre = Inr eva \<and> Name arg = ''event'' \<and>
    Children arg = holder # others \<and> Children holder = fpre @ child # frest \<and>
    onProcessEvent_children eva fpre = Inr evb \<and>
    Name child = ''EventId'' \<and> strconv_ParseInt (Value child) = Inl e \<longrightarrow>
      onProcessEvent E t = (t, Some (ErrWrapVals ''invalid event ID %v'' [Value child] e))) \<and>
   (current_thread t = Inr th \<and>
    FunctionArguments E (GoroutineID th) (debug t) = Inr (pre @ arg # post) \<and>
    onProcessEvent_args \<lparr>ID = 0, Type = 0\<rparr> pre = Inr eva \<and> Name arg = ''event'' \<and>
    Children arg = holder # others \<and> Children holder = fpre @ child # frest \<and>
    onProcessEvent_children eva fpre = Inr evb \<and>
    Name child = ''EventType'' \<and> intInTrailingParens (Value child) = Inl e \<longrightarrow>
      onProcessEvent E t = (t, Some (ErrWrapVals ''invalid event type %q'' [Value child] e))) \<and>
   (current_thread t = Inr th \<and>
    LocalVariables E (GoroutineID th) (debug t) = Inr (pre @ arg # post) \<and>
    onReplayCommands_args [] pre = Inr csa \<and> Name arg = ''eventCommands'' \<and>
    Children arg = cpre @ command # crest \<and> onReplayCommands_children csa cpre = Inr csb \<and>
    Children command = holder # others \<and> Children holder = child # frest \<and>
    intInTrailingParens (Value child) = Inl e \<longrightarrow>
      onReplayCommands E t =
        (t, Some (ErrWrapVals ''invalid command type %q'' [Value child] e))) \<and>
   (state t = Some st \<and> \<not> Exited st \<and> CurrentThread st = Some th \<and>
    hit_breakpoint E th t = (t', Some e) \<longrightarrow> run_loop E t = Some (t', Some e)) \<and>
   (state t = Some st \<and> \<not> Exited st \<and> CurrentThread st = Some th \<and>
    Breakpoint th = Some b \<and> breakpoints t (BpID b) = Some reg \<and> handler reg = Some h \<and>
    call_handler E h t = (t', Some e) \<longrightarrow>
      t' = t \<and> run_loop E t = Some (t, Some e)) \<and>
   (do_command E Continue ''failed starting execution'' ti = (ts, None) \<and>
    loop_turns n E ts = (t, None) \<and>
    state t = Some st \<and> \<not> Exited st \<and> CurrentThread st = Some th \<and>
    Breakpoint th = Some b \<and> breakpoints t (BpID b) = Some reg \<and> handler reg = Some h \<and>
    call_handler E h t = (t', Some e) \<longrightarrow>
      run E ti = Some (t, Some e)) \<and>
   (newTrace E tr = Inr ti \<and>
    do_command E Continue ''failed starting execution'' ti = (ts, None) \<and>
    loop_turns n E ts = (t, None) \<and>
    state t = Some st \<and> \<not> Exited st \<and> CurrentThread st = Some th \<and>
    Breakpoint th = Some b \<and> breakpoints t (BpID b) = Some reg \<and> handler reg = Some h \<and>
    call_handler E h t = (t', Some e) \<longrightarrow>
      Trace E None tr = Some (Some (result t), Some e)) \<and>
   (current_thread t = Inr th \<and> FunctionArguments E (GoroutineID th) (debug t) = Inr vars \<and>
    (\<forall>a \<in> set vars. Name a = ''event'' \<longrightarrow>
       (case Children a of [] \<Rightarrow> False
        | holder # _ \<Rightarrow>
            \<forall>c \<in> set (Children holder). Name c \<noteq> ''EventId'' \<and> Name c \<noteq> ''EventType'')) \<longrightarrow>
      onProcessEvent E t =
        (append_event \<lparr>Server = Some \<lparr>ID = 0, Type = 0\<rparr>, Client = None, Code = None\<rparr> t,
         None)) \<and>
   (current_thread t = Inr th \<and> FunctionArguments E (GoroutineID th) (debug t) = Inr vars \<and>
    (\<forall>a \<in> set vars. Name a = ''crt'' \<longrightarrow>
       (case Children a of [] \<Rightarrow> False
        | holder # _ \<Rightarrow> \<forall>c \<in> set (Children holder). Name c \<noteq> ''name'')) \<longrightarrow>
      populateCoroutineName E t = (t, None)) \<and>
   (current_thread t = Inr th \<and> FunctionArguments E (GoroutineID th) (debug t) = Inr vars \<and>
    (\<forall>a \<in> set vars. Name a = ''event'' \<longrightarrow>
       (case Children a of [] \<Rightarrow> False
        | holder # _ \<Rightarrow> \<forall>c \<in> set (Children holder). Name c \<noteq> ''EventId'')) \<and>
    onProcessEvent E t = (t', None) \<longrightarrow>
      (\<exists>ev. ID ev = 0 \<and>
         t' = append_event \<lparr>Server = Some ev, Client = None, Code = None\<rparr> t)) \<and>
   (current_thread t = Inr th \<and> FunctionArguments E (GoroutineID th) (debug t) = Inr vars \<and>
    (\<forall>a \<in> set vars. Name a = ''event'' \<longrightarrow>
       (case Children a of [] \<Rightarrow> False
        | holder # _ \<Rightarrow> \<forall>c \<in> set (Children holder). Name c \<noteq> ''EventType'')) \<and>
    onProcessEvent E t = (t', None) \<longrightarrow>
      (\<exists>ev. Type ev = 0 \<and>
         t' = append_event \<lparr>Server = Some ev, Client = None, Code = None\<rparr> t))"
proof (intro conjI impI)
  assume "current_thread t = Inr th \<and> FunctionArguments E (GoroutineID th) (debug t) = Inl e"
  then show "onProcessEvent E t = (t, Some (ErrWrap ''failed loading vars'' e))"
    and "populateCoroutineName E t = (t, Some (ErrWrap ''failed loading vars'' e))"
    by (simp_all add: onProcessEvent_def populateCoroutineName_def)
next
  assume "current_thread t = Inr th \<and> LocalVariables E (GoroutineID th) (debug t) = Inl e"
  then show "onReplayCommands E t = (t, Some (ErrWrap ''failed loading vars'' e))"
    by (simp add: onReplayCommands_def)
next
  assume a: "current_thread t = Inr th \<and>
    FunctionArguments E (GoroutineID th) (debug t) = Inr (pre @ arg # post) \<and>
    onProcessEvent_args \<lparr>ID = 0, Type = 0\<rparr> pre = Inr eva \<and> Name arg = ''event'' \<and>
    Children arg = holder # others \<and> Children holder = fpre @ child # frest \<and>
    onProcessEvent_children eva fpre = Inr evb \<and>
    Name child = ''EventId'' \<and> strconv_ParseInt (Value child) = Inl e"
  then have "onProcessEvent_children evb (child # frest) =
               Inl (ErrWrapVals ''invalid event ID %v'' [Value child] e)"
    by simp
  with a have "onProcessEvent_args \<lparr>ID = 0, Type = 0\<rparr> (pre @ arg # post) =
                 Inl (ErrWrapVals ''invalid event ID %v'' [Value child] e)"
    using event_field_error [of "\<lparr>ID = 0, Type = 0\<rparr>" pre eva arg holder others fpre child frest evb]
    by blast
  with a show "onProcessEvent E t =
                 (t, Some (ErrWrapVals ''invalid event ID %v'' [Value child] e))"
    by (simp add: onProcessEvent_def)
next
  assume a: "current_thread t = Inr th \<and>
    FunctionArguments E (GoroutineID th) (debug t) = Inr (pre @ arg # post) \<and>
    onProcessEvent_args \<lparr>ID = 0, Type = 0\<rparr> pre = Inr eva \<and> Name arg = ''event'' \<and>
    Children arg = holder # others \<and> Children holder = fpre @ child # frest \<and>
    onProcessEvent_children eva fpre = Inr evb \<and>
    Name child = ''EventType'' \<and> intInTrailingParens (Value child) = Inl e"
  then have "onProcessEvent_children evb (child # frest) =
               Inl (ErrWrapVals ''invalid event type %q'' [Value child] e)"
    by simp
  with a have "onProcessEvent_args \<lparr>ID = 0, Type = 0\<rparr> (pre @ arg # post) =
                 Inl (ErrWrapVals ''invalid event type %q'' [Value child] e)"
    using event_field_error [of "\<lparr>ID = 0, Type = 0\<rparr>" pre eva arg holder others fpre child frest evb]
    by blast
  with a show "onProcessEvent E t =
                 (t, Some (ErrWrapVals ''invalid event type %q'' [Value child] e))"
    by (simp add: onProcessEvent_def)
next
  assume a: "current_thread t = Inr th \<and>
    LocalVariables E (GoroutineID th) (debug t) = Inr (pre @ arg # post) \<and>
    onReplayCommands_args [] pre = Inr csa \<and> Name arg = ''eventCommands'' \<and>
    Children arg = cpre @ command # crest \<and> onReplayCommands_children csa cpre = Inr csb \<and>
    Children command = holder # others \<and> Children holder = child # frest \<and>
    intInTrailingParens (Value child) = Inl e"
  then have "onReplayCommands_args [] (pre @ arg # post) =
               Inl (ErrWrapVals ''invalid command type %q'' [Value child] e)"
    using command_type_error [of pre csa arg cpre command crest csb holder others child frest e]
    by blast
  with a show "onReplayCommands E t =
                 (t, Some (ErrWrapVals ''invalid command type %q'' [Value child] e))"
    by (simp add: onReplayCommands_def)
next
  assume "state t = Some st \<and> \<not> Exited st \<and> CurrentThread st = Some th \<and>
    hit_breakpoint E th t = (t', Some e)"
  then show "run_loop E t = Some (t', Some e)"
    using hit_breakpoint_error_aborts [of t st th E t' e] by simp
next
  assume a: "state t = Some st \<and> \<not> Exited st \<and> CurrentThread st = Some th \<and>
    Breakpoint th = Some b \<and> breakpoints t (BpID b) = Some reg \<and> handler reg = Some h \<and>
    call_handler E h t = (t', Some e)"
  then show "t' = t" by (auto dest: call_handler_failure)
  with a show "run_loop E t = Some (t, Some e)"
    using handler_error_aborts [of t st th b reg h E t' e] by simp
next
  assume a: "do_command E Continue ''failed starting execution'' ti = (ts, None) \<and>
    loop_turns n E ts = (t, None) \<and>
    state t = Some st \<and> \<not> Exited st \<and> CurrentThread st = Some th \<and>
    Breakpoint th = Some b \<and> breakpoints t (BpID b) = Some reg \<and> handler reg = Some h \<and>
    call_handler E h t = (t', Some e)"
  then have "t' = t" by (auto dest: call_handler_failure)
  with a have "run_loop E t = Some (t, Some e)"
    using handler_error_aborts [of t st th b reg h E t' e] by simp
  with a show "run E ti = Some (t, Some e)"
    using run_aborts [of E ti ts n t t e] by simp
next
  assume a: "newTrace E tr = Inr ti \<and>
    do_command E Continue ''failed starting execution'' ti = (ts, None) \<and>
    loop_turns n E ts = (t, None) \<and>
    state t = Some st \<and> \<not> Exited st \<and> CurrentThread st = Some th \<and>
    Breakpoint th = Some b \<and> breakpoints t (BpID b) = Some reg \<and> handler reg = Some h \<and>
    call_handler E h t = (t', Some e)"
  then have "t' = t" by (auto dest: call_handler_failure)
  with a have "run_loop E t = Some (t, Some e)"
    using handler_error_aborts [of t st th b reg h E t' e] by simp
  with a have "run E ti = Some (t, Some e)"
    using run_aborts [of E ti ts n t t e] by simp
  with a show "Trace E None tr = Some (Some (result t), Some e)"
    by (simp add: Trace_def)
next
  assume "current_thread t = Inr th \<and> FunctionArguments E (GoroutineID th) (debug t) = Inr vars \<and>
    (\<forall>a \<in> set vars. Name a = ''event'' \<longrightarrow>
       (case Children a of [] \<Rightarrow> False
        | holder # _ \<Rightarrow>
            \<forall>c \<in> set (Children holder). Name c \<noteq> ''EventId'' \<and> Name c \<noteq> ''EventType''))"
  then show "onProcessEvent E t =
        (append_event \<lparr>Server = Some \<lparr>ID = 0, Type = 0\<rparr>, Client = None, Code = None\<rparr> t,
         None)"
    by (simp add: onProcessEvent_def onProcessEvent_args_no_fields)
next
  assume "current_thread t = Inr th \<and> FunctionArguments E (GoroutineID th) (debug t) = Inr vars \<and>
    (\<forall>a \<in> set vars. Name a = ''crt'' \<longrightarrow>
       (case Children a of [] \<Rightarrow> False
        | holder # _ \<Rightarrow> \<forall>c \<in> set (Children holder). Name c \<noteq> ''name''))"
  then show "populateCoroutineName E t = (t, None)"
    by (simp add: populateCoroutineName_def populate_args_no_name)
next
  assume a: "current_thread t = Inr th \<and>
    FunctionArguments E (GoroutineID th) (debug t) = Inr vars \<and>
    (\<forall>a \<in> set vars. Name a = ''event'' \<longrightarrow>
       (case Children a of [] \<Rightarrow> False
        | holder # _ \<Rightarrow> \<forall>c \<in> set (Children holder). Name c \<noteq> ''EventId'')) \<and>
    onProcessEvent E t = (t', None)"
  then obtain ev where ev: "onProcessEvent_args \<lparr>ID = 0, Type = 0\<rparr> vars = Inr ev"
    and t': "t' = append_event \<lparr>Server = Some ev, Client = None, Code = None\<rparr> t"
    by (auto simp: onProcessEvent_def split: sum.splits)
  from a ev have "ID ev = 0"
    using onProcessEvent_args_no_id [of vars "\<lparr>ID = 0, Type = 0\<rparr>" ev] by simp
  with t' show "\<exists>ev. ID ev = 0 \<and>
      t' = append_event \<lparr>Server = Some ev, Client = None, Code = None\<rparr> t"
    by blast
next
  assume a: "current_thread t = Inr th \<and>
    FunctionArguments E (GoroutineID th) (debug t) = Inr vars \<and>
    (\<forall>a \<in> set vars. Name a = ''event'' \<longrightarrow>
       (case Children a of [] \<Rightarrow> False
        | holder # _ \<Rightarrow> \<forall>c \<in> set (Children holder). Name c \<noteq> ''EventType'')) \<and>
    onProcessEvent E t = (t', None)"
  then obtain ev where ev: "onProcessEvent_args \<lparr>ID = 0, Type = 0\<rparr> vars = Inr ev"
    and t': "t' = append_event \<lparr>Server = Some ev, Client = None, Code = None\<rparr> t"
    by (auto simp: onProcessEvent_def split: sum.splits)
  from a ev have "Type ev = 0"
    using onProcessEvent_args_no_type [of vars "\<lparr>ID = 0, Type = 0\<rparr>" ev] by simp
  with t' show "\<exists>ev. Type ev = 0 \<and>
      t' = append_event \<lparr>Server = Some ev, Client = None, Code = None\<rparr> t"
    by blast
qed

theorem handler_hard_errors_witness:
  "onProcessEvent example_Env (example_session (event_stop False) failing_frame) =
     (example_session (event_stop False) failing_frame,
      Some (ErrWrap ''failed loading vars'' (External ''could not find goroutine''))) \<and>
   populateCoroutineName example_Env (example_session naming_stop failing_frame) =
     (example_session naming_stop failing_frame,
      Some (ErrWrap ''failed loading vars'' (External ''could not find goroutine''))) \<and>
   onReplayCommands example_Env (example_session commands_stop failing_frame) =
     (example_session commands_stop failing_frame,
      Some (ErrWrap ''failed loading vars'' (External ''could not find goroutine''))) \<and>
   onProcessEvent example_Env
       (example_session (event_stop False)
          (event_frame [leaf ''Version'' ''7'', leaf ''EventId'' ''abc''])) =
     (example_session (event_stop False)
        (event_frame [leaf ''Version'' ''7'', leaf ''EventId'' ''abc'']),
      Some (ErrWrapVals ''invalid event ID %v'' [''abc''] ErrSyntax)) \<and>
   onProcessEvent example_Env
       (example_session (event_stop False)
          (event_frame [leaf ''EventId'' ''1'', leaf ''EventType'' ''Started''])) =
     (example_session (event_stop False)
        (event_frame [leaf ''EventId'' ''1'', leaf ''EventType'' ''Started'']),
      Some (ErrWrapVals ''invalid event type %q'' [''Started'']
              (Err ''expected int in parens at the end''))) \<and>
   onReplayCommands example_Env (example_session commands_stop unparsed_command_frame) =
     (example_session commands_stop unparsed_command_frame,
      Some (ErrWrapVals ''invalid command type %q'' [''StartTimer'']
              (Err ''expected int in parens at the end''))) \<and>
   run_loop example_Env (example_session (event_stop False) failing_frame) =
     Some (example_session (event_stop False) failing_frame,
           Some (ErrWrap ''failed loading vars'' (External ''could not find goroutine''))) \<and>
   run_loop example_Env (example_session commands_stop unparsed_command_frame) =
     Some (example_session commands_stop unparsed_command_frame,
           Some (ErrWrapVals ''invalid command type %q'' [''StartTimer'']
                   (Err ''expected int in parens at the end''))) \<and>
   map_option snd (run unparsed_command_Env unparsed_new) =
     Some (Some (ErrWrapVals ''invalid command type %q'' [''StartTimer'']
                   (Err ''expected int in parens at the end''))) \<and>
   Trace unparsed_command_Env None execution_Tracer =
     Some (Some \<lparr>Events = unparsed_Events\<rparr>,
           Some (ErrWrapVals ''invalid command type %q'' [''StartTimer'']
                   (Err ''expected int in parens at the end''))) \<and>
   onProcessEvent example_Env (example_session (event_stop False) other_frame) =
     (append_event \<lparr>Server = Some \<lparr>ID = 0, Type = 0\<rparr>, Client = None, Code = None\<rparr>
        (example_session (event_stop False) other_frame), None) \<and>
   onProcessEvent example_Env
       (example_session (event_stop False) (event_frame [leaf ''Version'' ''7''])) =
     (append_event \<lparr>Server = Some \<lparr>ID = 0, Type = 0\<rparr>, Client = None, Code = None\<rparr>
        (example_session (event_stop False) (event_frame [leaf ''Version'' ''7''])), None) \<and>
   populateCoroutineName example_Env (example_session naming_stop other_frame) =
     (example_session naming_stop other_frame, None) \<and>
   populateCoroutineName example_Env (example_session naming_stop unnamed_frame) =
     (example_session naming_stop unnamed_frame, None) \<and>
   map_option ID
     (Server (last (Events (result (fst (onProcessEvent example_Env
        (example_session (event_stop False)
           (event_frame [leaf ''EventType'' ''WorkflowExecutionStarted (1)'']))))))))
     = Some 0 \<and>
   map_option Type
     (Server (last (Events (result (fst (onProcessEvent example_Env
        (example_session (event_stop False) (event_frame [leaf ''EventId'' ''1'']))))))))
     = Some 0"
proof -
  let ?E = example_Env
  let ?U = unparsed_command_Env
  let ?ef = "example_session (event_stop False) failing_frame"
  let ?nf = "example_session naming_stop failing_frame"
  let ?cf = "example_session commands_stop failing_frame"
  let ?ei = "example_session (event_stop False)
               (event_frame [leaf ''Version'' ''7'', leaf ''EventId'' ''abc''])"
  let ?et = "example_session (event_stop False)
               (event_frame [leaf ''EventId'' ''1'', leaf ''EventType'' ''Started''])"
  let ?cu = "example_session commands_stop unparsed_command_frame"
  let ?eo = "example_session (event_stop False) other_frame"
  let ?ev = "example_session (event_stop False) (event_frame [leaf ''Version'' ''7''])"
  let ?no = "example_session naming_stop other_frame"
  let ?nu = "example_session naming_stop unnamed_frame"
  let ?load = "ErrWrap ''failed loading vars'' (External ''could not find goroutine'')"
  let ?ext = "External ''could not find goroutine''"
  let ?parens = "Err ''expected int in parens at the end''"
  let ?cmd = "ErrWrapVals ''invalid command type %q'' [''StartTimer''] ?parens"
  let ?zero = "\<lparr>ID = 0, Type = 0\<rparr> :: EventServer"
  note c2 = conjunct2
  note claim = handler_hard_errors
  obtain eth where eth: "CurrentThread (event_stop False) = Some eth"
    by (simp add: example_defs)
  obtain cth where cth: "CurrentThread commands_stop = Some cth"
    by (simp add: example_defs)
  obtain nth where nth: "CurrentThread naming_stop = Some nth"
    by (simp add: example_defs)
  have cur: "current_thread (example_session (event_stop False) f) = Inr eth"
    "current_thread (example_session commands_stop f) = Inr cth"
    "current_thread (example_session naming_stop f) = Inr nth" for f
    using eth cth nth by (simp_all add: current_thread_def example_session_def)
  have st: "state (example_session s f) = Some s" for s f
    by (simp add: example_session_def)
  have live: "\<not> Exited (event_stop False)" "\<not> Exited commands_stop"
    by (simp_all add: event_stop_def commands_stop_def stop_at_def)
  have args: "FunctionArguments ?E g (debug (example_session s f)) = frame_args f"
    "LocalVariables ?E g (debug (example_session s f)) = frame_locals f" for g s f
    by (simp_all add: example_defs)
  have ff: "frame_args failing_frame = Inl ?ext" "frame_locals failing_frame = Inl ?ext"
    "frame_args other_frame = Inr [leaf ''weh'' ''0xc0000a2000'', leaf ''ctx'' ''0xc0000b4010'']"
    "frame_args (event_frame fs) = Inr [Variable ''event'' [] [Variable [] [] fs]]"
    "frame_locals (commands_frame cs) = Inr [Variable ''eventCommands'' [] cs]"
    "frame_args unnamed_frame = Inr [Variable ''crt'' [] [Variable [] [] [leaf ''id'' ''3'']]]"
    for fs cs
    by (simp_all add: failing_frame_def other_frame_def event_frame_def commands_frame_def
        unnamed_frame_def)
  have a1: "onProcessEvent ?E ?ef = (?ef, Some ?load)"
    using claim [where t = ?ef and th = eth and E = ?E and e = ?ext, THEN conjunct1]
      cur args ff by simp
  have a1n: "populateCoroutineName ?E ?nf = (?nf, Some ?load)"
    using claim [where t = ?nf and th = nth and E = ?E and e = ?ext, THEN conjunct1]
      cur args ff by simp
  have a2: "onReplayCommands ?E ?cf = (?cf, Some ?load)"
    using claim [where t = ?cf and th = cth and E = ?E and e = ?ext, THEN c2, THEN conjunct1]
      cur args ff by simp
  have p3: "strconv_ParseInt ''abc'' = Inl ErrSyntax"
    by (simp add: strconv_ParseInt_def digit_of_def)
  have a3: "onProcessEvent ?E ?ei =
              (?ei, Some (ErrWrapVals ''invalid event ID %v'' [''abc''] ErrSyntax))"
    using claim [where t = ?ei and th = eth and E = ?E and pre = "[]"
        and arg = "Variable ''event'' [] [Variable [] [] [leaf ''Version'' ''7'', leaf ''EventId'' ''abc'']]"
        and post = "[]" and eva = ?zero
        and holder = "Variable [] [] [leaf ''Version'' ''7'', leaf ''EventId'' ''abc'']"
        and others = "[]" and fpre = "[leaf ''Version'' ''7'']"
        and child = "leaf ''EventId'' ''abc''" and frest = "[]" and evb = ?zero
        and e = ErrSyntax, THEN c2, THEN c2, THEN conjunct1]
      cur args ff p3
    by (simp add: leaf_def)
  have p4: "intInTrailingParens ''Started'' = Inl ?parens"
    by (simp add: intInTrailingParens_def strings_Index_def)
  have q4: "onProcessEvent_children ?zero [leaf ''EventId'' ''1''] = Inr \<lparr>ID = 1, Type = 0\<rparr>"
    by code_simp
  have a4: "onProcessEvent ?E ?et =
              (?et, Some (ErrWrapVals ''invalid event type %q'' [''Started''] ?parens))"
    using claim [where t = ?et and th = eth and E = ?E and pre = "[]"
        and arg = "Variable ''event'' [] [Variable [] [] [leaf ''EventId'' ''1'', leaf ''EventType'' ''Started'']]"
        and post = "[]" and eva = ?zero
        and holder = "Variable [] [] [leaf ''EventId'' ''1'', leaf ''EventType'' ''Started'']"
        and others = "[]" and fpre = "[leaf ''EventId'' ''1'']"
        and child = "leaf ''EventType'' ''Started''" and frest = "[]"
        and evb = "\<lparr>ID = 1, Type = 0\<rparr>"
        and e = ?parens, THEN c2, THEN c2, THEN c2, THEN conjunct1]
      cur args ff p4 q4
    by (simp add: leaf_def)
  have p5: "intInTrailingParens ''StartTimer'' = Inl ?parens"
    by (simp add: intInTrailingParens_def strings_Index_def)
  have q5: "onReplayCommands_children [] [command_var ''ScheduleActivityTask (1)''] = Inr [1]"
    by code_simp
  have a5: "onReplayCommands ?E ?cu = (?cu, Some ?cmd)"
    using claim [where t = ?cu and th = cth and E = ?E and pre = "[]"
        and arg = "Variable ''eventCommands'' []
                     [command_var ''ScheduleActivityTask (1)'', command_var ''StartTimer'']"
        and post = "[]" and csa = "[]"
        and cpre = "[command_var ''ScheduleActivityTask (1)'']"
        and command = "command_var ''StartTimer''" and crest = "[]" and csb = "[1]"
        and holder = "Variable [] [] [leaf ''CommandType'' ''StartTimer'']" and others = "[]"
        and child = "leaf ''CommandType'' ''StartTimer''" and frest = "[]"
        and e = ?parens, THEN c2, THEN c2, THEN c2, THEN c2, THEN conjunct1]
      cur args ff p5 q5
    by (simp add: leaf_def command_var_def unparsed_command_frame_def)
  have bpe: "map_option BpID (Breakpoint eth) = Some 2"
    using eth by (auto simp: event_stop_def stop_at_def)
  have reg: "map_option handler (breakpoints (example_session s f) 2) = Some (Some H_onProcessEvent)"
    for s f
    by (simp add: example_session_def example_registry_def registered_def)
  have hb: "hit_breakpoint ?E eth ?ef = (?ef, Some ?load)"
    using bpe reg [of "event_stop False" failing_frame] a1
    by (auto simp: hit_breakpoint_def call_handler_def split: option.splits)
  have a6: "run_loop ?E ?ef = Some (?ef, Some ?load)"
    using claim [where t = ?ef and st = "event_stop False" and th = eth and E = ?E
        and t' = ?ef and e = ?load,
        THEN c2, THEN c2, THEN c2, THEN c2, THEN c2, THEN conjunct1] st eth hb live
    by simp
  obtain cb where cb: "Breakpoint cth = Some cb" "BpID cb = 3"
    using cth by (auto simp: commands_stop_def stop_at_def)
  have creg: "breakpoints (example_session s f) 3 =
                Some (registered 3 [] (sdk_dir @ ''internal_task_handlers.go'') 2
                        (Some H_onReplayCommands))" for s f
    by (simp add: example_session_def example_registry_def)
  have hreg: "handler (registered 3 [] (sdk_dir @ ''internal_task_handlers.go'') 2
                         (Some H_onReplayCommands)) = Some H_onReplayCommands"
    by (simp add: registered_def)
  have ch: "call_handler ?E H_onReplayCommands ?cu = (?cu, Some ?cmd)"
    using a5 by (simp add: call_handler_def)
  have a7: "run_loop ?E ?cu = Some (?cu, Some ?cmd)"
    using claim [where t = ?cu and st = commands_stop and th = cth and E = ?E and b = cb
        and reg = "registered 3 [] (sdk_dir @ ''internal_task_handlers.go'') 2
                     (Some H_onReplayCommands)"
        and h = H_onReplayCommands and t' = ?cu and e = ?cmd,
        THEN c2, THEN c2, THEN c2, THEN c2, THEN c2, THEN c2, THEN conjunct1]
      st cth cb creg hreg ch live
    by simp
  have new: "newTrace ?U execution_Tracer = Inr unparsed_new"
    using unparsed_run_turns
    by (cases "newTrace ?U execution_Tracer") (simp_all add: unparsed_new_def)
  obtain r0 where start0: "do_command ?U Continue ''failed starting execution'' unparsed_new =
      (unparsed_started, r0)"
    by (cases "do_command ?U Continue ''failed starting execution'' unparsed_new")
       (simp add: unparsed_started_def)
  obtain s2 r2 where t2: "loop_turns 2 ?U unparsed_started = (s2, r2)"
    by (cases "loop_turns 2 ?U unparsed_started")
  obtain sh rh where uh: "call_handler ?U H_onReplayCommands s2 = (sh, rh)"
    by (cases "call_handler ?U H_onReplayCommands s2")
  from unparsed_run_turns new start0 t2 uh
  have vals: "r0 = None" "r2 = None" "state s2 = Some commands_stop"
    "map_option handler (breakpoints s2 3) = Some (Some H_onReplayCommands)"
    "rh = Some ?cmd" "result s2 = \<lparr>Events = unparsed_Events\<rparr>"
    by simp_all
  from vals(4) obtain ureg where ureg: "breakpoints s2 3 = Some ureg"
    "handler ureg = Some H_onReplayCommands"
    by (cases "breakpoints s2 3") auto
  have run: "run ?U unparsed_new = Some (s2, Some ?cmd)"
    using claim [where ti = unparsed_new and ts = unparsed_started and n = 2 and t = s2
        and st = commands_stop and th = cth and E = ?U and b = cb and reg = ureg
        and h = H_onReplayCommands and t' = sh and e = ?cmd,
        THEN c2, THEN c2, THEN c2, THEN c2, THEN c2, THEN c2, THEN c2, THEN conjunct1]
      start0 t2 uh vals cth cb ureg live
    by simp
  then have a8: "map_option snd (run ?U unparsed_new) = Some (Some ?cmd)"
    by simp
  have a9: "Trace ?U None execution_Tracer = Some (Some \<lparr>Events = unparsed_Events\<rparr>, Some ?cmd)"
    using claim [where tr = execution_Tracer and ti = unparsed_new and ts = unparsed_started
        and n = 2 and t = s2
        and st = commands_stop and th = cth and E = ?U and b = cb and reg = ureg
        and h = H_onReplayCommands and t' = sh and e = ?cmd,
        THEN c2, THEN c2, THEN c2, THEN c2, THEN c2, THEN c2, THEN c2, THEN c2, THEN conjunct1]
      new start0 t2 uh vals cth cb ureg live
    by simp
  have a10: "onProcessEvent ?E ?eo =
              (append_event \<lparr>Server = Some ?zero, Client = None, Code = None\<rparr> ?eo, None)"
    using claim [where t = ?eo and th = eth and E = ?E
        and vars = "[leaf ''weh'' ''0xc0000a2000'', leaf ''ctx'' ''0xc0000b4010'']",
        THEN c2, THEN c2, THEN c2, THEN c2, THEN c2, THEN c2, THEN c2, THEN c2, THEN c2,
        THEN conjunct1] cur args ff
    by (simp add: leaf_def)
  have a10v: "onProcessEvent ?E ?ev =
              (append_event \<lparr>Server = Some ?zero, Client = None, Code = None\<rparr> ?ev, None)"
    using claim [where t = ?ev and th = eth and E = ?E
        and vars = "[Variable ''event'' [] [Variable [] [] [leaf ''Version'' ''7'']]]",
        THEN c2, THEN c2, THEN c2, THEN c2, THEN c2, THEN c2, THEN c2, THEN c2, THEN c2,
        THEN conjunct1] cur args ff
    by (simp add: leaf_def)
  have a11: "populateCoroutineName ?E ?no = (?no, None)"
    using claim [where t = ?no and th = nth and E = ?E
        and vars = "[leaf ''weh'' ''0xc0000a2000'', leaf ''ctx'' ''0xc0000b4010'']",
        THEN c2, THEN c2, THEN c2, THEN c2, THEN c2, THEN c2, THEN c2, THEN c2, THEN c2,
        THEN c2, THEN conjunct1] cur args ff
    by (simp add: leaf_def)
  have a11u: "populateCoroutineName ?E ?nu = (?nu, None)"
    using claim [where t = ?nu and th = nth and E = ?E
        and vars = "[Variable ''crt'' [] [Variable [] [] [leaf ''id'' ''3'']]]",
        THEN c2, THEN c2, THEN c2, THEN c2, THEN c2, THEN c2, THEN c2, THEN c2, THEN c2,
        THEN c2, THEN conjunct1] cur args ff
    by (simp add: leaf_def)
  let ?ty = "example_session (event_stop False)
               (event_frame [leaf ''EventType'' ''WorkflowExecutionStarted (1)''])"
  let ?id = "example_session (event_stop False) (event_frame [leaf ''EventId'' ''1''])"
  have q12: "onProcessEvent_args ?zero
               [Variable ''event'' [] [Variable [] []
                  [leaf ''EventType'' ''WorkflowExecutionStarted (1)'']]] =
             Inr \<lparr>ID = 0, Type = 1\<rparr>"
    by code_simp
  have r12: "onProcessEvent ?E ?ty =
               (append_event \<lparr>Server = Some \<lparr>ID = 0, Type = 1\<rparr>, Client = None, Code = None\<rparr> ?ty,
                None)"
    using cur args ff q12 by (simp add: onProcessEvent_def)
  have "\<exists>ev. ID ev = 0 \<and>
          fst (onProcessEvent ?E ?ty) =
            append_event \<lparr>Server = Some ev, Client = None, Code = None\<rparr> ?ty"
    using claim [where t = ?ty and th = eth and E = ?E
        and vars = "[Variable ''event'' [] [Variable [] []
                       [leaf ''EventType'' ''WorkflowExecutionStarted (1)'']]]"
        and t' = "fst (onProcessEvent ?E ?ty)",
        THEN c2, THEN c2, THEN c2, THEN c2, THEN c2, THEN c2, THEN c2, THEN c2, THEN c2,
        THEN c2, THEN c2, THEN conjunct1] cur args ff r12
    by (simp add: leaf_def)
  then have a12: "map_option ID (Server (last (Events (result (fst (onProcessEvent ?E ?ty)))))) =
                    Some 0"
    by (auto simp: append_event_def)
  have q13: "onProcessEvent_args ?zero [Variable ''event'' [] [Variable [] [] [leaf ''EventId'' ''1'']]] =
             Inr \<lparr>ID = 1, Type = 0\<rparr>"
    by code_simp
  have r13: "onProcessEvent ?E ?id =
               (append_event \<lparr>Server = Some \<lparr>ID = 1, Type = 0\<rparr>, Client = None, Code = None\<rparr> ?id,
                None)"
    using cur args ff q13 by (simp add: onProcessEvent_def)
  have "\<exists>ev. Type ev = 0 \<and>
          fst (onProcessEvent ?E ?id) =
            append_event \<lparr>Server = Some ev, Client = None, Code = None\<rparr> ?id"
    using claim [where t = ?id and th = eth and E = ?E
        and vars = "[Variable ''event'' [] [Variable [] [] [leaf ''EventId'' ''1'']]]"
        and t' = "fst (onProcessEvent ?E ?id)",
        THEN c2, THEN c2, THEN c2, THEN c2, THEN c2, THEN c2, THEN c2, THEN c2, THEN c2,
        THEN c2, THEN c2, THEN c2] cur args ff r13
    by (simp add: leaf_def)
  then have a13: "map_option Type (Server (last (Events (result (fst (onProcessEvent ?E ?id)))))) =
                    Some 0"
    by (auto simp: append_event_def)
  show ?thesis
    by (intro conjI) (fact a1 a1n a2 a3 a4 a5 a6 a7 a8 a9 a10 a10v a11 a11u a12 a13)+
qed

section \<open>Names of the units\<close>

lemma populateCoroutineName_keeps_name:
  assumes "\<forall>g d vars v. FunctionArguments E g d = Inr vars \<and> populate_args vars = Inr (Some v)
                  \<longrightarrow> v = \<nu> g"
    and "populateCoroutineName E t = (t', r)"
    and "coroutineNames t U = Some (\<nu> U)"
  shows "coroutineNames t' U = Some (\<nu> U)"
proof (cases "current_thread t")
  case (Inl e)
  with assms show ?thesis by (simp add: populateCoroutineName_def)
next
  case (Inr th)
  note th = this
  show ?thesis
  proof (cases "FunctionArguments E (GoroutineID th) (debug t)")
    case (Inl e)
    with assms th show ?thesis by (simp add: populateCoroutineName_def)
  next
    case (Inr vars)
    note vars = this
    show ?thesis
    proof (cases "populate_args vars")
      case (Inl e)
      with assms th vars show ?thesis by (simp add: populateCoroutineName_def)
    next
      case (Inr found)
      show ?thesis
      proof (cases found)
        case None
        with assms th vars Inr show ?thesis by (simp add: populateCoroutineName_def)
      next
        case (Some v)
        with assms(1) vars Inr have "v = \<nu> (GoroutineID th)" by blast
        with assms(2,3) th vars Inr Some show ?thesis
          by (auto simp: populateCoroutineName_def)
      qed
    qed
  qed
qed

lemma call_handler_keeps_name:
  assumes "\<forall>g d vars v. FunctionArguments E g d = Inr vars \<and> populate_args vars = Inr (Some v)
                  \<longrightarrow> v = \<nu> g"
    and "call_handler E h t = (t', r)"
    and "coroutineNames t U = Some (\<nu> U)"
  shows "coroutineNames t' U = Some (\<nu> U)"
proof (cases h)
  case H_onProcessEvent
  with assms(2,3) show ?thesis
    by (cases r) (auto simp: call_handler_def dest!: onProcessEvent_failure onProcessEvent_success)
next
  case H_onReplayCommands
  with assms(2,3) show ?thesis
    by (cases r)
       (auto simp: call_handler_def dest!: onReplayCommands_failure onReplayCommands_success)
next
  case H_populateCoroutineName
  with assms show ?thesis
    using populateCoroutineName_keeps_name [of E \<nu> t t' r U] by (simp add: call_handler_def)
qed

lemma hit_breakpoint_keeps_name:
  assumes "\<forall>g d vars v. FunctionArguments E g d = Inr vars \<and> populate_args vars = Inr (Some v)
                  \<longrightarrow> v = \<nu> g"
    and "hit_breakpoint E th t = (t', r)"
    and "coroutineNames t U = Some (\<nu> U)"
  shows "coroutineNames t' U = Some (\<nu> U)"
  using assms(2,3) call_handler_keeps_name [OF assms(1), of _ t t' r U]
  by (auto simp: hit_breakpoint_def split: option.splits)

text \<open>After a turn of the loop the table of names is the one that the handler of the
  turn left.\<close>

lemma run_body_names_eq:
  assumes "run_body E t = (t', r)"
  shows "t' = t \<or> (\<exists>th t1 r1. current_thread t = Inr th \<and> hit_breakpoint E th t = (t1, r1) \<and>
           coroutineNames t' = coroutineNames t1)"
  using assms
proof (cases rule: run_body_cases)
  case panic
  then show ?thesis by simp
next
  case (turn st th t1 r1 t2 r2)
  have cur: "current_thread t = Inr th"
    using turn(1,2) by (simp add: current_thread_def)
  have "coroutineNames t' = coroutineNames t1"
  proof (cases r1)
    case (Some e)
    with turn(4) show ?thesis by simp
  next
    case None
    note r1 = this
    note cn = cancel_next_frame [OF turn(5) [OF r1]]
    show ?thesis
    proof (cases r2)
      case (Some e)
      with turn(6) r1 cn show ?thesis by simp
    next
      case None
      note r2 = this
      show ?thesis
      proof (cases "goStdOrTemporal E th")
        case True
        from step_out_frame [OF turn(7) [OF r1 r2 True]] cn show ?thesis by simp
      next
        case False
        from do_command_frame [OF turn(8) [OF r1 r2 False]] cn show ?thesis by simp
      qed
    qed
  qed
  with cur turn(3) show ?thesis by blast
qed

lemma run_body_names:
  assumes one: "\<forall>g d vars v. FunctionArguments E g d = Inr vars \<and> populate_args vars = Inr (Some v)
                  \<longrightarrow> v = \<nu> g"
    and body: "run_body E t = (t', r)"
    and named: "coroutineNames t U = Some (\<nu> U)"
  shows "coroutineNames t' U = Some (\<nu> U)"
proof -
  from run_body_names_eq [OF body] show ?thesis
  proof
    assume "t' = t"
    with named show ?thesis by simp
  next
    assume "\<exists>th t1 r1. current_thread t = Inr th \<and> hit_breakpoint E th t = (t1, r1) \<and>
           coroutineNames t' = coroutineNames t1"
    then obtain th t1 r1 where hb: "hit_breakpoint E th t = (t1, r1)"
      and eq: "coroutineNames t' = coroutineNames t1"
      by blast
    from hit_breakpoint_keeps_name [OF one hb named] eq show ?thesis by simp
  qed
qed

lemma run_body_code_names:
  assumes "run_body E t = (t', r)" and "state t = Some st" and "CurrentThread st = Some th"
  shows "\<forall>e \<in> set (drop (length (Events (result t))) (Events (result t'))). \<forall>c.
           Code e = Some c \<longrightarrow> Coroutine c = map_get (coroutineNames t') (GoroutineID th)"
  using assms(1)
proof (cases rule: run_body_cases)
  case panic
  then show ?thesis by simp
next
  case (turn st' th' t1 r1 t2 r2)
  with assms(2,3) have th': "th' = th" by simp
  from hit_breakpoint_events [OF turn(3)] obtain new1 where
    new1: "Events (result t1) = Events (result t) @ new1" "\<forall>e \<in> set new1. Code e = None"
    by blast
  show ?thesis
  proof (cases r1)
    case (Some e)
    with turn(4) new1 show ?thesis by auto
  next
    case None
    note r1 = this
    note cn = cancel_next_frame [OF turn(5) [OF r1]]
    show ?thesis
    proof (cases r2)
      case (Some e)
      with turn(6) r1 cn new1 show ?thesis by auto
    next
      case None
      note r2 = this
      show ?thesis
      proof (cases "goStdOrTemporal E th'")
        case True
        from step_out_frame [OF turn(7) [OF r1 r2 True]] cn new1 show ?thesis by auto
      next
        case False
        note dc = do_command_frame [OF turn(8) [OF r1 r2 False]]
        have "Events (result t') = Events (result t) @ new1 @
                (if ThFile th' \<noteq> [] then
                   [\<lparr>Server = None, Client = None,
                     Code = Some \<lparr>Package = CurrentPackage E (debug t2), File = ThFile th',
                        Line = ThLine th',
                        Coroutine = map_get (coroutineNames t2) (GoroutineID th')\<rparr>\<rparr>]
                 else [])"
          using dc cn new1 False by (simp add: record_code_def)
        moreover have "coroutineNames t' = coroutineNames t2"
          using dc by simp
        ultimately show ?thesis
          using new1(2) th' by auto
      qed
    qed
  qed
qed

text \<open>Only a naming observation for a unit changes the entry of that unit.\<close>

lemma populateCoroutineName_changes:
  assumes "populateCoroutineName E t = (t', r)"
  shows "coroutineNames t' u = coroutineNames t u \<or>
         (\<exists>th vs v. current_thread t = Inr th \<and> u = GoroutineID th \<and>
            FunctionArguments E u (debug t) = Inr vs \<and> populate_args vs = Inr (Some v) \<and>
            coroutineNames t' u = Some v)"
  using assms
  by (cases "u = GoroutineID (projr (current_thread t))")
     (auto simp: populateCoroutineName_def split: sum.splits option.splits)

lemma call_handler_changes:
  assumes "call_handler E h t = (t', r)"
  shows "coroutineNames t' u = coroutineNames t u \<or>
         (\<exists>th vs v. current_thread t = Inr th \<and> u = GoroutineID th \<and>
            FunctionArguments E u (debug t) = Inr vs \<and> populate_args vs = Inr (Some v) \<and>
            coroutineNames t' u = Some v)"
proof (cases h)
  case H_onProcessEvent
  with assms show ?thesis
    by (cases r) (auto simp: call_handler_def dest!: onProcessEvent_failure onProcessEvent_success)
next
  case H_onReplayCommands
  with assms show ?thesis
    by (cases r)
       (auto simp: call_handler_def dest!: onReplayCommands_failure onReplayCommands_success)
next
  case H_populateCoroutineName
  with assms show ?thesis
    using populateCoroutineName_changes [of E t t' r u] by (simp add: call_handler_def)
qed

lemma hit_breakpoint_changes:
  assumes "hit_breakpoint E th t = (t', r)"
  shows "coroutineNames t' u = coroutineNames t u \<or>
         (\<exists>th vs v. current_thread t = Inr th \<and> u = GoroutineID th \<and>
            FunctionArguments E u (debug t) = Inr vs \<and> populate_args vs = Inr (Some v) \<and>
            coroutineNames t' u = Some v)"
proof (cases "Breakpoint th")
  case None
  with assms show ?thesis by (simp add: hit_breakpoint_def)
next
  case (Some b)
  note b = this
  show ?thesis
  proof (cases "breakpoints t (BpID b)")
    case None
    with assms b show ?thesis by (simp add: hit_breakpoint_def)
  next
    case (Some registered)
    note reg = this
    show ?thesis
    proof (cases "handler registered")
      case None
      with assms b reg show ?thesis by (simp add: hit_breakpoint_def)
    next
      case (Some h)
      with assms b reg have "call_handler E h t = (t', r)"
        by (simp add: hit_breakpoint_def)
      then show ?thesis by (rule call_handler_changes)
    qed
  qed
qed

lemma run_body_changes:
  assumes "run_body E t = (t', r)"
  shows "coroutineNames t' u = coroutineNames t u \<or>
         (\<exists>th vs v. current_thread t = Inr th \<and> u = GoroutineID th \<and>
            FunctionArguments E u (debug t) = Inr vs \<and> populate_args vs = Inr (Some v) \<and>
            coroutineNames t' u = Some v)"
proof -
  from run_body_names_eq [OF assms] show ?thesis
  proof
    assume "t' = t"
    then show ?thesis by simp
  next
    assume "\<exists>th t1 r1. current_thread t = Inr th \<and> hit_breakpoint E th t = (t1, r1) \<and>
           coroutineNames t' = coroutineNames t1"
    then obtain th t1 r1 where hb: "hit_breakpoint E th t = (t1, r1)"
      and eq: "coroutineNames t' = coroutineNames t1"
      by blast
    from hit_breakpoint_changes [OF hb, of u] eq show ?thesis by simp
  qed
qed

lemma naming_Env_one_name:
  "\<forall>g d vs v. FunctionArguments naming_Env g d = Inr vs \<and> populate_args vs = Inr (Some v)
     \<longrightarrow> v = unit_name g"
  by (auto simp: naming_Env_def naming_frame_def leaf_def)

lemma named_naming_loop:
  "map_option (\<lambda>(t', r). (coroutineNames t' 7, r)) (run_loop naming_Env named_naming_session) =
     Some (Some ''root'', None)"
  by code_simp

text \<open>
  Claim C7. The naming handler records the name that it reads for the unit of the
  current stop. Every code step that a turn of the loop appends carries the name that
  the table holds for the unit of the stop after the handler of that turn has run, and
  the empty name when the table holds none, whichever breakpoint was hit, if any. A turn
  leaves the entry of a unit as it is unless the naming handler records a name for that
  very unit in that turn. Where the debugger shows each unit under one name, a name that
  the table holds for a unit stays there through every later turn and to the end of the
  loop; so once a name is recorded for a unit, every later code step of that unit
  carries it.
\<close>

theorem recorded_name_is_carried:
  "(current_thread t = Inr th \<and> FunctionArguments E (GoroutineID th) (debug t) = Inr vars \<and>
    populate_args vars = Inr (Some N) \<longrightarrow>
      populateCoroutineName E t =
        (t\<lparr>coroutineNames := (coroutineNames t)(GoroutineID th \<mapsto> N)\<rparr>, None)) \<and>
   (state t = Some st \<and> CurrentThread st = Some th \<and> run_body E t = (t', r) \<longrightarrow>
      (\<forall>e \<in> set (drop (length (Events (result t))) (Events (result t'))). \<forall>c.
         Code e = Some c \<longrightarrow>
           Coroutine c = (case coroutineNames t' (GoroutineID th) of None \<Rightarrow> [] | Some n \<Rightarrow> n))) \<and>
   ((\<forall>g d vs v. FunctionArguments E g d = Inr vs \<and> populate_args vs = Inr (Some v) \<longrightarrow> v = \<nu> g) \<and>
    coroutineNames t U = Some (\<nu> U) \<and> run_body E t = (t', r) \<longrightarrow>
      coroutineNames t' U = Some (\<nu> U)) \<and>
   ((\<forall>g d vs v. FunctionArguments E g d = Inr vs \<and> populate_args vs = Inr (Some v) \<longrightarrow> v = \<nu> g) \<and>
    coroutineNames t U = Some (\<nu> U) \<and> run_loop E t = Some (t', r) \<longrightarrow>
      coroutineNames t' U = Some (\<nu> U)) \<and>
   (run_body E t = (t', r) \<longrightarrow>
      coroutineNames t' U = coroutineNames t U \<or>
      (\<exists>th vs v. current_thread t = Inr th \<and> U = GoroutineID th \<and>
         FunctionArguments E U (debug t) = Inr vs \<and> populate_args vs = Inr (Some v) \<and>
         coroutineNames t' U = Some v))"
proof (intro conjI impI)
  assume "current_thread t = Inr th \<and> FunctionArguments E (GoroutineID th) (debug t) = Inr vars \<and>
    populate_args vars = Inr (Some N)"
  then show "populateCoroutineName E t =
        (t\<lparr>coroutineNames := (coroutineNames t)(GoroutineID th \<mapsto> N)\<rparr>, None)"
    by (simp add: populateCoroutineName_def)
next
  assume "state t = Some st \<and> CurrentThread st = Some th \<and> run_body E t = (t', r)"
  then show "\<forall>e \<in> set (drop (length (Events (result t))) (Events (result t'))). \<forall>c.
         Code e = Some c \<longrightarrow>
           Coroutine c = (case coroutineNames t' (GoroutineID th) of None \<Rightarrow> [] | Some n \<Rightarrow> n)"
    using run_body_code_names [of E t t' r st th] by (simp add: map_get_def)
next
  assume "(\<forall>g d vs v. FunctionArguments E g d = Inr vs \<and> populate_args vs = Inr (Some v) \<longrightarrow> v = \<nu> g) \<and>
    coroutineNames t U = Some (\<nu> U) \<and> run_body E t = (t', r)"
  then show "coroutineNames t' U = Some (\<nu> U)"
    using run_body_names [of E \<nu> t t' r U] by blast
next
  assume a: "(\<forall>g d vs v. FunctionArguments E g d = Inr vs \<and> populate_args vs = Inr (Some v) \<longrightarrow> v = \<nu> g) \<and>
    coroutineNames t U = Some (\<nu> U) \<and> run_loop E t = Some (t', r)"
  then have loop: "run_loop E t = Some (t', r)" by simp
  show "coroutineNames t' U = Some (\<nu> U)"
  proof (rule run_loop_invariant [OF loop, where P = "\<lambda>s. coroutineNames s U = Some (\<nu> U)"])
    show "coroutineNames t U = Some (\<nu> U)" using a by simp
  next
    fix s s1 r1
    assume "coroutineNames s U = Some (\<nu> U)" and "run_body E s = (s1, r1)"
    then show "coroutineNames s1 U = Some (\<nu> U)"
      using run_body_names [of E \<nu> s s1 r1 U] a by blast
  qed
next
  assume "run_body E t = (t', r)"
  then show "coroutineNames t' U = coroutineNames t U \<or>
      (\<exists>th vs v. current_thread t = Inr th \<and> U = GoroutineID th \<and>
         FunctionArguments E U (debug t) = Inr vs \<and> populate_args vs = Inr (Some v) \<and>
         coroutineNames t' U = Some v)"
    by (rule run_body_changes)
qed

theorem recorded_name_is_carried_witness:
  "populateCoroutineName example_Env (example_session naming_stop (naming_frame ''root'')) =
     ((example_session naming_stop (naming_frame ''root''))\<lparr>coroutineNames := [7 \<mapsto> ''root'']\<rparr>,
      None) \<and>
   Events (result (fst (run_body example_Env named_user_session))) =
     [\<lparr>Server = None, Client = None,
       Code = Some \<lparr>Package = ''example.com/pkg'', File = ''/home/u/app/workflow.go'',
                    Line = 13, Coroutine = ''root''\<rparr>\<rparr>] \<and>
   map_option Coroutine
     (Code (hd (Events (result (fst (run_body example_Env named_user_session)))))) =
     Some ''root'' \<and>
   coroutineNames (fst (run_body naming_Env named_naming_session)) 7 = Some ''root'' \<and>
   coroutineNames (fst (the (run_loop naming_Env named_naming_session))) 7 = Some ''root'' \<and>
   coroutineNames (fst (run_body example_Env named_user_session)) 7 =
     coroutineNames named_user_session 7"
proof -
  let ?E = example_Env
  let ?n = "example_session naming_stop (naming_frame ''root'')"
  let ?u = named_user_session
  note c2 = conjunct2
  obtain nth where nth: "CurrentThread naming_stop = Some nth" and ng: "GoroutineID nth = 7"
    by (simp add: example_defs)
  obtain uth where uth: "CurrentThread (user_stop 13 None False) = Some uth"
    and ug: "GoroutineID uth = 7"
    by (simp add: example_defs)
  have cur: "current_thread ?n = Inr nth"
    using nth by (simp add: current_thread_def example_session_def)
  have args: "FunctionArguments ?E (GoroutineID nth) (debug ?n) =
                Inr [Variable ''crt'' [] [Variable [] [] [leaf ''name'' ''root'']]]"
    by (simp add: example_defs)
  have pop: "populate_args [Variable ''crt'' [] [Variable [] [] [leaf ''name'' ''root'']]] =
               Inr (Some ''root'')"
    by (simp add: leaf_def)
  have names0: "coroutineNames ?n = Map.empty"
    by (simp add: example_session_def fresh_trace_def)
  have a1: "populateCoroutineName ?E ?n = (?n\<lparr>coroutineNames := [7 \<mapsto> ''root'']\<rparr>, None)"
    using recorded_name_is_carried [where t = ?n and th = nth and E = ?E
        and vars = "[Variable ''crt'' [] [Variable [] [] [leaf ''name'' ''root'']]]"
        and N = "''root''", THEN conjunct1] cur args pop ng names0
    by simp
  have ust: "state ?u = Some (user_stop 13 None False)"
    by (simp add: named_user_session_def example_session_def)
  have body: "run_body ?E ?u = (fst (run_body ?E ?u), snd (run_body ?E ?u))"
    by simp
  have evs: "Events (result (fst (run_body ?E ?u))) =
     [\<lparr>Server = None, Client = None,
       Code = Some \<lparr>Package = ''example.com/pkg'', File = ''/home/u/app/workflow.go'',
                    Line = 13, Coroutine = ''root''\<rparr>\<rparr>]"
    by (simp add: run_body_def named_user_session_def example_defs hit_breakpoint_def
        cancel_next_def goStdOrTemporal_def strings_HasPrefix_def ToSlash_def do_command_def
        scripted_Command_def record_code_def map_get_def append_event_def)
  have nm: "coroutineNames (fst (run_body ?E ?u)) 7 = Some ''root''"
    by (simp add: run_body_def named_user_session_def example_defs hit_breakpoint_def
        cancel_next_def goStdOrTemporal_def strings_HasPrefix_def ToSlash_def do_command_def
        scripted_Command_def record_code_def map_get_def append_event_def)
  have len0: "length (Events (result ?u)) = 0"
    by (simp add: named_user_session_def example_session_def fresh_trace_def)
  have a2: "\<forall>e \<in> set (Events (result (fst (run_body ?E ?u)))). \<forall>c.
      Code e = Some c \<longrightarrow> Coroutine c = ''root''"
    using recorded_name_is_carried [where t = ?u and st = "user_stop 13 None False" and th = uth
        and E = ?E and t' = "fst (run_body ?E ?u)" and r = "snd (run_body ?E ?u)",
        THEN c2, THEN conjunct1] ust uth body ug nm len0
    by simp
  have named: "coroutineNames named_naming_session 7 = Some (unit_name 7)"
    by (simp add: named_naming_session_def unit_name_def)
  have a3: "coroutineNames (fst (run_body naming_Env named_naming_session)) 7 = Some ''root''"
    using recorded_name_is_carried [where E = naming_Env and \<nu> = unit_name
        and t = named_naming_session and U = 7
        and t' = "fst (run_body naming_Env named_naming_session)"
        and r = "snd (run_body naming_Env named_naming_session)",
        THEN c2, THEN c2, THEN conjunct1] naming_Env_one_name named
    by (simp add: unit_name_def)
  from named_naming_loop obtain t' where
    loop: "run_loop naming_Env named_naming_session = Some (t', None)"
    by (cases "run_loop naming_Env named_naming_session") auto
  have a4: "coroutineNames (fst (the (run_loop naming_Env named_naming_session))) 7 = Some ''root''"
    using recorded_name_is_carried [where E = naming_Env and \<nu> = unit_name
        and t = named_naming_session and U = 7 and t' = t' and r = None,
        THEN c2, THEN c2, THEN c2, THEN conjunct1] naming_Env_one_name named loop
    by (simp add: unit_name_def)
  have uargs: "FunctionArguments ?E g (debug ?u) = Inr []" for g
    by (simp add: named_user_session_def example_defs)
  have a5: "coroutineNames (fst (run_body ?E ?u)) 7 = coroutineNames ?u 7"
    using recorded_name_is_carried [where E = ?E and t = ?u and U = 7
        and t' = "fst (run_body ?E ?u)" and r = "snd (run_body ?E ?u)",
        THEN c2, THEN c2, THEN c2, THEN c2] body uargs
    by auto
  have a2': "map_option Coroutine (Code (hd (Events (result (fst (run_body ?E ?u)))))) =
               Some ''root''"
    using a2 by (simp add: evs)
  from a1 evs a2' a3 a4 a5 show ?thesis by blast
qed

section \<open>A breakpoint hit while a step is in progress\<close>

lemmas run_body_defs = run_body_def hit_breakpoint_def call_handler_def cancel_next_def
  goStdOrTemporal_def strings_HasPrefix_def ToSlash_def do_command_def step_out_def
  scripted_Command_def record_code_def map_get_def append_event_def

lemmas parse_defs = intInTrailingParens_def strings_Index_def strings_HasSuffix_def
  suffix_to_prefix strconv_Atoi_def strconv_ParseInt_def digit_of_def Let_def

text \<open>
  Claim C1, as stated, fails on \<^verbatim>\<open>trace.run\<close> of src/tracer/trace.go. At a stop
  with a step in progress at the breakpoint of the event handler, which only observes
  (the earlier revision registers it as not for stepping), the loop runs the handler,
  cancels the step and steps out: it asks the debugger for no continue.
\<close>

theorem observational_hit_cancels_next:
  "NextInProgress (event_stop True) \<and>
   map_option handler (example_registry 2) = Some (Some H_onProcessEvent) \<and>
   snd (run_body example_Env (last_stop_session (event_stop True) started_event_frame)) = None \<and>
   requests (debug (fst (run_body example_Env
      (last_stop_session (event_stop True) started_event_frame)))) =
     [ReqCancelNext, ReqCommand StepOut]"
  by (simp add: run_body_defs example_defs exited_def onProcessEvent_def parse_defs sdk_dir_def)

text \<open>
  Claim C1, amended. In \<^verbatim>\<open>trace.run\<close> of src/tracer/trace.go a breakpoint has
  no kind: at every stop with a step in progress, after the handler of the breakpoint
  (if any) has returned without an error, the step in progress is cancelled and the stop
  is treated as any other (step out of library code, or record the line and step); an
  error of the cancellation ends the run. Only the earlier revision, kept in
  src/tracer/log.go, tells the breakpoints apart: there the loop continues and restarts
  when the breakpoint is missing or not for stepping, and cancels the step and goes on
  when the breakpoint is for stepping.
\<close>

theorem next_in_progress_is_cancelled:
  "(state t = Some st \<and> CurrentThread st = Some th \<and> NextInProgress st \<and>
    hit_breakpoint E th t = (t1, None) \<and> CancelNext E (debug t1) = (None, d') \<longrightarrow>
      run_body E t =
        (if goStdOrTemporal E th then step_out E th (t1\<lparr>debug := d'\<rparr>)
         else do_command E Step ''failed stepping'' (record_code E th (t1\<lparr>debug := d'\<rparr>)))) \<and>
   (state t = Some st \<and> CurrentThread st = Some th \<and> NextInProgress st \<and>
    hit_breakpoint E th t = (t1, None) \<and> CancelNext E (debug t1) = (Some e, d') \<longrightarrow>
      run_body E t = (t1\<lparr>debug := d'\<rparr>, Some (ErrWrap ''failed cancelling next'' e))) \<and>
   (NextInProgress st \<and> (case hit of None \<Rightarrow> True | Some b \<Rightarrow> \<not> forStepping b) \<longrightarrow>
      next_in_progress_rev1 E hit st t =
        (case do_command E Continue ''failed continuing while next in progress'' t of
           (t', Some e) \<Rightarrow> (t', Return e)
         | (t', None) \<Rightarrow> (t', Restart))) \<and>
   (NextInProgress st \<and> hit = Some b \<and> forStepping b \<and> CancelNext E (debug t) = (None, d') \<longrightarrow>
      next_in_progress_rev1 E hit st t = (t\<lparr>debug := d'\<rparr>, GoOn))"
  by (auto simp: run_body_def cancel_next_def next_in_progress_rev1_def split: option.splits)

theorem next_in_progress_is_cancelled_witness:
  "requests (debug (fst (run_body example_Env
      (last_stop_session (user_stop 12 (Some 1) True) user_frame)))) =
     [ReqCancelNext, ReqCommand Step] \<and>
   run_body (example_Env\<lparr>CancelNext := (\<lambda>d. (Some (External ''no next in progress''), d))\<rparr>)
      (last_stop_session (user_stop 12 (Some 1) True) user_frame) =
     (last_stop_session (user_stop 12 (Some 1) True) user_frame,
      Some (ErrWrap ''failed cancelling next'' (External ''no next in progress''))) \<and>
   map_prod (\<lambda>t. requests (debug t)) id
     (next_in_progress_rev1 example_Env (Some event_breakpoint_rev1) (event_stop True)
        (last_stop_session (event_stop True) started_event_frame)) =
     ([ReqCommand Continue], Restart) \<and>
   map_prod (\<lambda>t. requests (debug t)) id
     (next_in_progress_rev1 example_Env (Some entry_breakpoint_rev1) (user_stop 12 (Some 1) True)
        (last_stop_session (user_stop 12 (Some 1) True) user_frame)) =
     ([ReqCancelNext], GoOn)"
proof -
  let ?E = example_Env
  let ?E' = "example_Env\<lparr>CancelNext := (\<lambda>d. (Some (External ''no next in progress''), d))\<rparr>"
  let ?st = "user_stop 12 (Some 1) True"
  let ?u = "last_stop_session ?st user_frame"
  let ?e = "last_stop_session (event_stop True) started_event_frame"
  note c2 = conjunct2
  obtain uth where uth: "CurrentThread ?st = Some uth"
    and ubp: "map_option BpID (Breakpoint uth) = Some 1"
    and uf: "ThFile uth = ''/home/u/app/workflow.go''"
    and ufn: "Function_Name uth = ''example.com/pkg.MyWorkflow''"
    by (simp add: example_defs)
  have nip: "NextInProgress ?st" "NextInProgress (event_stop True)"
    by (simp_all add: example_defs)
  have st: "state (last_stop_session s f) = Some s" for s f
    by (simp add: example_defs)
  have reg: "map_option handler (breakpoints (last_stop_session s f) 1) = Some None" for s f
    by (simp add: example_defs)
  have hb: "hit_breakpoint E uth ?u = (?u, None)" for E
    using ubp reg [of ?st user_frame]
    by (auto simp: hit_breakpoint_def split: option.splits)
  have cn: "CancelNext ?E (debug ?u) = (None, (debug ?u)\<lparr>requests := [ReqCancelNext]\<rparr>)"
    by (simp add: example_defs)
  have cn': "CancelNext ?E' (debug ?u) = (Some (External ''no next in progress''), debug ?u)"
    by simp
  have user: "\<not> goStdOrTemporal ?E uth"
    using uf ufn
    by (simp add: goStdOrTemporal_def strings_HasPrefix_def ToSlash_def example_Env_def
        scripted_Env_def)
  have a1: "requests (debug (fst (run_body ?E ?u))) = [ReqCancelNext, ReqCommand Step]"
    using next_in_progress_is_cancelled [where t = ?u and st = ?st and th = uth and E = ?E
        and ?t1.0 = ?u and d' = "(debug ?u)\<lparr>requests := [ReqCancelNext]\<rparr>", THEN conjunct1]
      st uth nip hb cn user
    by (simp add: do_command_def record_code_def append_event_def example_Env_def
        scripted_Env_def scripted_Command_def last_stop_session_def scripted_init_def
        split: prod.splits)
  have a2: "run_body ?E' ?u =
              (?u, Some (ErrWrap ''failed cancelling next'' (External ''no next in progress'')))"
    using next_in_progress_is_cancelled [where t = ?u and st = ?st and th = uth and E = ?E'
        and ?t1.0 = ?u and d' = "debug ?u" and e = "External ''no next in progress''",
        THEN c2, THEN conjunct1]
      st uth nip hb cn'
    by simp
  have a3: "map_prod (\<lambda>t. requests (debug t)) id
              (next_in_progress_rev1 ?E (Some event_breakpoint_rev1) (event_stop True) ?e) =
            ([ReqCommand Continue], Restart)"
    using next_in_progress_is_cancelled [where st = "event_stop True"
        and hit = "Some event_breakpoint_rev1" and E = ?E and t = ?e,
        THEN c2, THEN c2, THEN conjunct1] nip
    by (simp add: event_breakpoint_rev1_def do_command_def example_Env_def scripted_Env_def
        scripted_Command_def last_stop_session_def scripted_init_def)
  have a4: "map_prod (\<lambda>t. requests (debug t)) id
              (next_in_progress_rev1 ?E (Some entry_breakpoint_rev1) ?st ?u) =
            ([ReqCancelNext], GoOn)"
    using next_in_progress_is_cancelled [where st = ?st
        and hit = "Some entry_breakpoint_rev1" and b = entry_breakpoint_rev1 and E = ?E and t = ?u
        and d' = "(debug ?u)\<lparr>requests := [ReqCancelNext]\<rparr>",
        THEN c2, THEN c2, THEN c2] nip cn
    by (simp add: entry_breakpoint_rev1_def)
  from a1 a2 a3 a4 show ?thesis by blast
qed

section \<open>Excluded locations\<close>

text \<open>The locations that the loop itself excludes are stepped out of without a code step.\<close>

lemma excluded_location_steps_out:
  assumes "state t = Some st" and "CurrentThread st = Some th" and "goStdOrTemporal E th"
    and "hit_breakpoint E th t = (t1, None)" and "cancel_next E st t1 = (t2, None)"
  shows "run_body E t =
           do_command E (if strings_HasPrefix (Function_Name th) ''runtime.goexit'' then Step
                         else StepOut) ''failed stepping out'' t2"
    and "result (fst (run_body E t)) = result t1"
proof -
  show eq: "run_body E t =
           do_command E (if strings_HasPrefix (Function_Name th) ''runtime.goexit'' then Step
                         else StepOut) ''failed stepping out'' t2"
    using assms by (simp add: run_body_def step_out_def)
  obtain t' r where dc: "do_command E (if strings_HasPrefix (Function_Name th) ''runtime.goexit''
       then Step else StepOut) ''failed stepping out'' t2 = (t', r)"
    by (cases "do_command E (if strings_HasPrefix (Function_Name th) ''runtime.goexit''
       then Step else StepOut) ''failed stepping out'' t2")
  from do_command_frame [OF dc] cancel_next_frame [OF assms(5)] eq dc
  show "result (fst (run_body E t)) = result t1" by simp
qed

lemma call_handler_ignores_config:
  "call_handler E h (t\<lparr>tracer := tr\<rparr>) =
     (case call_handler E h t of (t', r) \<Rightarrow> (t'\<lparr>tracer := tr\<rparr>, r))"
  by (cases h)
     (auto simp: call_handler_def onProcessEvent_def onReplayCommands_def
        populateCoroutineName_def current_thread_def append_event_def
        split: sum.splits option.splits)

lemma hit_breakpoint_ignores_config:
  "hit_breakpoint E th (t\<lparr>tracer := tr\<rparr>) =
     (case hit_breakpoint E th t of (t', r) \<Rightarrow> (t'\<lparr>tracer := tr\<rparr>, r))"
  by (auto simp: hit_breakpoint_def call_handler_ignores_config split: option.splits)

lemma cancel_next_ignores_config:
  "cancel_next E st (t\<lparr>tracer := tr\<rparr>) =
     (case cancel_next E st t of (t', r) \<Rightarrow> (t'\<lparr>tracer := tr\<rparr>, r))"
  by (auto simp: cancel_next_def split: prod.splits option.splits)

lemma do_command_ignores_config:
  "do_command E c msg (t\<lparr>tracer := tr\<rparr>) =
     (case do_command E c msg t of (t', r) \<Rightarrow> (t'\<lparr>tracer := tr\<rparr>, r))"
  by (auto simp: do_command_def split: prod.splits sum.splits)

lemma record_code_ignores_config:
  "record_code E th (t\<lparr>tracer := tr\<rparr>) = (record_code E th t)\<lparr>tracer := tr\<rparr>"
  by (simp add: record_code_def append_event_def)

text \<open>The configuration of the tracer, and with it the caller's exclusion patterns, has
  no part in a turn of the loop.\<close>

lemma run_body_ignores_config:
  "run_body E (t\<lparr>tracer := tr\<rparr>) =
     (case run_body E t of (t', r) \<Rightarrow> (t'\<lparr>tracer := tr\<rparr>, r))"
  by (auto simp: run_body_def hit_breakpoint_ignores_config cancel_next_ignores_config
      do_command_ignores_config record_code_ignores_config step_out_def
      split: option.splits prod.splits)

text \<open>
  Claim C2 says that a stop in a function or file that matches a pattern of
  \<^verbatim>\<open>Config.ExcludeFuncs\<close> or \<^verbatim>\<open>Config.ExcludeFiles\<close> gives no code step
  and a step out, as the comment of these fields promises ("These are stepped out of if
  reached in any way"). The loop does not read the patterns. With a configuration that
  excludes the function \<open>example.com/pkg.helper\<close> and its file, a stop in that
  function is recorded as a code step and followed by a plain step.
\<close>

theorem caller_exclusion_is_ignored:
  "(ExcludeFuncs (tracer excluded_session) ! 0) ''example.com/pkg.helper'' \<and>
   (ExcludeFiles (tracer excluded_session) ! 0) ''/home/u/app/helper.go'' \<and>
   state excluded_session = Some helper_stop \<and>
   map_option Function_Name (CurrentThread helper_stop) = Some ''example.com/pkg.helper'' \<and>
   map_option ThFile (CurrentThread helper_stop) = Some ''/home/u/app/helper.go'' \<and>
   Events (result (fst (run_body example_Env excluded_session))) =
     [\<lparr>Server = None, Client = None,
       Code = Some \<lparr>Package = ''example.com/pkg'', File = ''/home/u/app/helper.go'',
                    Line = 7, Coroutine = []\<rparr>\<rparr>] \<and>
   requests (debug (fst (run_body example_Env excluded_session))) = [ReqCommand Step]"
  by (simp add: excluded_session_def excluding_Tracer_def helper_stop_def run_body_defs
      example_defs exited_def)

section \<open>Locating a breakpoint by a fragment of code\<close>

lemma occurs_at_Nil [simp]: "occurs_at [] code i \<longleftrightarrow> code = [] \<and> i = 0"
  by (auto simp: occurs_at_def)

lemma occurs_at_Cons_0 [simp]: "occurs_at (c # cs) code 0 \<longleftrightarrow> prefix code (c # cs)"
  by (simp add: occurs_at_def)

lemma occurs_at_Cons_Suc [simp]: "occurs_at (c # cs) code (Suc i) \<longleftrightarrow> occurs_at cs code i"
  by (simp add: occurs_at_def)

lemma index_from_first:
  "(index_from k s code = - 1 \<and> (\<forall>i. \<not> occurs_at s code i)) \<or>
   (\<exists>i. index_from k s code = int (k + i) \<and> occurs_at s code i \<and> (\<forall>j < i. \<not> occurs_at s code j))"
proof (induction s arbitrary: k)
  case Nil
  then show ?case by auto
next
  case (Cons c cs)
  show ?case
  proof (cases "prefix code (c # cs)")
    case True
    then have "index_from k (c # cs) code = int (k + 0) \<and> occurs_at (c # cs) code 0 \<and>
                 (\<forall>j < 0. \<not> occurs_at (c # cs) code j)"
      by simp
    then show ?thesis by blast
  next
    case False
    from Cons.IH [of "Suc k"] show ?thesis
    proof
      assume "index_from (Suc k) cs code = - 1 \<and> (\<forall>i. \<not> occurs_at cs code i)"
      then have none: "index_from (Suc k) cs code = - 1" "\<forall>i. \<not> occurs_at cs code i"
        by simp_all
      have "\<forall>j. \<not> occurs_at (c # cs) code j"
      proof
        fix j
        from none(2) False show "\<not> occurs_at (c # cs) code j" by (cases j) auto
      qed
      with False none(1) show ?thesis by simp
    next
      assume "\<exists>i. index_from (Suc k) cs code = int (Suc k + i) \<and> occurs_at cs code i \<and>
                (\<forall>j < i. \<not> occurs_at cs code j)"
      then obtain i where i: "index_from (Suc k) cs code = int (Suc k + i)" "occurs_at cs code i"
        "\<forall>j < i. \<not> occurs_at cs code j"
        by blast
      have "\<forall>j < Suc i. \<not> occurs_at (c # cs) code j"
      proof (intro allI impI)
        fix j assume "j < Suc i"
        with False i(3) show "\<not> occurs_at (c # cs) code j"
          by (cases j) auto
      qed
      with False i have "index_from k (c # cs) code = int (k + Suc i) \<and>
          occurs_at (c # cs) code (Suc i) \<and> (\<forall>j < Suc i. \<not> occurs_at (c # cs) code j)"
        by simp
      then show ?thesis by blast
    qed
  qed
qed

lemma last_index_from_last:
  "(last_index_from k s code = - 1 \<and> (\<forall>i. \<not> occurs_at s code i)) \<or>
   (\<exists>i. last_index_from k s code = int (k + i) \<and> occurs_at s code i \<and>
        (\<forall>j > i. \<not> occurs_at s code j))"
proof (induction s arbitrary: k)
  case Nil
  then show ?case by auto
next
  case (Cons c cs)
  from Cons.IH [of "Suc k"] show ?case
  proof
    assume none: "last_index_from (Suc k) cs code = - 1 \<and> (\<forall>i. \<not> occurs_at cs code i)"
    show ?thesis
    proof (cases "prefix code (c # cs)")
      case True
      have "\<forall>j > 0. \<not> occurs_at (c # cs) code j"
      proof (intro allI impI)
        fix j :: nat assume "j > 0"
        with none show "\<not> occurs_at (c # cs) code j" by (cases j) auto
      qed
      with True none have "last_index_from k (c # cs) code = int (k + 0) \<and>
          occurs_at (c # cs) code 0 \<and> (\<forall>j > 0. \<not> occurs_at (c # cs) code j)"
        by simp
      then show ?thesis by blast
    next
      case False
      have "\<forall>j. \<not> occurs_at (c # cs) code j"
      proof
        fix j
        from none False show "\<not> occurs_at (c # cs) code j" by (cases j) auto
      qed
      with False none show ?thesis by simp
    qed
  next
    assume "\<exists>i. last_index_from (Suc k) cs code = int (Suc k + i) \<and> occurs_at cs code i \<and>
              (\<forall>j > i. \<not> occurs_at cs code j)"
    then obtain i where i: "last_index_from (Suc k) cs code = int (Suc k + i)"
      "occurs_at cs code i" "\<forall>j > i. \<not> occurs_at cs code j"
      by blast
    have "\<forall>j > Suc i. \<not> occurs_at (c # cs) code j"
    proof (intro allI impI)
      fix j assume "j > Suc i"
      with i(3) show "\<not> occurs_at (c # cs) code j" by (cases j) auto
    qed
    with i have "last_index_from k (c # cs) code = int (k + Suc i) \<and>
        occurs_at (c # cs) code (Suc i) \<and> (\<forall>j > Suc i. \<not> occurs_at (c # cs) code j)"
      by (simp add: Let_def)
    then show ?thesis by blast
  qed
qed


lemma unique_occurrence:
  assumes "occurs_at s code i" and "\<forall>j. occurs_at s code j \<longrightarrow> j = i"
  shows "strings_Index s code = int i" and "strings_LastIndex s code = int i"
proof -
  from index_from_first [of 0 s code] show "strings_Index s code = int i"
  proof
    assume "index_from 0 s code = - 1 \<and> (\<forall>i. \<not> occurs_at s code i)"
    with assms(1) show ?thesis by blast
  next
    assume "\<exists>i. index_from 0 s code = int (0 + i) \<and> occurs_at s code i \<and>
              (\<forall>j < i. \<not> occurs_at s code j)"
    then obtain i0 where "index_from 0 s code = int (0 + i0)" and "occurs_at s code i0"
      by blast
    with assms(2) show ?thesis by (simp add: strings_Index_def)
  qed
  from last_index_from_last [of 0 s code] show "strings_LastIndex s code = int i"
  proof
    assume "last_index_from 0 s code = - 1 \<and> (\<forall>i. \<not> occurs_at s code i)"
    with assms(1) show ?thesis by blast
  next
    assume "\<exists>i. last_index_from 0 s code = int (0 + i) \<and> occurs_at s code i \<and>
              (\<forall>j > i. \<not> occurs_at s code j)"
    then obtain i0 where "last_index_from 0 s code = int (0 + i0)" and "occurs_at s code i0"
      by blast
    with assms(2) show ?thesis by (simp add: strings_LastIndex_def)
  qed
qed

lemma no_unique_occurrence:
  assumes "\<not> (\<exists>!i. occurs_at s code i)"
  shows "strings_Index s code = - 1 \<or> strings_LastIndex s code \<noteq> strings_Index s code"
proof (rule ccontr)
  assume "\<not> ?thesis"
  then have found: "index_from 0 s code \<noteq> - 1"
    and same: "last_index_from 0 s code = index_from 0 s code"
    by (simp_all add: strings_Index_def strings_LastIndex_def)
  from index_from_first [of 0 s code] found obtain i where
    i: "index_from 0 s code = int i" "occurs_at s code i" "\<forall>j < i. \<not> occurs_at s code j"
    by auto
  from last_index_from_last [of 0 s code] i(2) obtain i' where
    i': "last_index_from 0 s code = int i'" "\<forall>j > i'. \<not> occurs_at s code j"
    by auto
  from same i(1) i'(1) have "i' = i" by simp
  with i(3) i'(2) have "\<forall>j. occurs_at s code j \<longrightarrow> j = i"
    by (meson linorder_neqE_nat)
  with i(2) assms show False by blast
qed

lemma find_file_filter:
  assumes "\<forall>p \<in> set srcs. re p \<longrightarrow> p \<noteq> []"
  shows "find_file re rx acc srcs =
     (case filter re srcs of
        [] \<Rightarrow> Inr acc
      | m # ms \<Rightarrow>
          if acc \<noteq> [] then Inl (ErrVals ''both %v and %v match %v'' [acc, m, rx])
          else (case ms of
                  [] \<Rightarrow> Inr m
                | m' # _ \<Rightarrow> Inl (ErrVals ''both %v and %v match %v'' [m, m', rx])))"
  using assms
proof (induction srcs arbitrary: acc)
  case Nil
  then show ?case by simp
next
  case (Cons p ps)
  then show ?case
    by (cases "filter re ps") auto
qed

lemma find_file_start:
  assumes "\<forall>p \<in> set srcs. re p \<longrightarrow> p \<noteq> []"
  shows "find_file re rx [] srcs =
     (case filter re srcs of
        [] \<Rightarrow> Inr []
      | [m] \<Rightarrow> Inr m
      | m # m' # _ \<Rightarrow> Inl (ErrVals ''both %v and %v match %v'' [m, m', rx]))"
  using find_file_filter [OF assms, of rx "[]"] by (simp split: list.splits)

lemma index_is_last_unique:
  assumes "strings_Index s code = int i" and "strings_LastIndex s code = int i"
  shows "occurs_at s code i \<and> (\<forall>j. occurs_at s code j \<longrightarrow> j = i)"
proof -
  from index_from_first [of 0 s code] assms(1) have
    first: "occurs_at s code i" "\<forall>j < i. \<not> occurs_at s code j"
    by (auto simp: strings_Index_def)
  from last_index_from_last [of 0 s code] assms(2) have "\<forall>j > i. \<not> occurs_at s code j"
    by (auto simp: strings_LastIndex_def)
  with first show ?thesis by (meson linorder_neqE_nat)
qed

lemma index_none_no_occurrence:
  assumes "strings_Index s code = - 1"
  shows "\<not> occurs_at s code i"
  using index_from_first [of 0 s code] assms by (auto simp: strings_Index_def)

lemma index_not_last_two_occurrences:
  assumes "strings_Index s code = int i" and "strings_LastIndex s code = int j" and "i \<noteq> j"
  shows "\<not> (\<exists>!k. occurs_at s code k)"
proof -
  from index_from_first [of 0 s code] assms(1) have "occurs_at s code i"
    by (auto simp: strings_Index_def)
  moreover from last_index_from_last [of 0 s code] assms(2) have "occurs_at s code j"
    by (auto simp: strings_LastIndex_def)
  ultimately show ?thesis using assms(3) by blast
qed

text \<open>
  Claim C4. For a pattern that compiles and matches no empty path (the patterns of the
  tracer all demand a directory of the SDK), \<^verbatim>\<open>addFileLineBreakpoint\<close> fails when
  the number of source files of the binary that match is not one; with one matching
  file, read without an error, it fails when the fragment does not occur exactly once
  in the text of the file with line endings normalised; and when it occurs exactly
  once, at the index \<open>i\<close>, the breakpoint that it asks the debugger for is in that
  file at the line that is one more than the number of newlines in the text up to the
  end of the occurrence.
\<close>

theorem breakpoint_locator:
  "(RegexpCompile E fileRegex = Inr re \<and>
    (\<forall>p \<in> set (Sources E (debug t)). re p \<longrightarrow> p \<noteq> []) \<and>
    length (filter re (Sources E (debug t))) \<noteq> 1 \<longrightarrow>
      snd (addFileLineBreakpoint E fileRegex codeToMatch h t) \<noteq> None) \<and>
   (RegexpCompile E fileRegex = Inr re \<and>
    (\<forall>p \<in> set (Sources E (debug t)). re p \<longrightarrow> p \<noteq> []) \<and>
    filter re (Sources E (debug t)) = [path] \<and>
    ReadFile E path = Inr b \<and>
    (sourceCache t path = None \<or> sourceCache t path = Some (ReplaceAll_crlf b)) \<and>
    \<not> (\<exists>!i. occurs_at (ReplaceAll_crlf b) codeToMatch i) \<longrightarrow>
      snd (addFileLineBreakpoint E fileRegex codeToMatch h t) \<noteq> None) \<and>
   (RegexpCompile E fileRegex = Inr re \<and>
    (\<forall>p \<in> set (Sources E (debug t)). re p \<longrightarrow> p \<noteq> []) \<and>
    filter re (Sources E (debug t)) = [path] \<and>
    ReadFile E path = Inr b \<and>
    (sourceCache t path = None \<or> sourceCache t path = Some (ReplaceAll_crlf b)) \<and>
    occurs_at (ReplaceAll_crlf b) codeToMatch i \<and>
    (\<forall>j. occurs_at (ReplaceAll_crlf b) codeToMatch j \<longrightarrow> j = i) \<longrightarrow>
      addFileLineBreakpoint E fileRegex codeToMatch h t =
        create_and_register E
          \<lparr>BpID = 0, BpFunctionName = [], BpFile = path,
           BpLine = int (strings_Count
                           (take (i + length codeToMatch) (ReplaceAll_crlf b)) LF) + 1\<rparr>
          h
          (if map_get (sourceCache t) path = []
           then t\<lparr>sourceCache := (sourceCache t)(path \<mapsto> ReplaceAll_crlf b)\<rparr> else t))"
proof (intro conjI impI)
  assume a: "RegexpCompile E fileRegex = Inr re \<and>
    (\<forall>p \<in> set (Sources E (debug t)). re p \<longrightarrow> p \<noteq> []) \<and>
    length (filter re (Sources E (debug t))) \<noteq> 1"
  then have ff: "find_file re fileRegex [] (Sources E (debug t)) =
     (case filter re (Sources E (debug t)) of
        [] \<Rightarrow> Inr []
      | [m] \<Rightarrow> Inr m
      | m # m' # _ \<Rightarrow> Inl (ErrVals ''both %v and %v match %v'' [m, m', fileRegex]))"
    using find_file_start [of "Sources E (debug t)" re fileRegex] by simp
  show "snd (addFileLineBreakpoint E fileRegex codeToMatch h t) \<noteq> None"
  proof (cases "filter re (Sources E (debug t))")
    case Nil
    with a ff show ?thesis by (simp add: addFileLineBreakpoint_def)
  next
    case (Cons m ms)
    with a obtain m' ms' where "ms = m' # ms'" by (cases ms) auto
    with a ff Cons show ?thesis by (simp add: addFileLineBreakpoint_def)
  qed
next
  assume a: "RegexpCompile E fileRegex = Inr re \<and>
    (\<forall>p \<in> set (Sources E (debug t)). re p \<longrightarrow> p \<noteq> []) \<and>
    filter re (Sources E (debug t)) = [path] \<and>
    ReadFile E path = Inr b \<and>
    (sourceCache t path = None \<or> sourceCache t path = Some (ReplaceAll_crlf b)) \<and>
    \<not> (\<exists>!i. occurs_at (ReplaceAll_crlf b) codeToMatch i)"
  then have ff: "find_file re fileRegex [] (Sources E (debug t)) = Inr path"
    using find_file_start [of "Sources E (debug t)" re fileRegex] by simp
  from a have "path \<in> set (filter re (Sources E (debug t)))" by simp
  then have "path \<in> set (Sources E (debug t))" and "re path" by simp_all
  with a have ne: "path \<noteq> []" by blast
  from a have gs: "\<exists>t1. get_source E path t = Inr (ReplaceAll_crlf b, t1)"
    by (auto simp: get_source_def map_get_def Let_def)
  then obtain t1 where t1: "get_source E path t = Inr (ReplaceAll_crlf b, t1)" by blast
  from a no_unique_occurrence [of "ReplaceAll_crlf b" codeToMatch]
  have "strings_Index (ReplaceAll_crlf b) codeToMatch = - 1 \<or>
        strings_LastIndex (ReplaceAll_crlf b) codeToMatch \<noteq>
          strings_Index (ReplaceAll_crlf b) codeToMatch"
    by simp
  with a ff ne t1 show "snd (addFileLineBreakpoint E fileRegex codeToMatch h t) \<noteq> None"
    by (auto simp: addFileLineBreakpoint_def Let_def)
next
  assume a: "RegexpCompile E fileRegex = Inr re \<and>
    (\<forall>p \<in> set (Sources E (debug t)). re p \<longrightarrow> p \<noteq> []) \<and>
    filter re (Sources E (debug t)) = [path] \<and>
    ReadFile E path = Inr b \<and>
    (sourceCache t path = None \<or> sourceCache t path = Some (ReplaceAll_crlf b)) \<and>
    occurs_at (ReplaceAll_crlf b) codeToMatch i \<and>
    (\<forall>j. occurs_at (ReplaceAll_crlf b) codeToMatch j \<longrightarrow> j = i)"
  let ?t1 = "if map_get (sourceCache t) path = []
           then t\<lparr>sourceCache := (sourceCache t)(path \<mapsto> ReplaceAll_crlf b)\<rparr> else t"
  from a have ff: "find_file re fileRegex [] (Sources E (debug t)) = Inr path"
    using find_file_start [of "Sources E (debug t)" re fileRegex] by simp
  from a have "path \<in> set (filter re (Sources E (debug t)))" by simp
  then have "path \<in> set (Sources E (debug t))" and "re path" by simp_all
  with a have ne: "path \<noteq> []" by blast
  from a have gs: "get_source E path t = Inr (ReplaceAll_crlf b, ?t1)"
    by (auto simp: get_source_def map_get_def Let_def)
  from a unique_occurrence [of "ReplaceAll_crlf b" codeToMatch i]
  have idx: "strings_Index (ReplaceAll_crlf b) codeToMatch = int i"
    "strings_LastIndex (ReplaceAll_crlf b) codeToMatch = int i"
    by simp_all
  from a ff ne gs idx
  show "addFileLineBreakpoint E fileRegex codeToMatch h t =
        create_and_register E
          \<lparr>BpID = 0, BpFunctionName = [], BpFile = path,
           BpLine = int (strings_Count
                           (take (i + length codeToMatch) (ReplaceAll_crlf b)) LF) + 1\<rparr>
          h ?t1"
    by (simp add: addFileLineBreakpoint_def Let_def)
qed

theorem breakpoint_locator_witness:
  "snd (addFileLineBreakpoint example_Env matchInternalWorkflow (TAB # TAB # ''f(spawned)'')
          (Some H_populateCoroutineName) (unplaced_session [''/home/u/app/workflow.go''])) \<noteq> None \<and>
   snd (addFileLineBreakpoint (scripted_Env loose_compile example_read_file (scripted_init [] []))
          matchInternalWorkflow (TAB # TAB # ''f(spawned)'')
          (Some H_populateCoroutineName) (unplaced_session vendored_sources)) \<noteq> None \<and>
   snd (addFileLineBreakpoint example_Env matchInternalWorkflow ''yield()''
          (Some H_populateCoroutineName) (unplaced_session example_sources)) \<noteq> None \<and>
   snd (addFileLineBreakpoint (scripted_Env example_compile twice_read_file (scripted_init [] []))
          matchInternalWorkflow ''f(spawned)''
          (Some H_populateCoroutineName) (unplaced_session example_sources)) \<noteq> None \<and>
   addFileLineBreakpoint example_Env matchInternalEventHandlers (TAB # ''if event == nil {'')
          (Some H_onProcessEvent) (unplaced_session example_sources) =
     create_and_register example_Env
       \<lparr>BpID = 0, BpFunctionName = [], BpFile = event_handlers_go, BpLine = 3\<rparr>
       (Some H_onProcessEvent)
       ((unplaced_session example_sources)
          \<lparr>sourceCache := [event_handlers_go \<mapsto> event_handlers_text]\<rparr>)"
proof -
  let ?E = example_Env
  let ?L = "scripted_Env loose_compile example_read_file (scripted_init [] [])"
  let ?T = "scripted_Env example_compile twice_read_file (scripted_init [] [])"
  let ?wf = "sdk_dir @ ''internal_workflow.go''"
  let ?re_wf = "\<lambda>path. path = sdk_dir @ ''internal_workflow.go''"
  let ?re_ev = "\<lambda>path. path = sdk_dir @ ''internal_event_handlers.go''"
  let ?re_loose = "\<lambda>path. suffix ''internal_workflow.go'' path"
  let ?spawn = "TAB # TAB # ''f(spawned)''"
  let ?h = "Some H_populateCoroutineName"
  note c2 = conjunct2
  have ne: "matchInternalWorkflow \<noteq> matchInternalEventHandlers"
    "matchInternalWorkflow \<noteq> matchInternalTaskHandlers"
    by (simp_all add: matchInternalWorkflow_def matchInternalEventHandlers_def
        matchInternalTaskHandlers_def)
  have comp: "RegexpCompile ?E matchInternalWorkflow = Inr ?re_wf"
    "RegexpCompile ?T matchInternalWorkflow = Inr ?re_wf"
    "RegexpCompile ?L matchInternalWorkflow = Inr ?re_loose"
    "RegexpCompile ?E matchInternalEventHandlers = Inr ?re_ev"
    using ne by (simp_all add: example_Env_def scripted_Env_def example_compile_def loose_compile_def)
  have S: "Sources ?E (debug (unplaced_session xs)) = xs"
    "Sources ?L (debug (unplaced_session xs)) = xs"
    "Sources ?T (debug (unplaced_session xs)) = xs" for xs
    by (simp_all add: example_Env_def scripted_Env_def unplaced_session_def fresh_trace_def
        scripted_init_def)
  have cache: "sourceCache (unplaced_session xs) = Map.empty" for xs
    by (simp add: unplaced_session_def fresh_trace_def)
  have R: "ReadFile ?E = example_read_file" "ReadFile ?T = twice_read_file"
    by (simp_all add: example_Env_def scripted_Env_def)
  have a1: "snd (addFileLineBreakpoint ?E matchInternalWorkflow ?spawn ?h
                   (unplaced_session [''/home/u/app/workflow.go''])) \<noteq> None"
    using breakpoint_locator [where E = ?E and fileRegex = matchInternalWorkflow and re = ?re_wf
        and t = "unplaced_session [''/home/u/app/workflow.go'']" and codeToMatch = ?spawn
        and h = ?h, THEN conjunct1] comp S
    by (simp add: sdk_dir_def)
  have a2: "snd (addFileLineBreakpoint ?L matchInternalWorkflow ?spawn ?h
                   (unplaced_session vendored_sources)) \<noteq> None"
    using breakpoint_locator [where E = ?L and fileRegex = matchInternalWorkflow
        and re = ?re_loose and t = "unplaced_session vendored_sources" and codeToMatch = ?spawn
        and h = ?h, THEN conjunct1] comp S
    by (simp add: vendored_sources_def sdk_dir_def suffix_to_prefix)
  have f1: "filter ?re_wf example_sources = [?wf]"
    by (simp add: example_sources_def sdk_dir_def)
  have f2: "filter ?re_ev example_sources = [event_handlers_go]"
    by (simp add: example_sources_def sdk_dir_def event_handlers_go_def)
  have n1: "\<forall>p \<in> set example_sources. ?re_wf p \<longrightarrow> p \<noteq> []"
    "\<forall>p \<in> set example_sources. ?re_ev p \<longrightarrow> p \<noteq> []"
    by (simp_all add: sdk_dir_def)
  have rd: "example_read_file ?wf =
              Inr (''package internal'' @ [LF, TAB] @ ''s.blocked.Swap(false)'' @
                   [LF, LF, TAB, TAB] @ ''f(spawned)'' @ [LF])"
    by (simp add: example_read_file_def sdk_dir_def)
  have zero: "\<not> (\<exists>!i. occurs_at (ReplaceAll_crlf (''package internal'' @ [LF, TAB] @
                ''s.blocked.Swap(false)'' @ [LF, LF, TAB, TAB] @ ''f(spawned)'' @ [LF]))
                ''yield()'' i)"
    using index_none_no_occurrence [of "ReplaceAll_crlf (''package internal'' @ [LF, TAB] @
                ''s.blocked.Swap(false)'' @ [LF, LF, TAB, TAB] @ ''f(spawned)'' @ [LF])" "''yield()''"]
    by (auto simp: strings_Index_def LF_def CR_def TAB_def)
  have a3: "snd (addFileLineBreakpoint ?E matchInternalWorkflow ''yield()'' ?h
                   (unplaced_session example_sources)) \<noteq> None"
    using breakpoint_locator [where E = ?E and fileRegex = matchInternalWorkflow and re = ?re_wf
        and t = "unplaced_session example_sources" and codeToMatch = "''yield()''"
        and h = ?h and path = ?wf
        and b = "''package internal'' @ [LF, TAB] @ ''s.blocked.Swap(false)'' @
                   [LF, LF, TAB, TAB] @ ''f(spawned)'' @ [LF]", THEN c2, THEN conjunct1]
      comp S f1 n1 R rd cache zero
    by simp
  have two: "\<not> (\<exists>!i. occurs_at (ReplaceAll_crlf (''f(spawned)'' @ [LF] @ ''f(spawned)'' @ [LF]))
                ''f(spawned)'' i)"
    by (rule index_not_last_two_occurrences [where i = 0 and j = 11])
       (simp_all add: strings_Index_def strings_LastIndex_def LF_def CR_def)
  have a4: "snd (addFileLineBreakpoint ?T matchInternalWorkflow ''f(spawned)'' ?h
                   (unplaced_session example_sources)) \<noteq> None"
    using breakpoint_locator [where E = ?T and fileRegex = matchInternalWorkflow and re = ?re_wf
        and t = "unplaced_session example_sources" and codeToMatch = "''f(spawned)''"
        and h = ?h and path = ?wf
        and b = "''f(spawned)'' @ [LF] @ ''f(spawned)'' @ [LF]", THEN c2, THEN conjunct1]
      comp S f1 n1 R cache two
    by (simp add: twice_read_file_def)
  let ?b = "''package internal'' @ [CR, LF] @ ''func f() {'' @ [CR, LF, TAB] @
             ''if event == nil {'' @ [CR, LF] @ ''}''"
  have rd5: "example_read_file event_handlers_go = Inr ?b"
    by (simp add: example_read_file_def event_handlers_go_def)
  have norm: "ReplaceAll_crlf ?b = event_handlers_text"
    by (simp add: event_handlers_text_def CR_def LF_def TAB_def)
  have idx: "strings_Index event_handlers_text (TAB # ''if event == nil {'') = int 28"
    "strings_LastIndex event_handlers_text (TAB # ''if event == nil {'') = int 28"
    by (simp_all add: strings_Index_def strings_LastIndex_def event_handlers_text_def
        LF_def TAB_def)
  note once = index_is_last_unique [OF idx]
  have line: "int (strings_Count (take (28 + length (TAB # ''if event == nil {''))
                event_handlers_text) LF) + 1 = 3"
    by (simp add: strings_Count_def event_handlers_text_def LF_def TAB_def)
  let ?t = "unplaced_session example_sources"
  let ?code = "TAB # ''if event == nil {''"
  note inst = breakpoint_locator [where E = ?E and fileRegex = matchInternalEventHandlers
        and re = ?re_ev and t = ?t and codeToMatch = ?code and h = "Some H_onProcessEvent"
        and path = event_handlers_go and b = ?b and i = 28, THEN c2, THEN c2, unfolded norm S R]
  have h5: "RegexpCompile ?E matchInternalEventHandlers = Inr ?re_ev \<and>
    (\<forall>p \<in> set example_sources. ?re_ev p \<longrightarrow> p \<noteq> []) \<and>
    filter ?re_ev example_sources = [event_handlers_go] \<and>
    example_read_file event_handlers_go = Inr ?b \<and>
    (sourceCache ?t event_handlers_go = None \<or>
     sourceCache ?t event_handlers_go = Some event_handlers_text) \<and>
    occurs_at event_handlers_text ?code 28 \<and>
    (\<forall>j. occurs_at event_handlers_text ?code j \<longrightarrow> j = 28)"
  proof (intro conjI)
    show "RegexpCompile ?E matchInternalEventHandlers = Inr ?re_ev" by (rule comp(4))
    show "\<forall>p \<in> set example_sources. ?re_ev p \<longrightarrow> p \<noteq> []" by (rule n1(2))
    show "filter ?re_ev example_sources = [event_handlers_go]" by (rule f2)
    show "example_read_file event_handlers_go = Inr ?b" by (rule rd5)
    show "sourceCache ?t event_handlers_go = None \<or>
          sourceCache ?t event_handlers_go = Some event_handlers_text"
      by (simp add: cache)
    show "occurs_at event_handlers_text ?code 28" using once by (rule conjunct1)
    show "\<forall>j. occurs_at event_handlers_text ?code j \<longrightarrow> j = 28" using once by (rule conjunct2)
  qed
  have a5: "addFileLineBreakpoint ?E matchInternalEventHandlers ?code
          (Some H_onProcessEvent) ?t =
     create_and_register ?E
       \<lparr>BpID = 0, BpFunctionName = [], BpFile = event_handlers_go, BpLine = 3\<rparr>
       (Some H_onProcessEvent)
       (?t\<lparr>sourceCache := [event_handlers_go \<mapsto> event_handlers_text]\<rparr>)"
    using inst [THEN mp, OF h5] unfolding line by (simp add: map_get_def cache)
  from a1 a2 a3 a4 a5 show ?thesis by blast
qed

end
